(* ===== verification/Asker_Prelude.thy ===== *)
theory Asker_Prelude
  imports Main "HOL-Library.AList" "HOL-Library.Char_ord" "HOL-Library.List_Lexorder"
    "HOL-Library.Product_Lexorder" "HOL-Library.Sublist" "HOL-Library.Word"
begin

text \<open>
  Shared vocabulary of the development: the names of the model's base types, the collections that
  carry the component proofs, and the facts on association lists, options and lists that more
  than one component uses.

  A Go string or byte slice is a \<^typ>\<open>string\<close>, that is a list of bytes. A Go map that the code
  iterates over, counts or sorts is an association list with distinct keys: its order stands for
  whatever order the runtime ranges over the map in, and no theorem depends on it. A \<open>time.Time\<close> is its
  distance from the zero time.
\<close>

named_theorems asker_map \<open>lookups after an update or a removal in an association list\<close>
named_theorems asker_keys \<open>what an operation does to the keys of an association list\<close>
named_theorems asker_count \<open>how an operation changes the number of rows that satisfy a predicate\<close>

type_synonym bytes = string
type_synonym time = int
type_synonym tenant_id = string

type_synonym ('k, 'v) table = "('k \<times> 'v) list"

abbreviation keys :: "('k, 'v) table \<Rightarrow> 'k set" where
  "keys t \<equiv> fst ` set t"

abbreviation wf_table :: "('k, 'v) table \<Rightarrow> bool" where
  "wf_table t \<equiv> distinct (map fst t)"

abbreviation tbl_get :: "('k, 'v) table \<Rightarrow> 'k \<Rightarrow> 'v option" where
  "tbl_get \<equiv> map_of"

abbreviation tbl_put :: "'k \<Rightarrow> 'v \<Rightarrow> ('k, 'v) table \<Rightarrow> ('k, 'v) table" where
  "tbl_put \<equiv> AList.update"

abbreviation tbl_del :: "'k \<Rightarrow> ('k, 'v) table \<Rightarrow> ('k, 'v) table" where
  "tbl_del \<equiv> AList.delete"

definition tbl_has :: "'k \<Rightarrow> ('k, 'v) table \<Rightarrow> bool" where
  "tbl_has k t = (case tbl_get t k of None \<Rightarrow> False | Some _ \<Rightarrow> True)"

definition tbl_keep :: "('k \<Rightarrow> 'v \<Rightarrow> bool) \<Rightarrow> ('k, 'v) table \<Rightarrow> ('k, 'v) table" where
  "tbl_keep P t = filter (\<lambda>(k, v). P k v) t"

definition tbl_count :: "('v \<Rightarrow> bool) \<Rightarrow> ('k, 'v) table \<Rightarrow> nat" where
  "tbl_count P t = length (filter (\<lambda>(k, v). P v) t)"

declare map_of_eq_Some_iff [simp del] Some_eq_map_of_iff [simp del]

lemma tbl_has_iff [simp]: "tbl_has k t \<longleftrightarrow> k \<in> keys t"
  by (auto simp: tbl_has_def map_of_eq_None_iff split: option.splits
      dest: map_of_SomeD intro: rev_image_eqI)

lemma tbl_get_put [simp, asker_map]:
  "tbl_get (tbl_put k v t) k' = (if k' = k then Some v else tbl_get t k')"
  by (simp add: update_conv')

lemma tbl_get_del [simp, asker_map]:
  "tbl_get (tbl_del k t) k' = (if k' = k then None else tbl_get t k')"
  by (simp add: delete_conv')

lemma keys_put [simp, asker_keys]: "keys (tbl_put k v t) = insert k (keys t)"
  by (induction t) auto

lemma keys_del [simp, asker_keys]: "keys (tbl_del k t) = keys t - {k}"
  by (auto simp: AList.delete_eq)

lemma keys_keep_subset: "keys (tbl_keep P t) \<subseteq> keys t"
  by (auto simp: tbl_keep_def)

lemma wf_put [simp, asker_keys]: "wf_table t \<Longrightarrow> wf_table (tbl_put k v t)"
  by (rule distinct_update)

lemma wf_del [simp, asker_keys]: "wf_table t \<Longrightarrow> wf_table (tbl_del k t)"
  by (rule distinct_delete)

lemma wf_keep [simp, asker_keys]: "wf_table t \<Longrightarrow> wf_table (tbl_keep P t)"
  by (simp add: tbl_keep_def distinct_map_filter)

lemma tbl_get_keep [asker_map]:
  "wf_table t \<Longrightarrow> tbl_get (tbl_keep P t) k =
     (case tbl_get t k of None \<Rightarrow> None | Some v \<Rightarrow> if P k v then Some v else None)"
proof (induction t)
  case Nil
  then show ?case by (simp add: tbl_keep_def)
next
  case (Cons p t)
  obtain k0 v0 where p: "p = (k0, v0)" by fastforce
  show ?case
  proof (cases "k = k0")
    case True
    with Cons.prems p have "tbl_get t k = None"
      by (auto simp: map_of_eq_None_iff)
    with Cons True p show ?thesis by (auto simp: tbl_keep_def)
  next
    case False
    with Cons p show ?thesis by (auto simp: tbl_keep_def)
  qed
qed

lemma keep_eq_del: "tbl_keep (\<lambda>k' v. k' \<noteq> k) t = tbl_del k t"
  by (induction t) (auto simp: tbl_keep_def)

lemma get_in_set: "tbl_get t k = Some v \<Longrightarrow> (k, v) \<in> set t"
  by (rule map_of_SomeD)

lemma in_set_get: "wf_table t \<Longrightarrow> (k, v) \<in> set t \<Longrightarrow> tbl_get t k = Some v"
  by (rule map_of_is_SomeI)

lemma set_get_iff: "wf_table t \<Longrightarrow> (k, v) \<in> set t \<longleftrightarrow> tbl_get t k = Some v"
  by (blast intro: get_in_set in_set_get)

lemma get_None_iff: "tbl_get t k = None \<longleftrightarrow> k \<notin> keys t"
  by (simp add: map_of_eq_None_iff)

lemma keys_get_iff: "k \<in> keys t \<longleftrightarrow> (\<exists>v. tbl_get t k = Some v)"
  using get_None_iff [of t k] by (cases "tbl_get t k") auto

subsection \<open>Counting rows\<close>

lemma count_put_fresh [asker_count]:
  "k \<notin> keys t \<Longrightarrow> tbl_count P (tbl_put k v t) = tbl_count P t + (if P v then 1 else 0)"
  by (induction t) (auto simp: tbl_count_def)

lemma count_put_le: "tbl_count P (tbl_put k v t) \<le> Suc (tbl_count P t)"
  by (induction t) (auto simp: tbl_count_def)

lemma count_put_other: "\<not> P v \<Longrightarrow> tbl_count P (tbl_put k v t) \<le> tbl_count P t"
  by (induction t) (auto simp: tbl_count_def)

lemma count_del_le: "tbl_count P (tbl_del k t) \<le> tbl_count P t"
  by (induction t) (auto simp: tbl_count_def)

lemma count_keep_le: "tbl_count P (tbl_keep Q t) \<le> tbl_count P t"
  by (induction t) (auto simp: tbl_count_def tbl_keep_def)

lemma count_zero_iff: "tbl_count P t = 0 \<longleftrightarrow> (\<forall>(k, v) \<in> set t. \<not> P v)"
  by (auto simp: tbl_count_def filter_empty_conv)

lemma count_map_snd:
  "(\<And>k v. (k, v) \<in> set t \<Longrightarrow> P (f k v) = P v) \<Longrightarrow>
     tbl_count P (map (\<lambda>(k, v). (k, f k v)) t) = tbl_count P t"
  by (induction t) (auto simp: tbl_count_def)

subsection \<open>Properties of all rows\<close>

definition tbl_all :: "('v \<Rightarrow> bool) \<Rightarrow> ('k, 'v) table \<Rightarrow> bool" where
  "tbl_all P t = list_all (\<lambda>(k, v). P v) t"

lemma tbl_all_put [simp]: "tbl_all P t \<Longrightarrow> P v \<Longrightarrow> tbl_all P (tbl_put k v t)"
  by (induction t) (auto simp: tbl_all_def)

lemma tbl_all_del [simp]: "tbl_all P t \<Longrightarrow> tbl_all P (tbl_del k t)"
  by (auto simp: tbl_all_def list_all_iff AList.delete_eq)

lemma tbl_all_keep [simp]: "tbl_all P t \<Longrightarrow> tbl_all P (tbl_keep Q t)"
  by (auto simp: tbl_all_def list_all_iff tbl_keep_def)

lemma tbl_all_Nil [simp]: "tbl_all P []"
  by (simp add: tbl_all_def)

lemma tbl_all_get: "tbl_all P t \<Longrightarrow> tbl_get t k = Some v \<Longrightarrow> P v"
  by (auto simp: tbl_all_def list_all_iff dest: get_in_set)

subsection \<open>Mapping over the rows\<close>

lemma keys_map_snd [simp, asker_keys]: "map fst (map (\<lambda>(k, v). (k, f k v)) t) = map fst t"
  by (induction t) auto

lemma get_map_snd [asker_map]:
  "tbl_get (map (\<lambda>(k, v). (k, f k v)) t) k = map_option (f k) (tbl_get t k)"
  by (induction t) auto

subsection \<open>Options and lists\<close>

lemma option_cases_eq:
  "(case x of None \<Rightarrow> False | Some v \<Rightarrow> P v) \<longleftrightarrow> (\<exists>v. x = Some v \<and> P v)"
  by (cases x) auto

lemma takeWhile_dropWhile_nth:
  "n < length (takeWhile P xs) \<Longrightarrow> P (xs ! n)"
  by (metis nth_mem set_takeWhileD takeWhile_nth)

end
