(* ===== verification/Go_Lib.thy ===== *)
theory Go_Lib
  imports Asker_Prelude
begin

text \<open>
  The parts of Go's language and standard library that the modelled code uses on strings: trimming,
  searching, decimal printing, URL path escaping and the rune-start test of UTF-8. Strings are
  byte lists, as Go indexes them.
\<close>

subsection \<open>Trimming\<close>

text \<open>
  \<open>strip_prefixes ps s\<close> removes tokens of \<open>ps\<close> from the front of \<open>s\<close> for as long as one matches.
\<close>

function strip_prefixes :: "string list \<Rightarrow> string \<Rightarrow> string" where
  "strip_prefixes ps s =
     (case find (\<lambda>p. p \<noteq> [] \<and> prefix p s) ps of
        None \<Rightarrow> s
      | Some p \<Rightarrow> strip_prefixes ps (drop (length p) s))"
  by pat_completeness auto
termination
proof (relation "measure (\<lambda>(ps, s). length s)")
  show "wf (measure (\<lambda>(ps, s). length s))" by simp
next
  fix ps :: "string list" and s p :: string
  assume "find (\<lambda>p. p \<noteq> [] \<and> prefix p s) ps = Some p"
  then have "p \<noteq> []" and "prefix p s" by (auto simp: find_Some_iff)
  then show "((ps, drop (length p) s), (ps, s)) \<in> measure (\<lambda>(ps, s). length s)"
    using prefix_length_le [of p s] by (cases p) auto
qed

declare strip_prefixes.simps [simp del]

text \<open>
  The UTF-8 encodings of the code points for which \<open>unicode.IsSpace\<close> holds: the ASCII spaces,
  U+0085, U+00A0, U+1680, U+2000 to U+200A, U+2028, U+2029, U+202F, U+205F and U+3000.
\<close>

definition space_runes :: "string list" where
  "space_runes =
     [[CHR 0x20], [CHR 0x0A], [CHR 0x0D], [CHR 0x09], [CHR 0x0B], [CHR 0x0C],
      [CHR 0xC2, CHR 0x85], [CHR 0xC2, CHR 0xA0], [CHR 0xE1, CHR 0x9A, CHR 0x80],
      [CHR 0xE2, CHR 0x80, CHR 0x80], [CHR 0xE2, CHR 0x80, CHR 0x81],
      [CHR 0xE2, CHR 0x80, CHR 0x82], [CHR 0xE2, CHR 0x80, CHR 0x83],
      [CHR 0xE2, CHR 0x80, CHR 0x84], [CHR 0xE2, CHR 0x80, CHR 0x85],
      [CHR 0xE2, CHR 0x80, CHR 0x86], [CHR 0xE2, CHR 0x80, CHR 0x87],
      [CHR 0xE2, CHR 0x80, CHR 0x88], [CHR 0xE2, CHR 0x80, CHR 0x89],
      [CHR 0xE2, CHR 0x80, CHR 0x8A], [CHR 0xE2, CHR 0x80, CHR 0xA8],
      [CHR 0xE2, CHR 0x80, CHR 0xA9], [CHR 0xE2, CHR 0x80, CHR 0xAF],
      [CHR 0xE2, CHR 0x81, CHR 0x9F], [CHR 0xE3, CHR 0x80, CHR 0x80]]"

definition trim_left_space :: "string \<Rightarrow> string" where
  "trim_left_space s = strip_prefixes space_runes s"

definition trim_right_space :: "string \<Rightarrow> string" where
  "trim_right_space s = rev (strip_prefixes (map rev space_runes) (rev s))"

definition TrimSpace :: "string \<Rightarrow> string" where
  "TrimSpace s = trim_right_space (trim_left_space s)"

text \<open>\<open>strings.TrimRight(s, "/")\<close> and its kin with a cutset of single bytes.\<close>

definition TrimRight :: "string \<Rightarrow> string \<Rightarrow> string" where
  "TrimRight s cutset = rev (dropWhile (\<lambda>c. c \<in> set cutset) (rev s))"

definition TrimLeft :: "string \<Rightarrow> string \<Rightarrow> string" where
  "TrimLeft s cutset = dropWhile (\<lambda>c. c \<in> set cutset) s"

definition HasPrefix :: "string \<Rightarrow> string \<Rightarrow> bool" where
  "HasPrefix s p = (take (length p) s = p)"

subsection \<open>Searching\<close>

text \<open>\<open>strings.LastIndex\<close> for the last position where a predicate of the remaining bytes holds;
  \<open>None\<close> is Go's \<open>-1\<close>.\<close>

fun last_index_at :: "(string \<Rightarrow> bool) \<Rightarrow> string \<Rightarrow> nat option" where
  "last_index_at P [] = None"
| "last_index_at P (c # cs) =
     (case last_index_at P cs of
        Some i \<Rightarrow> Some (Suc i)
      | None \<Rightarrow> if P (c # cs) then Some 0 else None)"

definition LastIndex :: "string \<Rightarrow> string \<Rightarrow> nat option" where
  "LastIndex s sub = last_index_at (\<lambda>t. HasPrefix t sub) s"

definition LastIndexAny :: "string \<Rightarrow> string \<Rightarrow> nat option" where
  "LastIndexAny s chars = last_index_at (\<lambda>t. t \<noteq> [] \<and> hd t \<in> set chars) s"

fun IndexByte :: "string \<Rightarrow> char \<Rightarrow> nat option" where
  "IndexByte [] c = None"
| "IndexByte (x # xs) c = (if x = c then Some 0 else map_option Suc (IndexByte xs c))"

subsection \<open>Decimal printing\<close>

definition digit_char :: "nat \<Rightarrow> char" where
  "digit_char d = char_of (48 + d :: nat)"

fun Itoa :: "nat \<Rightarrow> string" where
  "Itoa n = (if n < 10 then [digit_char n] else Itoa (n div 10) @ [digit_char (n mod 10)])"

declare Itoa.simps [simp del]

definition FormatInt :: "int \<Rightarrow> string" where
  "FormatInt i = (if i < 0 then ''-'' @ Itoa (nat (- i)) else Itoa (nat i))"

subsection \<open>UTF-8 rune starts\<close>

text \<open>\<open>utf8.RuneStart(b)\<close>: \<open>b & 0xC0 != 0x80\<close>, that is, the two top bits are not \<open>10\<close>.\<close>

definition RuneStart :: "char \<Rightarrow> bool" where
  "RuneStart c = ((of_char c :: nat) div 64 \<noteq> 2)"

subsection \<open>URL path segments\<close>

text \<open>
  \<open>url.PathEscape\<close>: letters, digits and \<open>-_.~$&+=:@\<close> are kept, every other byte becomes
  a percent sign and two upper-case hexadecimal digits.
\<close>

definition hex_digit :: "nat \<Rightarrow> char" where
  "hex_digit d = (if d < 10 then char_of (48 + d :: nat) else char_of (55 + d :: nat))"

definition is_alnum :: "char \<Rightarrow> bool" where
  "is_alnum c = (CHR ''A'' \<le> c \<and> c \<le> CHR ''Z'' \<or> CHR ''a'' \<le> c \<and> c \<le> CHR ''z''
                 \<or> CHR ''0'' \<le> c \<and> c \<le> CHR ''9'')"

definition path_unreserved :: "char \<Rightarrow> bool" where
  "path_unreserved c = (is_alnum c \<or> c \<in> set ''-_.~$&+=:@'')"

definition escape_byte :: "char \<Rightarrow> string" where
  "escape_byte c =
     (if path_unreserved c then [c]
      else [CHR ''%'', hex_digit ((of_char c :: nat) div 16), hex_digit ((of_char c :: nat) mod 16)])"

definition PathEscape :: "string \<Rightarrow> string" where
  "PathEscape s = concat (map escape_byte s)"

subsection \<open>URL queries\<close>

definition query_unreserved :: "char \<Rightarrow> bool" where
  "query_unreserved c = (is_alnum c \<or> c \<in> set ''-_.~'')"

definition QueryEscape :: "string \<Rightarrow> string" where
  "QueryEscape s = concat (map (\<lambda>c. if query_unreserved c then [c] else if c = CHR '' '' then ''+''
     else [CHR ''%'', hex_digit ((of_char c :: nat) div 16), hex_digit ((of_char c :: nat) mod 16)]) s)"

text \<open>\<open>url.Values.Encode\<close> on pairs given in the order of their keys.\<close>

fun encode_values :: "(string \<times> string) list \<Rightarrow> string" where
  "encode_values [] = []"
| "encode_values [(k, v)] = QueryEscape k @ ''='' @ QueryEscape v"
| "encode_values ((k, v) # kvs) = QueryEscape k @ ''='' @ QueryEscape v @ ''&'' @ encode_values kvs"

subsection \<open>Quoting\<close>

definition lower_hex :: "nat \<Rightarrow> char" where
  "lower_hex d = (if d < 10 then char_of (48 + d :: nat) else char_of (87 + d :: nat))"

text \<open>
  The verb \<open>%q\<close>: quotes and backslashes get a backslash, control characters become escapes. Bytes above
  0x7F are kept, as \<open>%q\<close> does for the encodings of printable runes; only diagnostics are quoted.
\<close>

definition quote_byte :: "char \<Rightarrow> string" where
  "quote_byte c =
     (case map_of (zip [CHR 0x22, CHR 0x5C, CHR 0x07, CHR 0x08, CHR 0x0C, CHR 0x0A, CHR 0x0D, CHR 0x09, CHR 0x0B]
                    [CHR 0x22, CHR 0x5C, CHR ''a'', CHR ''b'', CHR ''f'', CHR ''n'', CHR ''r'', CHR ''t'', CHR ''v'']) c of
        Some e \<Rightarrow> [CHR 0x5C, e]
      | None \<Rightarrow>
          if (of_char c :: nat) < 32 \<or> c = CHR 0x7F
          then [CHR 0x5C, CHR ''x'', lower_hex (of_char c div 16), lower_hex (of_char c mod 16)]
          else [c])"

definition quoted :: "string \<Rightarrow> string" where
  "quoted s = [CHR 0x22] @ concat (map quote_byte s) @ [CHR 0x22]"

subsection \<open>gRPC statuses\<close>

text \<open>The status codes the services return, and a status as a code with its message.\<close>

datatype grpc_code = Canceled | InvalidArgument | DeadlineExceeded | NotFound | ResourceExhausted
  | FailedPrecondition | Internal | Unavailable | Unauthenticated

datatype rpc_status = Status (status_code: grpc_code) (status_msg: string)

subsection \<open>Protobuf timestamps\<close>

record pb_timestamp =
  ts_Seconds :: int
  ts_Nanos :: int

subsection \<open>Facts on trimming\<close>

lemma strip_prefixes_suffix: "suffix (strip_prefixes ps s) s"
proof (induction ps s rule: strip_prefixes.induct)
  case (1 ps s)
  show ?case
  proof (cases "find (\<lambda>p. p \<noteq> [] \<and> prefix p s) ps")
    case None
    then show ?thesis by (simp add: strip_prefixes.simps [of ps s])
  next
    case (Some p)
    from "1.IH" [OF Some] have "suffix (strip_prefixes ps (drop (length p) s)) (drop (length p) s)" .
    then have "suffix (strip_prefixes ps (drop (length p) s)) s"
      using suffix_drop suffix_order.trans by blast
    with Some show ?thesis by (simp add: strip_prefixes.simps [of ps s])
  qed
qed

text \<open>What remains starts with none of the tokens.\<close>

lemma strip_prefixes_free:
  "p \<in> set ps \<Longrightarrow> p \<noteq> [] \<Longrightarrow> \<not> prefix p (strip_prefixes ps s)"
proof (induction ps s rule: strip_prefixes.induct)
  case (1 ps s)
  show ?case
  proof (cases "find (\<lambda>p. p \<noteq> [] \<and> prefix p s) ps")
    case None
    then have "\<forall>q \<in> set ps. \<not> (q \<noteq> [] \<and> prefix q s)" by (auto simp: find_None_iff)
    with "1.prems" None show ?thesis by (auto simp: strip_prefixes.simps [of ps s])
  next
    case (Some q)
    from "1.IH" [OF Some "1.prems"] Some show ?thesis by (simp add: strip_prefixes.simps [of ps s])
  qed
qed

lemma strip_prefixes_id:
  assumes "\<And>p. p \<in> set ps \<Longrightarrow> p \<noteq> [] \<Longrightarrow> \<not> prefix p s"
  shows "strip_prefixes ps s = s"
proof -
  from assms have "find (\<lambda>p. p \<noteq> [] \<and> prefix p s) ps = None" by (auto simp: find_None_iff)
  then show ?thesis by (simp add: strip_prefixes.simps [of ps s])
qed

lemma strip_prefixes_idem [simp]: "strip_prefixes ps (strip_prefixes ps s) = strip_prefixes ps s"
  by (rule strip_prefixes_id) (rule strip_prefixes_free)

lemma trim_right_prefix: "prefix (trim_right_space s) s"
proof -
  have "suffix (strip_prefixes (map rev space_runes) (rev s)) (rev s)" by (rule strip_prefixes_suffix)
  then show ?thesis by (metis rev_rev_ident suffix_to_prefix trim_right_space_def)
qed

lemma trim_left_suffix: "suffix (trim_left_space s) s"
  by (simp add: trim_left_space_def strip_prefixes_suffix)

lemma trim_left_of_trim [simp]: "trim_left_space (TrimSpace s) = TrimSpace s"
  unfolding trim_left_space_def
proof (rule strip_prefixes_id)
  fix p assume p: "p \<in> set space_runes" "p \<noteq> []"
  show "\<not> prefix p (TrimSpace s)"
  proof
    assume "prefix p (TrimSpace s)"
    then have "prefix p (trim_left_space s)"
      unfolding TrimSpace_def using trim_right_prefix prefix_order.trans by blast
    with p show False by (simp add: trim_left_space_def strip_prefixes_free)
  qed
qed

lemma trim_right_idem [simp]: "trim_right_space (trim_right_space s) = trim_right_space s"
  by (simp add: trim_right_space_def)

lemma TrimSpace_idem [simp]: "TrimSpace (TrimSpace s) = TrimSpace s"
  by (metis TrimSpace_def trim_left_of_trim trim_right_idem)

lemma TrimSpace_infix: "\<exists>l r. s = l @ TrimSpace s @ r"
proof -
  obtain l where l: "s = l @ trim_left_space s" using trim_left_suffix by (auto simp: suffix_def)
  obtain r where r: "trim_left_space s = TrimSpace s @ r"
    unfolding TrimSpace_def using trim_right_prefix by (auto simp: prefix_def)
  from l r show ?thesis by metis
qed

lemma TrimSpace_length: "length (TrimSpace s) \<le> length s"
  using TrimSpace_infix [of s] by (metis le_add1 le_add2 le_trans length_append)

lemma HasPrefix_iff: "HasPrefix s p \<longleftrightarrow> prefix p s"
  by (auto simp: HasPrefix_def prefix_def) (metis append_take_drop_id)

lemma TrimRight_not_last: "TrimRight s cs \<noteq> [] \<Longrightarrow> last (TrimRight s cs) \<notin> set cs"
  using hd_dropWhile [of "\<lambda>c. c \<in> set cs" "rev s"] by (auto simp: TrimRight_def last_rev)

subsection \<open>Facts on searching\<close>

lemma last_index_at_Some:
  "last_index_at P s = Some i \<Longrightarrow> i < length s \<and> P (drop i s)"
  by (induction s arbitrary: i) (auto split: option.splits if_splits)

lemma last_index_at_None: "last_index_at P s = None \<Longrightarrow> i < length s \<Longrightarrow> \<not> P (drop i s)"
proof (induction s arbitrary: i)
  case (Cons c cs)
  then show ?case by (cases i) (auto split: option.splits if_splits)
qed simp

lemma last_index_at_last:
  "last_index_at P s = Some i \<Longrightarrow> i < j \<Longrightarrow> j < length s \<Longrightarrow> \<not> P (drop j s)"
proof (induction s arbitrary: i j)
  case (Cons c cs)
  then show ?case
    by (cases j) (auto split: option.splits if_splits dest: last_index_at_None)
qed simp

lemma LastIndex_Some:
  "LastIndex s sub = Some i \<Longrightarrow> i + length sub \<le> length s \<and> take (length sub) (drop i s) = sub"
proof -
  assume "LastIndex s sub = Some i"
  then have "i < length s \<and> HasPrefix (drop i s) sub"
    unfolding LastIndex_def by (rule last_index_at_Some)
  then have *: "i < length s" "take (length sub) (drop i s) = sub" by (auto simp: HasPrefix_def)
  from *(2) have "length sub \<le> length (drop i s)" by (metis length_take min.cobounded1)
  with * show ?thesis by simp
qed

lemma IndexByte_Some:
  "IndexByte s c = Some i \<Longrightarrow> i < length s \<and> s ! i = c \<and> c \<notin> set (take i s)"
  by (induction s arbitrary: i) (auto split: if_splits)

lemma IndexByte_None: "IndexByte s c = None \<longleftrightarrow> c \<notin> set s"
  by (induction s) auto

subsection \<open>Facts on decimal printing\<close>

lemma digit_char_inj: "a < 10 \<Longrightarrow> b < 10 \<Longrightarrow> digit_char a = digit_char b \<Longrightarrow> a = b"
proof -
  assume "a < 10" "b < 10" "digit_char a = digit_char b"
  then have "(of_char (digit_char a) :: nat) = of_char (digit_char b)" by simp
  with \<open>a < 10\<close> \<open>b < 10\<close> show "a = b" by (simp add: digit_char_def)
qed

lemma Itoa_nonempty [simp]: "Itoa n \<noteq> []"
  by (subst Itoa.simps) simp

lemma Nil_neq_Itoa [simp]: "[] \<noteq> Itoa n"
  by (metis Itoa_nonempty)

lemma Itoa_inj: "Itoa m = Itoa n \<Longrightarrow> m = n"
proof (induction m arbitrary: n rule: Itoa.induct)
  case (1 m)
  show ?case
  proof (cases "m < 10")
    case True
    with "1.prems" show ?thesis
      by (cases "n < 10") (auto simp: Itoa.simps [of m] Itoa.simps [of n] intro: digit_char_inj)
  next
    case False
    with "1.prems" have n: "\<not> n < 10" by (auto simp: Itoa.simps [of m] Itoa.simps [of n])
    with "1.prems" False have "Itoa (m div 10) = Itoa (n div 10)"
      and "digit_char (m mod 10) = digit_char (n mod 10)"
      by (auto simp: Itoa.simps [of m] Itoa.simps [of n])
    with "1.IH" False have "m div 10 = n div 10" and "m mod 10 = n mod 10"
      by (auto intro: digit_char_inj)
    then show ?thesis by (metis div_mult_mod_eq)
  qed
qed

lemma inj_Itoa: "inj Itoa"
  by (rule injI) (rule Itoa_inj)

subsection \<open>Facts on path escaping\<close>

lemma hex_digit_inj: "a < 16 \<Longrightarrow> b < 16 \<Longrightarrow> hex_digit a = hex_digit b \<Longrightarrow> a = b"
proof -
  assume "a < 16" "b < 16" "hex_digit a = hex_digit b"
  then have "(of_char (hex_digit a) :: nat) = of_char (hex_digit b)" by simp
  with \<open>a < 16\<close> \<open>b < 16\<close> show "a = b" by (simp add: hex_digit_def split: if_splits)
qed

lemma percent_reserved [simp]: "\<not> path_unreserved CHR ''%''"
  by (simp add: path_unreserved_def is_alnum_def less_eq_char_def)

lemma slash_reserved [simp]: "\<not> path_unreserved CHR ''/''"
  by (simp add: path_unreserved_def is_alnum_def less_eq_char_def)

lemma of_char_less [simp]: "(of_char c :: nat) < 256"
  by (metis nat_of_char_less_256)

lemma escape_byte_append_inj:
  assumes "escape_byte c @ s = escape_byte d @ t"
  shows "c = d \<and> s = t"
proof (cases "path_unreserved c"; cases "path_unreserved d")
  assume "\<not> path_unreserved c" "\<not> path_unreserved d"
  with assms have hex: "hex_digit ((of_char c :: nat) div 16) = hex_digit ((of_char d :: nat) div 16)"
      "hex_digit ((of_char c :: nat) mod 16) = hex_digit ((of_char d :: nat) mod 16)" and "s = t"
    by (auto simp: escape_byte_def)
  have small: "(of_char x :: nat) div 16 < 16" for x
    using of_char_less [of x] by (simp add: less_mult_imp_div_less)
  have "(of_char c :: nat) div 16 = of_char d div 16" by (rule hex_digit_inj [OF small small hex(1)])
  moreover have "(of_char c :: nat) mod 16 = of_char d mod 16" by (rule hex_digit_inj [OF _ _ hex(2)]) simp_all
  ultimately have "(of_char c :: nat) = of_char d" by (metis div_mult_mod_eq)
  with \<open>s = t\<close> show ?thesis by simp
qed (use assms in \<open>auto simp: escape_byte_def\<close>)

lemma escape_byte_nonempty [simp]: "escape_byte c \<noteq> []"
  by (simp add: escape_byte_def)

lemma PathEscape_inj: "PathEscape s = PathEscape t \<Longrightarrow> s = t"
proof (induction s arbitrary: t)
  case Nil
  then show ?case by (cases t) (auto simp: PathEscape_def)
next
  case (Cons c s)
  then obtain d t' where t: "t = d # t'" by (cases t) (auto simp: PathEscape_def)
  with Cons.prems have "c = d \<and> PathEscape s = PathEscape t'"
    by (intro escape_byte_append_inj) (simp add: PathEscape_def)
  with Cons.IH t show ?case by simp
qed

lemma hex_digit_not_slash: "d < 16 \<Longrightarrow> hex_digit d \<noteq> CHR ''/''"
proof
  assume "d < 16" "hex_digit d = CHR ''/''"
  then have "(of_char (hex_digit d) :: nat) = 47" by simp
  with \<open>d < 16\<close> show False by (simp add: hex_digit_def split: if_splits)
qed

lemma PathEscape_no_slash: "CHR ''/'' \<notin> set (PathEscape s)"
proof -
  have "CHR ''/'' \<notin> set (escape_byte c)" for c
  proof -
    have "(of_char c :: nat) div 16 < 16" using of_char_less [of c] by (simp add: less_mult_imp_div_less)
    from hex_digit_not_slash [OF this] hex_digit_not_slash [of "of_char c mod 16"]
    show ?thesis by (auto simp: escape_byte_def)
  qed
  then show ?thesis by (auto simp: PathEscape_def)
qed

lemma PathEscape_unreserved: "list_all path_unreserved s \<Longrightarrow> PathEscape s = s"
  by (induction s) (auto simp: PathEscape_def escape_byte_def)

text \<open>Two strings that hold no separator are determined by their join.\<close>

lemma sep_append_inj:
  assumes "x \<notin> set a" "x \<notin> set a'" "a @ x # b = a' @ x # b'"
  shows "a = a' \<and> b = b'"
  using assms
proof (induction a arbitrary: a')
  case Nil
  then show ?case by (cases a') auto
next
  case (Cons c a)
  then show ?case by (cases a') auto
qed

end
