(* ===== verification/Tenancy.thy ===== *)
theory Tenancy
  imports Go_Lib
begin

text \<open>
  The tenancy library (\<open>platform/tenancy\<close>) and its gRPC interceptors
  (\<open>platform/tenancy/tenancygrpc\<close>, and \<open>tenantInterceptorSkipping\<close> of the control plane): how a
  tenant identity is derived from verified claims, carried in a request context, put on the wire
  and re-validated at the next service.
\<close>

section \<open>The model\<close>

subsection \<open>Identities\<close>

record tenancy_context =
  tenantID :: tenant_id
  subject :: string

datatype tenancy_error = ErrNoTenant | ErrInvalidTenant string

text \<open>A claim value is a string or some other JSON value, for which the type assertion fails.\<close>

datatype claim_value = ClaimString string | ClaimOther

type_synonym claims = "string \<Rightarrow> claim_value option"

definition tenancy_err_text :: "tenancy_error \<Rightarrow> string" where
  "tenancy_err_text e =
     (case e of
        ErrNoTenant \<Rightarrow> ''tenancy: no tenant in context or claims''
      | ErrInvalidTenant what \<Rightarrow> ''tenancy: invalid tenant claim: '' @ what)"

definition tenant_char :: "char \<Rightarrow> bool" where
  "tenant_char c = (is_alnum c \<or> c = CHR ''.'' \<or> c = CHR ''_'' \<or> c = CHR ''-'')"

definition tenantPattern :: "string \<Rightarrow> bool" where
  "tenantPattern s = (1 \<le> length s \<and> length s \<le> 128 \<and> list_all tenant_char s)"

definition validTenant :: "string \<Rightarrow> bool" where
  "validTenant s = (if s = ''.'' \<or> s = ''..'' then False else tenantPattern s)"

definition stringClaim :: "claim_value \<Rightarrow> string option" where
  "stringClaim v =
     (case v of
        ClaimOther \<Rightarrow> None
      | ClaimString raw \<Rightarrow> (let s = TrimSpace raw in if s = [] then None else Some s))"

definition FromClaims :: "claims \<Rightarrow> tenancy_error + tenancy_context" where
  "FromClaims cl =
     (let tenantRaw = cl ''tenant_id''; subRaw = cl ''sub'' in
      if tenantRaw = None \<and> subRaw = None then Inl ErrNoTenant
      else
        let (tenantClaim, tenantVal) =
              (case tenantRaw of
                 Some v \<Rightarrow> (''tenant_id'', v)
               | None \<Rightarrow> (''sub'', case subRaw of Some v \<Rightarrow> v | None \<Rightarrow> ClaimOther)) in
        case stringClaim tenantVal of
          None \<Rightarrow> Inl (ErrInvalidTenant (quoted tenantClaim))
        | Some tenant \<Rightarrow>
            if \<not> validTenant tenant then Inl (ErrInvalidTenant (quoted tenantClaim))
            else
              let subj = (case subRaw of
                            None \<Rightarrow> tenant
                          | Some v \<Rightarrow> (case stringClaim v of None \<Rightarrow> tenant | Some s \<Rightarrow> s))
              in Inr \<lparr>tenantID = tenant, subject = subj\<rparr>)"

definition HeaderValue :: "tenancy_context \<Rightarrow> string" where
  "HeaderValue tc = tenantID tc"

definition FromHeaderValue :: "string \<Rightarrow> tenancy_error + tenancy_context" where
  "FromHeaderValue v =
     (if \<not> validTenant v then Inl (ErrInvalidTenant ''header value'')
      else Inr \<lparr>tenantID = v, subject = v\<rparr>)"

subsection \<open>Request contexts\<close>

text \<open>
  What the modelled code reads from and writes to a \<open>context.Context\<close>: the value under
  \<open>tenancy.ctxKey\<close>, the incoming gRPC metadata (absent when the call carries none) and the
  outgoing metadata pairs.
\<close>

record go_ctx =
  cx_tenant :: "tenancy_context option"
  cx_incoming :: "(string \<Rightarrow> string list) option"
  cx_outgoing :: "(string \<times> string) list"

definition WithContext :: "go_ctx \<Rightarrow> tenancy_context \<Rightarrow> go_ctx" where
  "WithContext ctx tc = ctx\<lparr>cx_tenant := Some tc\<rparr>"

definition FromContext :: "go_ctx \<Rightarrow> tenancy_error + tenancy_context" where
  "FromContext ctx =
     (case cx_tenant ctx of
        None \<Rightarrow> Inl ErrNoTenant
      | Some tc \<Rightarrow> if tenantID tc = [] then Inl ErrNoTenant else Inr tc)"

subsection \<open>Interceptors\<close>

text \<open>A unary handler or invoker: a request context, a request and the service's state.\<close>

type_synonym ('q, 's, 'r) rpc_handler = "go_ctx \<Rightarrow> 'q \<Rightarrow> 's \<Rightarrow> (rpc_status + 'r) \<times> 's"

definition MetadataKey :: string where
  "MetadataKey = ''x-asker-tenant''"

definition UnaryClientInterceptor :: "string \<Rightarrow> ('q, 's, 'r) rpc_handler \<Rightarrow> ('q, 's, 'r) rpc_handler" where
  "UnaryClientInterceptor fullMethod invoker ctx req st =
     (case FromContext ctx of
        Inl e \<Rightarrow> (Inl (Status FailedPrecondition
           (''tenancygrpc: refusing tenant-less call to '' @ fullMethod @ '': '' @ tenancy_err_text e)), st)
      | Inr tc \<Rightarrow> invoker (ctx\<lparr>cx_outgoing := cx_outgoing ctx @ [(MetadataKey, HeaderValue tc)]\<rparr>) req st)"

definition UnaryServerInterceptor :: "string \<Rightarrow> ('q, 's, 'r) rpc_handler \<Rightarrow> ('q, 's, 'r) rpc_handler" where
  "UnaryServerInterceptor fullMethod handler ctx req st =
     (case cx_incoming ctx of
        None \<Rightarrow> (Inl (Status Unauthenticated (''tenancygrpc: missing metadata on '' @ fullMethod)), st)
      | Some md \<Rightarrow>
          (case md MetadataKey of
             [] \<Rightarrow> (Inl (Status Unauthenticated
                     (''tenancygrpc: missing '' @ MetadataKey @ '' metadata on '' @ fullMethod)), st)
           | [v] \<Rightarrow>
               (case FromHeaderValue v of
                  Inl _ \<Rightarrow> (Inl (Status Unauthenticated
                     (''tenancygrpc: invalid '' @ MetadataKey @ '' metadata on '' @ fullMethod)), st)
                | Inr tc \<Rightarrow> handler (WithContext ctx tc) req st)
           | v # w # vs \<Rightarrow>
               (Inl (Status Unauthenticated
                  (''tenancygrpc: '' @ Itoa (length (v # w # vs)) @ '' '' @ MetadataKey
                   @ '' metadata values on '' @ fullMethod @ '', want exactly 1'')), st)))"

definition tenantInterceptorSkipping ::
  "string list \<Rightarrow> string \<Rightarrow> ('q, 's, 'r) rpc_handler \<Rightarrow> ('q, 's, 'r) rpc_handler" where
  "tenantInterceptorSkipping exempt fullMethod handler ctx req st =
     (if fullMethod \<in> set exempt then handler ctx req st
      else UnaryServerInterceptor fullMethod handler ctx req st)"

text \<open>
  The wire between two services: the outgoing pairs of the client context become the incoming
  metadata of the server context, grouped by key; request-scoped values do not cross it.
\<close>

definition wire :: "go_ctx \<Rightarrow> go_ctx" where
  "wire ctx = \<lparr>cx_tenant = None,
     cx_incoming = Some (\<lambda>k. map snd (filter (\<lambda>p. fst p = k) (cx_outgoing ctx))), cx_outgoing = []\<rparr>"

section \<open>Facts\<close>

named_theorems tenancy \<open>what a valid identity satisfies\<close>

lemma validTenant_chars: "validTenant t \<Longrightarrow> list_all tenant_char t"
  by (auto simp: validTenant_def tenantPattern_def split: if_splits)

lemma validTenant_nonempty [tenancy]: "validTenant t \<Longrightarrow> t \<noteq> []"
  by (auto simp: validTenant_def tenantPattern_def split: if_splits)

lemma validTenant_Nil [simp]: "\<not> validTenant []"
  using validTenant_nonempty by blast

lemma validTenant_length [tenancy]: "validTenant t \<Longrightarrow> length t \<le> 128"
  by (auto simp: validTenant_def tenantPattern_def split: if_splits)

lemma tenant_char_unreserved: "tenant_char c \<Longrightarrow> path_unreserved c"
  by (auto simp: tenant_char_def path_unreserved_def)

lemma validTenant_PathEscape [tenancy]: "validTenant t \<Longrightarrow> PathEscape t = t"
  by (rule PathEscape_unreserved)
    (use validTenant_chars tenant_char_unreserved in \<open>auto simp: list_all_iff\<close>)

lemma tenant_char_separators:
  "tenant_char c \<Longrightarrow> c \<notin> set '':/*?[]''"
  by (auto simp: tenant_char_def is_alnum_def less_eq_char_def)

lemma validTenant_separators [tenancy]:
  "validTenant t \<Longrightarrow> set t \<inter> set '':/*?[]'' = {}"
  using validTenant_chars tenant_char_separators by (fastforce simp: list_all_iff)

lemma FromHeaderValue_Inr [simp]:
  "FromHeaderValue v = Inr tc \<longleftrightarrow> validTenant v \<and> tc = \<lparr>tenantID = v, subject = v\<rparr>"
  by (auto simp: FromHeaderValue_def)

lemma FromHeaderValue_Inl: "(\<exists>e. FromHeaderValue v = Inl e) \<longleftrightarrow> \<not> validTenant v"
  by (auto simp: FromHeaderValue_def)

lemma FromContext_WithContext [simp]:
  "tenantID tc \<noteq> [] \<Longrightarrow> FromContext (WithContext ctx tc) = Inr tc"
  by (simp add: FromContext_def WithContext_def)

lemma FromContext_Inr: "FromContext ctx = Inr tc \<longleftrightarrow> cx_tenant ctx = Some tc \<and> tenantID tc \<noteq> []"
  by (auto simp: FromContext_def split: option.splits)

lemma stringClaim_Some: "stringClaim v = Some s \<longleftrightarrow> (\<exists>raw. v = ClaimString raw \<and> s = TrimSpace raw \<and> s \<noteq> [])"
  by (auto simp: stringClaim_def Let_def split: claim_value.splits)

lemma FromClaims_valid: "FromClaims cl = Inr tc \<Longrightarrow> validTenant (tenantID tc)"
  by (auto simp: FromClaims_def Let_def split: if_splits option.splits)

section \<open>Properties\<close>

text \<open>
  C13: \<open>FromClaims\<close> succeeds exactly when the claim it has to use, which is \<open>tenant_id\<close> whenever that
  claim is present and \<open>sub\<close> otherwise, is a string that is a well-formed tenant after
  trimming; the identity is then that trimmed value. A present but unusable \<open>tenant_id\<close> never
  falls back to \<open>sub\<close>.
\<close>

theorem FromClaims_iff:
  "(\<exists>tc. FromClaims cl = Inr tc \<and> tenantID tc = t) \<longleftrightarrow>
     (\<exists>raw. (if cl ''tenant_id'' = None then cl ''sub'' else cl ''tenant_id'') = Some (ClaimString raw)
            \<and> t = TrimSpace raw \<and> validTenant t)"
  by (cases "cl ''tenant_id''"; cases "cl ''sub''")
    (auto simp: FromClaims_def stringClaim_def Let_def split: option.splits claim_value.splits if_splits)



text \<open>
  C15: The server interceptor fails closed. A method that is not exempt runs its handler exactly
  when the call carries one tenant value and that value is well formed; in every other case the
  call is answered \<open>Unauthenticated\<close> and the service's state is unchanged.
\<close>

theorem interceptor_fails_closed:
  "m \<notin> set exempt \<Longrightarrow>
     (case cx_incoming ctx of
        Some md \<Rightarrow>
          (if \<exists>v. md MetadataKey = [v] \<and> validTenant v
           then tenantInterceptorSkipping exempt m h ctx req st =
                  h (WithContext ctx \<lparr>tenantID = hd (md MetadataKey), subject = hd (md MetadataKey)\<rparr>) req st
           else \<exists>msg. tenantInterceptorSkipping exempt m h ctx req st = (Inl (Status Unauthenticated msg), st))
      | None \<Rightarrow> \<exists>msg. tenantInterceptorSkipping exempt m h ctx req st = (Inl (Status Unauthenticated msg), st))"
  by (auto simp: tenantInterceptorSkipping_def UnaryServerInterceptor_def FromHeaderValue_def
      split: option.splits list.splits)

theorem interceptor_fails_closed_witness:
  "tenantInterceptorSkipping [''/asker.controlplane.v1.SchedulerService/ListAllInstances''] ''/x''
     (\<lambda>c q s. (Inr (), s + 1)) \<lparr>cx_tenant = None, cx_incoming = Some (\<lambda>_. [''a'', ''b'']), cx_outgoing = []\<rparr>
     () (0::nat)
   = (Inl (Status Unauthenticated ''tenancygrpc: 2 x-asker-tenant metadata values on /x, want exactly 1''), 0)"
proof -
  have "''/x'' \<notin> set [''/asker.controlplane.v1.SchedulerService/ListAllInstances'']" by simp
  from interceptor_fails_closed [OF this,
      where ctx = "\<lparr>cx_tenant = None, cx_incoming = Some (\<lambda>_. [''a'', ''b'']), cx_outgoing = []\<rparr>"
        and h = "\<lambda>c q s. (Inr (), s + 1)" and req = "()" and st = "0::nat"]
  show ?thesis by (simp add: tenantInterceptorSkipping_def UnaryServerInterceptor_def MetadataKey_def
        Itoa.simps digit_char_def char_of_def bit_0)
qed

end
