(* ===== verification/Control_Store.thy ===== *)
theory Control_Store
  imports Tenancy
begin

text \<open>
  The control plane's persistence boundary (\<open>services/control-plane/store.go\<close>) and its in-memory
  implementation (\<open>store_mem.go\<close>). The interface \<open>Store\<close> is a record of operations, as the Go
  interface is a method table; \<open>memStore\<close> fills it in. Every operation runs under the store's mutex,
  so one operation is one atomic state transformer.
\<close>

section \<open>Data\<close>

type_synonym int64 = "64 word"

datatype store_error = ErrNotFound | ErrQuotaExceeded | CtxCanceled | CtxDeadline | ErrOther string

record Tenant =
  tn_ID :: tenant_id
  tn_CreatedAt :: time

record PurgeCounts =
  pc_ConnectorInstances :: nat
  pc_Tokens :: nat

record TenantUsage =
  tu_TenantID :: tenant_id
  tu_CreatedAt :: time
  tu_ConnectorInstances :: nat
  tu_DocsEmitted :: int64
  tu_Suspended :: bool

record ConnectorInstance =
  ci_ID :: string
  ci_TenantID :: tenant_id
  ci_ConnectorID :: string
  ci_DisplayName :: string
  ci_ConfigJSON :: bytes
  ci_Status :: string
  ci_CreatedAt :: time
  ci_UpdatedAt :: time

record SyncState =
  ss_InstanceID :: string
  ss_TenantID :: tenant_id
  ss_Cursor :: string
  ss_Phase :: string
  ss_LastSyncStarted :: "time option"
  ss_LastSyncCompleted :: "time option"
  ss_LastError :: string
  ss_DocsEmitted :: int64

record UserPreferences =
  up_ProfileJSON :: string
  up_Version :: int64
  up_Exists :: bool

record LearnedWeights =
  lw_WeightsJSON :: string
  lw_SampleCount :: int64
  lw_Exists :: bool

record FeedbackEvent =
  fe_DocID :: string
  fe_DocType :: string
  fe_ConnectorID :: string
  fe_Action :: string
  fe_DwellMs :: int64
  fe_Query :: string

definition no_prefs :: UserPreferences where
  "no_prefs = \<lparr>up_ProfileJSON = [], up_Version = 0, up_Exists = False\<rparr>"

definition no_weights :: LearnedWeights where
  "no_weights = \<lparr>lw_WeightsJSON = [], lw_SampleCount = 0, lw_Exists = False\<rparr>"

text \<open>
  What a call reads from its surroundings: \<open>ctx.Err()\<close> on entry, the successive readings of
  \<open>time.Now()\<close> it makes, and the value \<open>uuid.NewString()\<close> returns if it is called.
\<close>

record call_env =
  env_err :: "store_error option"
  env_now :: "nat \<Rightarrow> time"
  env_uuid :: string

type_synonym weights_update = "string \<Rightarrow> int64 \<Rightarrow> store_error + string \<times> int64"

text \<open>The interface. Each method takes the call's surroundings and the tenant explicitly.\<close>

record 's Store =
  EnsureTenant :: "call_env \<Rightarrow> tenant_id \<Rightarrow> 's \<Rightarrow> (store_error + Tenant) \<times> 's"
  CreateConnectorInstance ::
    "call_env \<Rightarrow> ConnectorInstance \<Rightarrow> int \<Rightarrow> 's \<Rightarrow> (store_error + ConnectorInstance) \<times> 's"
  ListConnectorInstances :: "call_env \<Rightarrow> tenant_id \<Rightarrow> 's \<Rightarrow> (store_error + ConnectorInstance list) \<times> 's"
  GetConnectorInstance ::
    "call_env \<Rightarrow> tenant_id \<Rightarrow> string \<Rightarrow> 's \<Rightarrow> (store_error + ConnectorInstance) \<times> 's"
  DeleteConnectorInstance :: "call_env \<Rightarrow> tenant_id \<Rightarrow> string \<Rightarrow> 's \<Rightarrow> (store_error + unit) \<times> 's"
  GetSyncState :: "call_env \<Rightarrow> tenant_id \<Rightarrow> string \<Rightarrow> 's \<Rightarrow> (store_error + SyncState) \<times> 's"
  SetSyncState :: "call_env \<Rightarrow> tenant_id \<Rightarrow> SyncState \<Rightarrow> 's \<Rightarrow> (store_error + SyncState) \<times> 's"
  PutToken :: "call_env \<Rightarrow> tenant_id \<Rightarrow> string \<Rightarrow> bytes \<Rightarrow> 's \<Rightarrow> (store_error + unit) \<times> 's"
  GetToken :: "call_env \<Rightarrow> tenant_id \<Rightarrow> string \<Rightarrow> 's \<Rightarrow> (store_error + bytes) \<times> 's"
  DeleteToken :: "call_env \<Rightarrow> tenant_id \<Rightarrow> string \<Rightarrow> 's \<Rightarrow> (store_error + unit) \<times> 's"
  ListAll :: "call_env \<Rightarrow> 's \<Rightarrow> (store_error + ConnectorInstance list) \<times> 's"
  CountConnectorInstances :: "call_env \<Rightarrow> tenant_id \<Rightarrow> 's \<Rightarrow> (store_error + nat) \<times> 's"
  PurgeTenant :: "call_env \<Rightarrow> tenant_id \<Rightarrow> 's \<Rightarrow> (store_error + PurgeCounts) \<times> 's"
  TenantResidue :: "call_env \<Rightarrow> tenant_id \<Rightarrow> 's \<Rightarrow> (store_error + bool) \<times> 's"
  ListTenants :: "call_env \<Rightarrow> string \<Rightarrow> int \<Rightarrow> 's \<Rightarrow> (store_error + TenantUsage list) \<times> 's"
  GetTenantUsage :: "call_env \<Rightarrow> tenant_id \<Rightarrow> 's \<Rightarrow> (store_error + TenantUsage) \<times> 's"
  SetTenantConnectorStatus :: "call_env \<Rightarrow> tenant_id \<Rightarrow> string \<Rightarrow> 's \<Rightarrow> (store_error + nat) \<times> 's"
  GetPersonalization ::
    "call_env \<Rightarrow> tenant_id \<Rightarrow> 's \<Rightarrow> (store_error + UserPreferences \<times> LearnedWeights) \<times> 's"
  PutPreferences :: "call_env \<Rightarrow> tenant_id \<Rightarrow> string \<Rightarrow> 's \<Rightarrow> (store_error + int64) \<times> 's"
  AppendFeedback :: "call_env \<Rightarrow> tenant_id \<Rightarrow> FeedbackEvent \<Rightarrow> 's \<Rightarrow> (store_error + unit) \<times> 's"
  UpdateLearnedWeights :: "call_env \<Rightarrow> tenant_id \<Rightarrow> weights_update \<Rightarrow> 's \<Rightarrow> (store_error + unit) \<times> 's"
  ResetLearning :: "call_env \<Rightarrow> tenant_id \<Rightarrow> 's \<Rightarrow> (store_error + nat) \<times> 's"

section \<open>The in-memory store\<close>

record memToken =
  mt_tenantID :: tenant_id
  mt_ciphertext :: bytes

record mem_store =
  ms_tenants :: "(tenant_id, time) table"
  ms_instances :: "(string, ConnectorInstance) table"
  ms_syncs :: "(string, SyncState) table"
  ms_tokens :: "(string, memToken) table"
  ms_prefs :: "(tenant_id, UserPreferences) table"
  ms_weights :: "(tenant_id, LearnedWeights) table"
  ms_feedback :: "(tenant_id, FeedbackEvent list) table"

definition newMemStore :: mem_store where
  "newMemStore = \<lparr>ms_tenants = [], ms_instances = [], ms_syncs = [], ms_tokens = [],
     ms_prefs = [], ms_weights = [], ms_feedback = []\<rparr>"

text \<open>Every method first returns \<open>ctx.Err()\<close> when the context is already done.\<close>

definition with_ctx :: "call_env \<Rightarrow> ('s \<Rightarrow> (store_error + 'a) \<times> 's) \<Rightarrow> 's \<Rightarrow> (store_error + 'a) \<times> 's" where
  "with_ctx env body m = (case env_err env of Some e \<Rightarrow> (Inl e, m) | None \<Rightarrow> body m)"

definition ownedInstance :: "mem_store \<Rightarrow> tenant_id \<Rightarrow> string \<Rightarrow> ConnectorInstance option" where
  "ownedInstance m t iid =
     (case tbl_get (ms_instances m) iid of
        None \<Rightarrow> None
      | Some inst \<Rightarrow> if ci_TenantID inst \<noteq> t then None else Some inst)"

definition cloneInstance :: "ConnectorInstance \<Rightarrow> ConnectorInstance" where
  "cloneInstance inst = inst\<lparr>ci_ConfigJSON := ci_ConfigJSON inst\<rparr>"

definition cloneSyncState :: "SyncState \<Rightarrow> SyncState" where
  "cloneSyncState st = st\<lparr>ss_LastSyncStarted := ss_LastSyncStarted st,
     ss_LastSyncCompleted := ss_LastSyncCompleted st\<rparr>"

text \<open>Registering a tenant that is absent, at the given clock reading.\<close>

definition register :: "tenant_id \<Rightarrow> time \<Rightarrow> mem_store \<Rightarrow> mem_store" where
  "register t now m =
     (if tbl_has t (ms_tenants m) then m else m\<lparr>ms_tenants := tbl_put t now (ms_tenants m)\<rparr>)"

definition memStore_EnsureTenant ::
  "call_env \<Rightarrow> tenant_id \<Rightarrow> mem_store \<Rightarrow> (store_error + Tenant) \<times> mem_store" where
  "memStore_EnsureTenant env t = with_ctx env (\<lambda>m.
     case tbl_get (ms_tenants m) t of
       Some created \<Rightarrow> (Inr \<lparr>tn_ID = t, tn_CreatedAt = created\<rparr>, m)
     | None \<Rightarrow> (Inr \<lparr>tn_ID = t, tn_CreatedAt = env_now env 0\<rparr>,
                m\<lparr>ms_tenants := tbl_put t (env_now env 0) (ms_tenants m)\<rparr>))"

definition owned_by :: "tenant_id \<Rightarrow> ConnectorInstance \<Rightarrow> bool" where
  "owned_by t inst = (ci_TenantID inst = t)"

definition memStore_CreateConnectorInstance ::
  "call_env \<Rightarrow> ConnectorInstance \<Rightarrow> int \<Rightarrow> mem_store \<Rightarrow> (store_error + ConnectorInstance) \<times> mem_store" where
  "memStore_CreateConnectorInstance env inst maxInstances = with_ctx env (\<lambda>m.
     if maxInstances > 0 \<and> int (tbl_count (owned_by (ci_TenantID inst)) (ms_instances m)) \<ge> maxInstances
     then (Inl ErrQuotaExceeded, m)
     else
       let registered = tbl_has (ci_TenantID inst) (ms_tenants m);
           m1 = register (ci_TenantID inst) (env_now env 0) m;
           now = env_now env (if registered then 0 else 1);
           inst' = inst\<lparr>ci_ID := env_uuid env, ci_CreatedAt := now, ci_UpdatedAt := now\<rparr>
       in (Inr (cloneInstance inst'),
           m1\<lparr>ms_instances := tbl_put (env_uuid env) inst' (ms_instances m1)\<rparr>))"

text \<open>\<open>slices.SortFunc\<close> by creation time, then ID. The IDs are distinct, so the order is total on
  the rows and every sorting algorithm returns the same list.\<close>

definition memStore_ListConnectorInstances ::
  "call_env \<Rightarrow> tenant_id \<Rightarrow> mem_store \<Rightarrow> (store_error + ConnectorInstance list) \<times> mem_store" where
  "memStore_ListConnectorInstances env t = with_ctx env (\<lambda>m.
     (Inr (sort_key (\<lambda>i. (ci_CreatedAt i, ci_ID i))
             (map cloneInstance (filter (owned_by t) (map snd (ms_instances m))))), m))"

definition memStore_GetConnectorInstance ::
  "call_env \<Rightarrow> tenant_id \<Rightarrow> string \<Rightarrow> mem_store \<Rightarrow> (store_error + ConnectorInstance) \<times> mem_store" where
  "memStore_GetConnectorInstance env t iid = with_ctx env (\<lambda>m.
     case ownedInstance m t iid of
       None \<Rightarrow> (Inl ErrNotFound, m)
     | Some inst \<Rightarrow> (Inr (cloneInstance inst), m))"

definition memStore_DeleteConnectorInstance ::
  "call_env \<Rightarrow> tenant_id \<Rightarrow> string \<Rightarrow> mem_store \<Rightarrow> (store_error + unit) \<times> mem_store" where
  "memStore_DeleteConnectorInstance env t iid = with_ctx env (\<lambda>m.
     case ownedInstance m t iid of
       None \<Rightarrow> (Inl ErrNotFound, m)
     | Some _ \<Rightarrow> (Inr (), m\<lparr>ms_instances := tbl_del iid (ms_instances m),
                           ms_syncs := tbl_del iid (ms_syncs m),
                           ms_tokens := tbl_del iid (ms_tokens m)\<rparr>))"

definition pending_state :: "tenant_id \<Rightarrow> string \<Rightarrow> SyncState" where
  "pending_state t iid = \<lparr>ss_InstanceID = iid, ss_TenantID = t, ss_Cursor = [], ss_Phase = ''PENDING'',
     ss_LastSyncStarted = None, ss_LastSyncCompleted = None, ss_LastError = [], ss_DocsEmitted = 0\<rparr>"

definition memStore_GetSyncState ::
  "call_env \<Rightarrow> tenant_id \<Rightarrow> string \<Rightarrow> mem_store \<Rightarrow> (store_error + SyncState) \<times> mem_store" where
  "memStore_GetSyncState env t iid = with_ctx env (\<lambda>m.
     case ownedInstance m t iid of
       None \<Rightarrow> (Inl ErrNotFound, m)
     | Some _ \<Rightarrow> (case tbl_get (ms_syncs m) iid of
                    None \<Rightarrow> (Inr (pending_state t iid), m)
                  | Some st \<Rightarrow> (Inr (cloneSyncState st), m)))"

definition memStore_SetSyncState ::
  "call_env \<Rightarrow> tenant_id \<Rightarrow> SyncState \<Rightarrow> mem_store \<Rightarrow> (store_error + SyncState) \<times> mem_store" where
  "memStore_SetSyncState env t st = with_ctx env (\<lambda>m.
     case ownedInstance m t (ss_InstanceID st) of
       None \<Rightarrow> (Inl ErrNotFound, m)
     | Some _ \<Rightarrow> (let st' = cloneSyncState (st\<lparr>ss_TenantID := t\<rparr>) in
                  (Inr (cloneSyncState st'), m\<lparr>ms_syncs := tbl_put (ss_InstanceID st') st' (ms_syncs m)\<rparr>)))"

definition memStore_PutToken ::
  "call_env \<Rightarrow> tenant_id \<Rightarrow> string \<Rightarrow> bytes \<Rightarrow> mem_store \<Rightarrow> (store_error + unit) \<times> mem_store" where
  "memStore_PutToken env t iid ciphertext = with_ctx env (\<lambda>m.
     case ownedInstance m t iid of
       None \<Rightarrow> (Inl ErrNotFound, m)
     | Some _ \<Rightarrow> (Inr (), m\<lparr>ms_tokens :=
           tbl_put iid \<lparr>mt_tenantID = t, mt_ciphertext = ciphertext\<rparr> (ms_tokens m)\<rparr>))"

definition memStore_GetToken ::
  "call_env \<Rightarrow> tenant_id \<Rightarrow> string \<Rightarrow> mem_store \<Rightarrow> (store_error + bytes) \<times> mem_store" where
  "memStore_GetToken env t iid = with_ctx env (\<lambda>m.
     case tbl_get (ms_tokens m) iid of
       None \<Rightarrow> (Inl ErrNotFound, m)
     | Some tok \<Rightarrow> if mt_tenantID tok \<noteq> t then (Inl ErrNotFound, m) else (Inr (mt_ciphertext tok), m))"

definition memStore_DeleteToken ::
  "call_env \<Rightarrow> tenant_id \<Rightarrow> string \<Rightarrow> mem_store \<Rightarrow> (store_error + unit) \<times> mem_store" where
  "memStore_DeleteToken env t iid = with_ctx env (\<lambda>m.
     case tbl_get (ms_tokens m) iid of
       None \<Rightarrow> (Inl ErrNotFound, m)
     | Some tok \<Rightarrow> if mt_tenantID tok \<noteq> t then (Inl ErrNotFound, m)
                   else (Inr (), m\<lparr>ms_tokens := tbl_del iid (ms_tokens m)\<rparr>))"

definition memStore_ListAll ::
  "call_env \<Rightarrow> mem_store \<Rightarrow> (store_error + ConnectorInstance list) \<times> mem_store" where
  "memStore_ListAll env = with_ctx env (\<lambda>m.
     (Inr (sort_key (\<lambda>i. (ci_TenantID i, ci_CreatedAt i, ci_ID i))
             (map cloneInstance (map snd (ms_instances m)))), m))"

definition memStore_CountConnectorInstances ::
  "call_env \<Rightarrow> tenant_id \<Rightarrow> mem_store \<Rightarrow> (store_error + nat) \<times> mem_store" where
  "memStore_CountConnectorInstances env t = with_ctx env (\<lambda>m.
     (Inr (tbl_count (owned_by t) (ms_instances m)), m))"

definition memStore_PurgeTenant ::
  "call_env \<Rightarrow> tenant_id \<Rightarrow> mem_store \<Rightarrow> (store_error + PurgeCounts) \<times> mem_store" where
  "memStore_PurgeTenant env t = with_ctx env (\<lambda>m.
     let mine = filter (\<lambda>(iid, inst). ci_TenantID inst = t) (ms_instances m);
         ids = map fst mine;
         hasTok = (\<lambda>iid. case tbl_get (ms_tokens m) iid of
                           None \<Rightarrow> False | Some tok \<Rightarrow> mt_tenantID tok = t)
     in (Inr \<lparr>pc_ConnectorInstances = length mine, pc_Tokens = length (filter hasTok ids)\<rparr>,
         m\<lparr>ms_instances := tbl_keep (\<lambda>iid inst. ci_TenantID inst \<noteq> t) (ms_instances m),
           ms_syncs := tbl_keep (\<lambda>iid st. iid \<notin> set ids) (ms_syncs m),
           ms_tokens := tbl_keep (\<lambda>iid tok. \<not> (iid \<in> set ids \<and> mt_tenantID tok = t)) (ms_tokens m),
           ms_tenants := tbl_del t (ms_tenants m),
           ms_prefs := tbl_del t (ms_prefs m),
           ms_weights := tbl_del t (ms_weights m),
           ms_feedback := tbl_del t (ms_feedback m)\<rparr>))"

definition feedback_of :: "mem_store \<Rightarrow> tenant_id \<Rightarrow> FeedbackEvent list" where
  "feedback_of m t = (case tbl_get (ms_feedback m) t of None \<Rightarrow> [] | Some evs \<Rightarrow> evs)"

definition memStore_TenantResidue ::
  "call_env \<Rightarrow> tenant_id \<Rightarrow> mem_store \<Rightarrow> (store_error + bool) \<times> mem_store" where
  "memStore_TenantResidue env t = with_ctx env (\<lambda>m.
     (Inr (if tbl_has t (ms_tenants m) then False
           else if list_ex (\<lambda>(iid, inst). ci_TenantID inst = t) (ms_instances m) then False
           else if list_ex (\<lambda>(iid, tok). mt_tenantID tok = t) (ms_tokens m) then False
           else if tbl_has t (ms_prefs m) then False
           else if tbl_has t (ms_weights m) then False
           else if length (feedback_of m t) > 0 then False
           else True), m))"

definition usageLocked :: "mem_store \<Rightarrow> tenant_id \<Rightarrow> time \<Rightarrow> TenantUsage" where
  "usageLocked m t created =
     (let mine = filter (\<lambda>(iid, inst). ci_TenantID inst = t) (ms_instances m);
          instances = length mine;
          paused = length (filter (\<lambda>(iid, inst). ci_Status inst = ''PAUSED'') mine);
          docs = sum_list (map (\<lambda>(iid, inst). case tbl_get (ms_syncs m) iid of
                                   None \<Rightarrow> 0 | Some st \<Rightarrow> ss_DocsEmitted st) mine)
      in \<lparr>tu_TenantID = t, tu_CreatedAt = created, tu_ConnectorInstances = instances,
          tu_DocsEmitted = docs, tu_Suspended = (instances > 0 \<and> paused = instances)\<rparr>)"

definition memStore_ListTenants ::
  "call_env \<Rightarrow> string \<Rightarrow> int \<Rightarrow> mem_store \<Rightarrow> (store_error + TenantUsage list) \<times> mem_store" where
  "memStore_ListTenants env afterTenantID limit = with_ctx env (\<lambda>m.
     let ids = sort (filter (\<lambda>t. t > afterTenantID) (map fst (ms_tenants m)));
         page = (if limit > 0 then take (nat limit) ids else ids)
     in (Inr (map (\<lambda>t. usageLocked m t (case tbl_get (ms_tenants m) t of Some c \<Rightarrow> c | None \<Rightarrow> 0)) page), m))"

definition memStore_GetTenantUsage ::
  "call_env \<Rightarrow> tenant_id \<Rightarrow> mem_store \<Rightarrow> (store_error + TenantUsage) \<times> mem_store" where
  "memStore_GetTenantUsage env t = with_ctx env (\<lambda>m.
     case tbl_get (ms_tenants m) t of
       None \<Rightarrow> (Inl ErrNotFound, m)
     | Some created \<Rightarrow> (Inr (usageLocked m t created), m))"

text \<open>The loop of \<open>SetTenantConnectorStatus\<close>: one clock reading per row it changes, and the number
  of rows changed so far.\<close>

fun set_status_loop ::
  "tenant_id \<Rightarrow> string \<Rightarrow> (nat \<Rightarrow> time) \<Rightarrow> nat \<Rightarrow> (string, ConnectorInstance) table \<Rightarrow>
     (string, ConnectorInstance) table \<times> nat" where
  "set_status_loop t status now n [] = ([], n)"
| "set_status_loop t status now n ((iid, inst) # rows) =
     (if ci_TenantID inst = t \<and> ci_Status inst \<noteq> status
      then let (rows', n') = set_status_loop t status now (Suc n) rows
           in ((iid, inst\<lparr>ci_Status := status, ci_UpdatedAt := now n\<rparr>) # rows', n')
      else let (rows', n') = set_status_loop t status now n rows in ((iid, inst) # rows', n'))"

definition memStore_SetTenantConnectorStatus ::
  "call_env \<Rightarrow> tenant_id \<Rightarrow> string \<Rightarrow> mem_store \<Rightarrow> (store_error + nat) \<times> mem_store" where
  "memStore_SetTenantConnectorStatus env t status = with_ctx env (\<lambda>m.
     let (rows, changed) = set_status_loop t status (env_now env) 0 (ms_instances m)
     in (Inr changed, m\<lparr>ms_instances := rows\<rparr>))"

definition prefs_of :: "mem_store \<Rightarrow> tenant_id \<Rightarrow> UserPreferences" where
  "prefs_of m t = (case tbl_get (ms_prefs m) t of None \<Rightarrow> no_prefs | Some p \<Rightarrow> p)"

definition weights_of :: "mem_store \<Rightarrow> tenant_id \<Rightarrow> LearnedWeights" where
  "weights_of m t = (case tbl_get (ms_weights m) t of None \<Rightarrow> no_weights | Some w \<Rightarrow> w)"

definition memStore_GetPersonalization ::
  "call_env \<Rightarrow> tenant_id \<Rightarrow> mem_store \<Rightarrow> (store_error + UserPreferences \<times> LearnedWeights) \<times> mem_store" where
  "memStore_GetPersonalization env t = with_ctx env (\<lambda>m. (Inr (prefs_of m t, weights_of m t), m))"

definition memStore_PutPreferences ::
  "call_env \<Rightarrow> tenant_id \<Rightarrow> string \<Rightarrow> mem_store \<Rightarrow> (store_error + int64) \<times> mem_store" where
  "memStore_PutPreferences env t profileJSON = with_ctx env (\<lambda>m0.
     let m = register t (env_now env 0) m0;
         v = up_Version (prefs_of m t) + 1;
         version = (if v <s 1 then 1 else v)
     in (Inr version,
         m\<lparr>ms_prefs := tbl_put t \<lparr>up_ProfileJSON = profileJSON, up_Version = version, up_Exists = True\<rparr>
                          (ms_prefs m)\<rparr>))"

definition memStore_AppendFeedback ::
  "call_env \<Rightarrow> tenant_id \<Rightarrow> FeedbackEvent \<Rightarrow> mem_store \<Rightarrow> (store_error + unit) \<times> mem_store" where
  "memStore_AppendFeedback env t ev = with_ctx env (\<lambda>m0.
     let m = register t (env_now env 0) m0
     in (Inr (), m\<lparr>ms_feedback := tbl_put t (feedback_of m t @ [ev]) (ms_feedback m)\<rparr>))"

definition memStore_UpdateLearnedWeights ::
  "call_env \<Rightarrow> tenant_id \<Rightarrow> weights_update \<Rightarrow> mem_store \<Rightarrow> (store_error + unit) \<times> mem_store" where
  "memStore_UpdateLearnedWeights env t update = with_ctx env (\<lambda>m0.
     let m = register t (env_now env 0) m0; cur = weights_of m t in
     case update (lw_WeightsJSON cur) (lw_SampleCount cur) of
       Inl e \<Rightarrow> (Inl e, m)
     | Inr (newJSON, newSamples) \<Rightarrow>
         (Inr (), m\<lparr>ms_weights := tbl_put t
            \<lparr>lw_WeightsJSON = newJSON, lw_SampleCount = newSamples, lw_Exists = True\<rparr> (ms_weights m)\<rparr>))"

definition memStore_ResetLearning ::
  "call_env \<Rightarrow> tenant_id \<Rightarrow> mem_store \<Rightarrow> (store_error + nat) \<times> mem_store" where
  "memStore_ResetLearning env t = with_ctx env (\<lambda>m.
     (Inr (length (feedback_of m t)),
      m\<lparr>ms_weights := tbl_del t (ms_weights m), ms_feedback := tbl_del t (ms_feedback m)\<rparr>))"

definition memStore :: "mem_store Store" where
  "memStore = \<lparr>EnsureTenant = memStore_EnsureTenant,
     CreateConnectorInstance = memStore_CreateConnectorInstance,
     ListConnectorInstances = memStore_ListConnectorInstances,
     GetConnectorInstance = memStore_GetConnectorInstance,
     DeleteConnectorInstance = memStore_DeleteConnectorInstance,
     GetSyncState = memStore_GetSyncState, SetSyncState = memStore_SetSyncState,
     PutToken = memStore_PutToken, GetToken = memStore_GetToken, DeleteToken = memStore_DeleteToken,
     ListAll = memStore_ListAll, CountConnectorInstances = memStore_CountConnectorInstances,
     PurgeTenant = memStore_PurgeTenant, TenantResidue = memStore_TenantResidue,
     ListTenants = memStore_ListTenants, GetTenantUsage = memStore_GetTenantUsage,
     SetTenantConnectorStatus = memStore_SetTenantConnectorStatus,
     GetPersonalization = memStore_GetPersonalization, PutPreferences = memStore_PutPreferences,
     AppendFeedback = memStore_AppendFeedback, UpdateLearnedWeights = memStore_UpdateLearnedWeights,
     ResetLearning = memStore_ResetLearning\<rparr>"

lemma memStore_methods [simp]:
  "EnsureTenant memStore = memStore_EnsureTenant"
  "CreateConnectorInstance memStore = memStore_CreateConnectorInstance"
  "ListConnectorInstances memStore = memStore_ListConnectorInstances"
  "GetConnectorInstance memStore = memStore_GetConnectorInstance"
  "DeleteConnectorInstance memStore = memStore_DeleteConnectorInstance"
  "GetSyncState memStore = memStore_GetSyncState" "SetSyncState memStore = memStore_SetSyncState"
  "PutToken memStore = memStore_PutToken" "GetToken memStore = memStore_GetToken"
  "DeleteToken memStore = memStore_DeleteToken" "ListAll memStore = memStore_ListAll"
  "CountConnectorInstances memStore = memStore_CountConnectorInstances"
  "PurgeTenant memStore = memStore_PurgeTenant" "TenantResidue memStore = memStore_TenantResidue"
  "ListTenants memStore = memStore_ListTenants" "GetTenantUsage memStore = memStore_GetTenantUsage"
  "SetTenantConnectorStatus memStore = memStore_SetTenantConnectorStatus"
  "GetPersonalization memStore = memStore_GetPersonalization"
  "PutPreferences memStore = memStore_PutPreferences" "AppendFeedback memStore = memStore_AppendFeedback"
  "UpdateLearnedWeights memStore = memStore_UpdateLearnedWeights"
  "ResetLearning memStore = memStore_ResetLearning"
  by (simp_all only: memStore_def Store.select_convs)

end
