(* ===== verification/Control_Store_Spec.thy ===== *)
theory Control_Store_Spec
  imports Control_Store
begin

text \<open>
  What the store promises each tenant. The abstract state of one tenant is a \<open>tenant_view\<close>: its own
  rows and nothing else. \<open>spec_call\<close> says what every tenant-scoped method does to that view and
  what it answers. The locale \<open>tenant_store\<close> states the contract between the interface and its
  clients (a method acts on the caller's view as specified, leaves every other tenant's view alone
  and keeps the store's invariant) and derives, once, that the answers a tenant gets from any
  interleaving of calls depend on its own calls only. \<open>memStore\<close> is shown to be such a store.
\<close>

section \<open>Tenant views\<close>

record tenant_view =
  v_created :: "time option"
  v_insts :: "string \<Rightarrow> ConnectorInstance option"
  v_syncs :: "string \<Rightarrow> SyncState option"
  v_toks :: "string \<Rightarrow> bytes option"
  v_prefs :: "UserPreferences option"
  v_weights :: "LearnedWeights option"
  v_feedback :: "FeedbackEvent list"

definition empty_view :: tenant_view where
  "empty_view = \<lparr>v_created = None, v_insts = Map.empty, v_syncs = Map.empty, v_toks = Map.empty,
     v_prefs = None, v_weights = None, v_feedback = []\<rparr>"

text \<open>The tenant-scoped methods as data, so that sequences of calls can be quantified over.\<close>

datatype store_call =
    CallEnsureTenant | CallCreate ConnectorInstance int | CallList | CallGet string
  | CallDelete string | CallGetSync string | CallSetSync SyncState | CallPutToken string bytes
  | CallGetToken string | CallDeleteToken string | CallCount | CallPurge | CallResidue
  | CallGetPersonalization | CallPutPreferences string | CallAppendFeedback FeedbackEvent
  | CallUpdateWeights weights_update | CallResetLearning

datatype store_reply =
    RTenant Tenant | RInstance ConnectorInstance | RInstances "ConnectorInstance list" | RUnit
  | RSync SyncState | RBytes bytes | RNat nat | RCounts PurgeCounts | RBool bool
  | RPersonalization UserPreferences LearnedWeights | RVersion int64

definition reply :: "('a \<Rightarrow> store_reply) \<Rightarrow> (store_error + 'a) \<times> 's \<Rightarrow> (store_error + store_reply) \<times> 's" where
  "reply f = map_prod (map_sum id f) id"

primrec exec_call ::
  "'s Store \<Rightarrow> call_env \<Rightarrow> tenant_id \<Rightarrow> store_call \<Rightarrow> 's \<Rightarrow> (store_error + store_reply) \<times> 's" where
  "exec_call S env t CallEnsureTenant s =
     reply RTenant (EnsureTenant S env t s)"
| "exec_call S env t (CallCreate inst mx) s =
     reply RInstance (CreateConnectorInstance S env (inst\<lparr>ci_TenantID := t\<rparr>) mx s)"
| "exec_call S env t CallList s =
     reply RInstances (ListConnectorInstances S env t s)"
| "exec_call S env t (CallGet iid) s =
     reply RInstance (GetConnectorInstance S env t iid s)"
| "exec_call S env t (CallDelete iid) s =
     reply (\<lambda>_. RUnit) (DeleteConnectorInstance S env t iid s)"
| "exec_call S env t (CallGetSync iid) s =
     reply RSync (GetSyncState S env t iid s)"
| "exec_call S env t (CallSetSync st) s =
     reply RSync (SetSyncState S env t st s)"
| "exec_call S env t (CallPutToken iid ct) s =
     reply (\<lambda>_. RUnit) (PutToken S env t iid ct s)"
| "exec_call S env t (CallGetToken iid) s =
     reply RBytes (GetToken S env t iid s)"
| "exec_call S env t (CallDeleteToken iid) s =
     reply (\<lambda>_. RUnit) (DeleteToken S env t iid s)"
| "exec_call S env t CallCount s =
     reply RNat (CountConnectorInstances S env t s)"
| "exec_call S env t CallPurge s =
     reply RCounts (PurgeTenant S env t s)"
| "exec_call S env t CallResidue s =
     reply RBool (TenantResidue S env t s)"
| "exec_call S env t CallGetPersonalization s =
     reply (\<lambda>(p, w). RPersonalization p w) (GetPersonalization S env t s)"
| "exec_call S env t (CallPutPreferences j) s =
     reply RVersion (PutPreferences S env t j s)"
| "exec_call S env t (CallAppendFeedback ev) s =
     reply (\<lambda>_. RUnit) (AppendFeedback S env t ev s)"
| "exec_call S env t (CallUpdateWeights u) s =
     reply (\<lambda>_. RUnit) (UpdateLearnedWeights S env t u s)"
| "exec_call S env t CallResetLearning s =
     reply RNat (ResetLearning S env t s)"

section \<open>The specification of one call\<close>

definition insts_in_order :: "(string \<Rightarrow> ConnectorInstance option) \<Rightarrow> ConnectorInstance list" where
  "insts_in_order f =
     map (\<lambda>(c, iid). the (f iid)) (sorted_list_of_set {(ci_CreatedAt i, iid) | i iid. f iid = Some i})"

definition v_register :: "time \<Rightarrow> tenant_view \<Rightarrow> tenant_view" where
  "v_register now v = (if v_created v = None then v\<lparr>v_created := Some now\<rparr> else v)"

primrec spec_body ::
  "call_env \<Rightarrow> tenant_id \<Rightarrow> store_call \<Rightarrow> tenant_view \<Rightarrow> (store_error + store_reply) \<times> tenant_view" where
  "spec_body env t CallEnsureTenant v =
     (case v_created v of
             Some created \<Rightarrow> (Inr (RTenant \<lparr>tn_ID = t, tn_CreatedAt = created\<rparr>), v)
           | None \<Rightarrow> (Inr (RTenant \<lparr>tn_ID = t, tn_CreatedAt = env_now env 0\<rparr>),
                      v\<lparr>v_created := Some (env_now env 0)\<rparr>))"
| "spec_body env t (CallCreate inst mx) v =
     (if mx > 0 \<and> int (card (dom (v_insts v))) \<ge> mx then (Inl ErrQuotaExceeded, v)
           else let now = env_now env (if v_created v = None then 1 else 0);
                    i = inst\<lparr>ci_TenantID := t, ci_ID := env_uuid env, ci_CreatedAt := now, ci_UpdatedAt := now\<rparr>
                in (Inr (RInstance i),
                    (v_register (env_now env 0) v)\<lparr>v_insts := (v_insts v)(env_uuid env \<mapsto> i)\<rparr>))"
| "spec_body env t CallList v =
     (Inr (RInstances (insts_in_order (v_insts v))), v)"
| "spec_body env t (CallGet iid) v =
     (case v_insts v iid of None \<Rightarrow> (Inl ErrNotFound, v) | Some i \<Rightarrow> (Inr (RInstance i), v))"
| "spec_body env t (CallDelete iid) v =
     (case v_insts v iid of
             None \<Rightarrow> (Inl ErrNotFound, v)
           | Some _ \<Rightarrow> (Inr RUnit, v\<lparr>v_insts := (v_insts v)(iid := None),
                          v_syncs := (v_syncs v)(iid := None), v_toks := (v_toks v)(iid := None)\<rparr>))"
| "spec_body env t (CallGetSync iid) v =
     (case v_insts v iid of
             None \<Rightarrow> (Inl ErrNotFound, v)
           | Some _ \<Rightarrow> (Inr (RSync (case v_syncs v iid of None \<Rightarrow> pending_state t iid | Some st \<Rightarrow> st)), v))"
| "spec_body env t (CallSetSync st) v =
     (case v_insts v (ss_InstanceID st) of
             None \<Rightarrow> (Inl ErrNotFound, v)
           | Some _ \<Rightarrow> (Inr (RSync (st\<lparr>ss_TenantID := t\<rparr>)),
                         v\<lparr>v_syncs := (v_syncs v)(ss_InstanceID st \<mapsto> st\<lparr>ss_TenantID := t\<rparr>)\<rparr>))"
| "spec_body env t (CallPutToken iid ct) v =
     (case v_insts v iid of
             None \<Rightarrow> (Inl ErrNotFound, v)
           | Some _ \<Rightarrow> (Inr RUnit, v\<lparr>v_toks := (v_toks v)(iid \<mapsto> ct)\<rparr>))"
| "spec_body env t (CallGetToken iid) v =
     (case v_toks v iid of None \<Rightarrow> (Inl ErrNotFound, v) | Some ct \<Rightarrow> (Inr (RBytes ct), v))"
| "spec_body env t (CallDeleteToken iid) v =
     (case v_toks v iid of
             None \<Rightarrow> (Inl ErrNotFound, v)
           | Some _ \<Rightarrow> (Inr RUnit, v\<lparr>v_toks := (v_toks v)(iid := None)\<rparr>))"
| "spec_body env t CallCount v =
     (Inr (RNat (card (dom (v_insts v)))), v)"
| "spec_body env t CallPurge v =
     (Inr (RCounts \<lparr>pc_ConnectorInstances = card (dom (v_insts v)), pc_Tokens = card (dom (v_toks v))\<rparr>),
           empty_view)"
| "spec_body env t CallResidue v =
     (Inr (RBool (v = empty_view)), v)"
| "spec_body env t CallGetPersonalization v =
     (Inr (RPersonalization (case v_prefs v of None \<Rightarrow> no_prefs | Some p \<Rightarrow> p)
                  (case v_weights v of None \<Rightarrow> no_weights | Some w \<Rightarrow> w)), v)"
| "spec_body env t (CallPutPreferences j) v =
     (let n = up_Version (case v_prefs v of None \<Rightarrow> no_prefs | Some p \<Rightarrow> p) + 1;
               version = (if n <s 1 then 1 else n)
           in (Inr (RVersion version),
               (v_register (env_now env 0) v)
                 \<lparr>v_prefs := Some \<lparr>up_ProfileJSON = j, up_Version = version, up_Exists = True\<rparr>\<rparr>))"
| "spec_body env t (CallAppendFeedback ev) v =
     (Inr RUnit, (v_register (env_now env 0) v)\<lparr>v_feedback := v_feedback v @ [ev]\<rparr>)"
| "spec_body env t (CallUpdateWeights u) v =
     (let cur = (case v_weights v of None \<Rightarrow> no_weights | Some w \<Rightarrow> w);
               v1 = v_register (env_now env 0) v
           in case u (lw_WeightsJSON cur) (lw_SampleCount cur) of
                Inl e \<Rightarrow> (Inl e, v1)
              | Inr (j, n) \<Rightarrow> (Inr RUnit, v1\<lparr>v_weights :=
                    Some \<lparr>lw_WeightsJSON = j, lw_SampleCount = n, lw_Exists = True\<rparr>\<rparr>))"
| "spec_body env t CallResetLearning v =
     (Inr (RNat (length (v_feedback v))), v\<lparr>v_weights := None, v_feedback := []\<rparr>)"

definition spec_call ::
  "call_env \<Rightarrow> tenant_id \<Rightarrow> store_call \<Rightarrow> tenant_view \<Rightarrow> (store_error + store_reply) \<times> tenant_view" where
  "spec_call env t c v = (case env_err env of Some e \<Rightarrow> (Inl e, v) | None \<Rightarrow> spec_body env t c v)"

section \<open>The contract and its client\<close>

type_synonym trace = "(call_env \<times> tenant_id \<times> store_call) list"

fun is_create :: "store_call \<Rightarrow> bool" where
  "is_create (CallCreate _ _) = True"
| "is_create _ = False"

definition created_ids :: "trace \<Rightarrow> string list" where
  "created_ids tr = map (\<lambda>(env, t, c). env_uuid env) (filter (\<lambda>(env, t, c). is_create c) tr)"

lemma created_ids_Cons:
  "created_ids ((env, t, c) # tr) = (if is_create c then [env_uuid env] else []) @ created_ids tr"
  by (simp add: created_ids_def)

fun run_calls :: "'s Store \<Rightarrow> trace \<Rightarrow> 's \<Rightarrow> (tenant_id \<times> (store_error + store_reply)) list" where
  "run_calls S [] s = []"
| "run_calls S ((env, t, c) # tr) s =
     (let (r, s') = exec_call S env t c s in (t, r) # run_calls S tr s')"

fun final_store :: "'s Store \<Rightarrow> trace \<Rightarrow> 's \<Rightarrow> 's" where
  "final_store S [] s = s"
| "final_store S ((env, t, c) # tr) s = final_store S tr (snd (exec_call S env t c s))"

definition answers_to :: "tenant_id \<Rightarrow> (tenant_id \<times> 'r) list \<Rightarrow> 'r list" where
  "answers_to t rs = map snd (filter (\<lambda>(t', r). t' = t) rs)"

definition calls_of :: "tenant_id \<Rightarrow> trace \<Rightarrow> trace" where
  "calls_of t tr = filter (\<lambda>(env, t', c). t' = t) tr"

fun spec_run :: "trace \<Rightarrow> tenant_view \<Rightarrow> (store_error + store_reply) list" where
  "spec_run [] v = []"
| "spec_run ((env, t, c) # tr) v = (let (r, v') = spec_call env t c v in r # spec_run tr v')"

locale tenant_store =
  fixes S :: "'s Store"
    and inv :: "'s \<Rightarrow> bool"
    and view :: "tenant_id \<Rightarrow> 's \<Rightarrow> tenant_view"
    and used :: "'s \<Rightarrow> string set"
  assumes answer: "inv s \<Longrightarrow> (is_create c \<Longrightarrow> env_uuid env \<notin> used s) \<Longrightarrow>
      fst (exec_call S env t c s) = fst (spec_call env t c (view t s))"
    and own_view: "inv s \<Longrightarrow> (is_create c \<Longrightarrow> env_uuid env \<notin> used s) \<Longrightarrow>
      view t (snd (exec_call S env t c s)) = snd (spec_call env t c (view t s))"
    and other_view: "inv s \<Longrightarrow> (is_create c \<Longrightarrow> env_uuid env \<notin> used s) \<Longrightarrow> t' \<noteq> t \<Longrightarrow>
      view t' (snd (exec_call S env t c s)) = view t' s"
    and inv_kept: "inv s \<Longrightarrow> (is_create c \<Longrightarrow> env_uuid env \<notin> used s) \<Longrightarrow>
      inv (snd (exec_call S env t c s))"
    and used_grows: "used (snd (exec_call S env t c s)) \<subseteq>
      (if is_create c then insert (env_uuid env) (used s) else used s)"
begin

lemma trace_step:
  assumes "inv s" and "distinct (created_ids ((env, t', c) # tr))"
    and "set (created_ids ((env, t', c) # tr)) \<inter> used s = {}"
  shows "is_create c \<Longrightarrow> env_uuid env \<notin> used s"
    and "inv (snd (exec_call S env t' c s))"
    and "distinct (created_ids tr)"
    and "set (created_ids tr) \<inter> used (snd (exec_call S env t' c s)) = {}"
proof -
  show fresh: "env_uuid env \<notin> used s" if "is_create c" using assms(3) that by (simp add: created_ids_Cons)
  show "inv (snd (exec_call S env t' c s))" using assms(1) fresh by (rule inv_kept)
  show "distinct (created_ids tr)" using assms(2) by (simp add: created_ids_Cons)
  show "set (created_ids tr) \<inter> used (snd (exec_call S env t' c s)) = {}"
    using assms(2,3) used_grows [of env t' c s]
    by (cases "is_create c") (simp_all add: created_ids_Cons, blast+)
qed

lemma run_answers:
  assumes "inv s" and "distinct (created_ids tr)" and "set (created_ids tr) \<inter> used s = {}"
  shows "answers_to t (run_calls S tr s) = spec_run (calls_of t tr) (view t s)"
  using assms
proof (induction tr arbitrary: s)
  case Nil
  then show ?case by (simp add: answers_to_def calls_of_def)
next
  case (Cons p tr)
  obtain env t' c where p: "p = (env, t', c)" using prod_cases3 by blast
  note step = trace_step [OF Cons.prems [unfolded p]]
  let ?s' = "snd (exec_call S env t' c s)"
  have IH: "answers_to t (run_calls S tr ?s') = spec_run (calls_of t tr) (view t ?s')"
    using step(2-4) by (rule Cons.IH)
  show ?case
  proof (cases "t' = t")
    case True
    have "fst (exec_call S env t' c s) = fst (spec_call env t' c (view t' s))"
      using Cons.prems(1) step(1) by (rule answer)
    moreover have "view t' ?s' = snd (spec_call env t' c (view t' s))"
      using Cons.prems(1) step(1) by (rule own_view)
    ultimately show ?thesis using IH p True
      by (auto simp: answers_to_def calls_of_def split: prod.splits)
  next
    case False
    have "view t ?s' = view t s" using Cons.prems(1) step(1) False [symmetric] by (rule other_view)
    with IH p False show ?thesis
      by (auto simp: answers_to_def calls_of_def split: prod.splits)
  qed
qed

lemma others_frame:
  assumes "inv s" and "distinct (created_ids tr)" and "set (created_ids tr) \<inter> used s = {}"
    and "\<And>env t' c. (env, t', c) \<in> set tr \<Longrightarrow> t' \<noteq> t"
  shows "view t (final_store S tr s) = view t s"
  using assms
proof (induction tr arbitrary: s)
  case (Cons p tr)
  obtain env t' c where p: "p = (env, t', c)" using prod_cases3 by blast
  note step = trace_step [OF Cons.prems(1-3) [unfolded p]]
  let ?s' = "snd (exec_call S env t' c s)"
  have "t \<noteq> t'" using Cons.prems(4) [of env t' c] p by auto
  then have "view t ?s' = view t s" using Cons.prems(1) step(1) by (intro other_view)
  moreover have "view t (final_store S tr ?s') = view t ?s'"
    using step(2-4) Cons.prems(4) by (intro Cons.IH) auto
  ultimately show ?case using p by simp
qed simp

lemma final_inv:
  assumes "inv s" and "distinct (created_ids tr)" and "set (created_ids tr) \<inter> used s = {}"
  shows "inv (final_store S tr s)"
  using assms
proof (induction tr arbitrary: s)
  case (Cons p tr)
  obtain env t' c where p: "p = (env, t', c)" using prod_cases3 by blast
  note step = trace_step [OF Cons.prems [unfolded p]]
  show ?case using Cons.IH [OF step(2-4)] p by simp
qed simp

end

end
