(* ===== verification/Control_Store_Mem.thy ===== *)
theory Control_Store_Mem
  imports Control_Store_Spec
begin

text \<open>
  The in-memory store keeps the contract of \<open>Control_Store_Spec\<close>: its invariant, the view it gives
  each tenant, and one refinement lemma per method.
\<close>

section \<open>Invariant and view\<close>

definition store_inv :: "mem_store \<Rightarrow> bool" where
  "store_inv m \<longleftrightarrow>
     wf_table (ms_tenants m) \<and> wf_table (ms_instances m) \<and> wf_table (ms_syncs m) \<and>
     wf_table (ms_tokens m) \<and> wf_table (ms_prefs m) \<and> wf_table (ms_weights m) \<and> wf_table (ms_feedback m) \<and>
     (\<forall>iid inst. tbl_get (ms_instances m) iid = Some inst \<longrightarrow>
        ci_ID inst = iid \<and> ci_TenantID inst \<in> keys (ms_tenants m)) \<and>
     (\<forall>iid st. tbl_get (ms_syncs m) iid = Some st \<longrightarrow>
        ss_InstanceID st = iid \<and>
        (\<exists>inst. tbl_get (ms_instances m) iid = Some inst \<and> ci_TenantID inst = ss_TenantID st)) \<and>
     (\<forall>iid tok. tbl_get (ms_tokens m) iid = Some tok \<longrightarrow>
        (\<exists>inst. tbl_get (ms_instances m) iid = Some inst \<and> ci_TenantID inst = mt_tenantID tok)) \<and>
     keys (ms_prefs m) \<subseteq> keys (ms_tenants m) \<and> keys (ms_weights m) \<subseteq> keys (ms_tenants m) \<and>
     keys (ms_feedback m) \<subseteq> keys (ms_tenants m)"

definition mine :: "('v \<Rightarrow> tenant_id) \<Rightarrow> tenant_id \<Rightarrow> 'v option \<Rightarrow> 'v option" where
  "mine owner t x = (case x of None \<Rightarrow> None | Some v \<Rightarrow> if owner v = t then Some v else None)"

definition mem_view :: "tenant_id \<Rightarrow> mem_store \<Rightarrow> tenant_view" where
  "mem_view t m =
     \<lparr>v_created = tbl_get (ms_tenants m) t,
      v_insts = (\<lambda>iid. mine ci_TenantID t (tbl_get (ms_instances m) iid)),
      v_syncs = (\<lambda>iid. mine ss_TenantID t (tbl_get (ms_syncs m) iid)),
      v_toks = (\<lambda>iid. map_option mt_ciphertext (mine mt_tenantID t (tbl_get (ms_tokens m) iid))),
      v_prefs = tbl_get (ms_prefs m) t,
      v_weights = tbl_get (ms_weights m) t,
      v_feedback = feedback_of m t\<rparr>"

section \<open>Facts on the view\<close>

lemma mine_None [simp]: "mine f t None = None"
  by (simp add: mine_def)

lemma mine_Some [simp]: "mine f t (Some v) = (if f v = t then Some v else None)"
  by (simp add: mine_def)

lemma mine_eq_Some: "mine f t x = Some v \<longleftrightarrow> x = Some v \<and> f v = t"
  by (cases x) auto

lemma ownedInstance_view: "ownedInstance m t iid = v_insts (mem_view t m) iid"
  by (auto simp: ownedInstance_def mem_view_def split: option.splits)

lemma clones [simp]: "cloneInstance i = i" "cloneSyncState st = st"
  by (simp_all add: cloneInstance_def cloneSyncState_def)

lemma map_clone [simp]: "map cloneInstance xs = xs"
  by (rule map_idI) simp

lemma store_inv_wf:
  assumes "store_inv m"
  shows "wf_table (ms_tenants m)" "wf_table (ms_instances m)" "wf_table (ms_syncs m)"
    "wf_table (ms_tokens m)" "wf_table (ms_prefs m)" "wf_table (ms_weights m)" "wf_table (ms_feedback m)"
  using assms by (simp_all add: store_inv_def)

lemma store_inv_inst:
  assumes "store_inv m" and "tbl_get (ms_instances m) iid = Some inst"
  shows "ci_ID inst = iid" "ci_TenantID inst \<in> keys (ms_tenants m)"
  using assms by (auto simp: store_inv_def)

lemma store_inv_sync:
  assumes "store_inv m" and "tbl_get (ms_syncs m) iid = Some st"
  shows "ss_InstanceID st = iid"
    and "\<exists>inst. tbl_get (ms_instances m) iid = Some inst \<and> ci_TenantID inst = ss_TenantID st"
  using assms by (auto simp: store_inv_def)

lemma store_inv_tok:
  assumes "store_inv m" and "tbl_get (ms_tokens m) iid = Some tok"
  shows "\<exists>inst. tbl_get (ms_instances m) iid = Some inst \<and> ci_TenantID inst = mt_tenantID tok"
  using assms by (auto simp: store_inv_def)

lemma store_inv_init: "store_inv newMemStore"
  by (simp add: store_inv_def newMemStore_def)

lemma mem_view_init: "mem_view t newMemStore = empty_view"
  by (simp add: mem_view_def newMemStore_def empty_view_def feedback_of_def fun_eq_iff)

text \<open>Rows a tenant owns, counted in the table and in its view.\<close>

lemma dom_mine: "wf_table tab \<Longrightarrow> dom (\<lambda>k. mine f t (tbl_get tab k)) = fst ` {p \<in> set tab. f (snd p) = t}"
  by (force simp: mine_eq_Some set_get_iff [symmetric] dom_def image_def)

lemma card_dom_mine:
  assumes "wf_table tab"
  shows "card (dom (\<lambda>k. mine f t (tbl_get tab k))) = length (filter (\<lambda>(k, v). f v = t) tab)"
proof -
  have "distinct (map fst (filter (\<lambda>(k, v). f v = t) tab))" using assms by (rule distinct_map_filter)
  then have "card (set (map fst (filter (\<lambda>(k, v). f v = t) tab))) = length (filter (\<lambda>(k, v). f v = t) tab)"
    by (metis distinct_card length_map)
  moreover have "set (map fst (filter (\<lambda>(k, v). f v = t) tab)) = fst ` {p \<in> set tab. f (snd p) = t}"
    by force
  ultimately show ?thesis using dom_mine [OF assms, of f t] by simp
qed

lemma count_owned_view:
  "store_inv m \<Longrightarrow> tbl_count (owned_by t) (ms_instances m) = card (dom (v_insts (mem_view t m)))"
  by (simp add: mem_view_def card_dom_mine store_inv_wf tbl_count_def owned_by_def)

lemma dom_map_option_comp: "dom (\<lambda>k. map_option f (g k)) = dom g"
  by (auto simp: dom_def)

section \<open>Refinement of the methods\<close>

text \<open>A method that answers from the caller's view, changes that view as specified, leaves the other
  views alone and keeps the invariant.\<close>

definition refines :: "call_env \<Rightarrow> tenant_id \<Rightarrow> store_call \<Rightarrow> mem_store \<Rightarrow> bool" where
  "refines env t c m \<longleftrightarrow>
     fst (exec_call memStore env t c m) = fst (spec_call env t c (mem_view t m)) \<and>
     mem_view t (snd (exec_call memStore env t c m)) = snd (spec_call env t c (mem_view t m)) \<and>
     (\<forall>t'. t' \<noteq> t \<longrightarrow> mem_view t' (snd (exec_call memStore env t c m)) = mem_view t' m) \<and>
     store_inv (snd (exec_call memStore env t c m))"

lemmas memStore_defs =
  memStore_EnsureTenant_def memStore_CreateConnectorInstance_def memStore_ListConnectorInstances_def
  memStore_GetConnectorInstance_def memStore_DeleteConnectorInstance_def memStore_GetSyncState_def
  memStore_SetSyncState_def memStore_PutToken_def memStore_GetToken_def memStore_DeleteToken_def
  memStore_CountConnectorInstances_def memStore_PurgeTenant_def memStore_TenantResidue_def
  memStore_GetPersonalization_def memStore_PutPreferences_def memStore_AppendFeedback_def
  memStore_UpdateLearnedWeights_def memStore_ResetLearning_def

lemma exec_done: "env_err env = Some e \<Longrightarrow> exec_call memStore env t c m = (Inl e, m)"
  by (cases c) (simp_all add: reply_def with_ctx_def memStore_defs)

lemma refines_done: "env_err env = Some e \<Longrightarrow> store_inv m \<Longrightarrow> refines env t c m"
  by (simp add: refines_def exec_done spec_call_def)

lemma refines_reader:
  assumes "env_err env = None" "store_inv m"
    and "exec_call memStore env t c m = (fst (spec_body env t c (mem_view t m)), m)"
    and "snd (spec_body env t c (mem_view t m)) = mem_view t m"
  shows "refines env t c m"
  using assms by (simp add: refines_def spec_call_def)

lemma refines_writer:
  assumes "env_err env = None" "exec_call memStore env t c m = (r, m')"
    "fst (spec_body env t c (mem_view t m)) = r" "mem_view t m' = snd (spec_body env t c (mem_view t m))"
    "\<And>t'. t' \<noteq> t \<Longrightarrow> mem_view t' m' = mem_view t' m" "store_inv m'"
  shows "refines env t c m"
  using assms by (simp add: refines_def spec_call_def)

subsection \<open>Readers\<close>

lemma refines_get: "env_err env = None \<Longrightarrow> store_inv m \<Longrightarrow> refines env t (CallGet iid) m"
  by (rule refines_reader)
    (auto simp: reply_def with_ctx_def memStore_GetConnectorInstance_def ownedInstance_view split: option.splits)

lemma view_sync_owned:
  assumes "store_inv m" "v_insts (mem_view t m) iid = Some inst"
  shows "v_syncs (mem_view t m) iid = tbl_get (ms_syncs m) iid"
  using assms store_inv_sync(2) [OF assms(1), of iid]
  by (cases "tbl_get (ms_syncs m) iid") (auto simp: mem_view_def mine_eq_Some)

lemma refines_get_sync: "env_err env = None \<Longrightarrow> store_inv m \<Longrightarrow> refines env t (CallGetSync iid) m"
  by (rule refines_reader)
    (auto simp: reply_def with_ctx_def memStore_GetSyncState_def ownedInstance_view view_sync_owned
      split: option.splits)

lemma refines_get_token: "env_err env = None \<Longrightarrow> store_inv m \<Longrightarrow> refines env t (CallGetToken iid) m"
  by (rule refines_reader)
    (auto simp: reply_def with_ctx_def memStore_GetToken_def mem_view_def split: option.splits)

lemma refines_count: "env_err env = None \<Longrightarrow> store_inv m \<Longrightarrow> refines env t CallCount m"
  by (rule refines_reader)
    (simp_all add: reply_def with_ctx_def memStore_CountConnectorInstances_def count_owned_view)

lemma refines_personalization:
  "env_err env = None \<Longrightarrow> store_inv m \<Longrightarrow> refines env t CallGetPersonalization m"
  by (rule refines_reader)
    (simp_all add: reply_def with_ctx_def memStore_GetPersonalization_def prefs_of_def weights_of_def mem_view_def)

text \<open>The residue check looks at the tenant row, instances, tokens and personalization rows. Sync
  states hang off instances, so under the invariant it holds exactly of a tenant with no rows.\<close>

lemma mine_empty_iff:
  assumes "wf_table tab"
  shows "(\<forall>k. mine f t (tbl_get tab k) = None) \<longleftrightarrow> \<not> list_ex (\<lambda>(k, v). f v = t) tab"
proof
  assume none: "\<forall>k. mine f t (tbl_get tab k) = None"
  show "\<not> list_ex (\<lambda>(k, v). f v = t) tab"
  proof
    assume "list_ex (\<lambda>(k, v). f v = t) tab"
    then obtain k v where "(k, v) \<in> set tab" "f v = t" by (auto simp: list_ex_iff)
    with assms have "mine f t (tbl_get tab k) = Some v" by (simp add: in_set_get)
    with none show False by simp
  qed
next
  assume none: "\<not> list_ex (\<lambda>(k, v). f v = t) tab"
  show "\<forall>k. mine f t (tbl_get tab k) = None"
  proof
    fix k
    show "mine f t (tbl_get tab k) = None"
      using none get_in_set [of tab k] by (cases "tbl_get tab k") (auto simp: list_ex_iff)
  qed
qed

lemma view_empty_iff:
  assumes "store_inv m"
  shows "mem_view t m = empty_view \<longleftrightarrow>
     t \<notin> keys (ms_tenants m) \<and> \<not> list_ex (\<lambda>(iid, inst). ci_TenantID inst = t) (ms_instances m) \<and>
     \<not> list_ex (\<lambda>(iid, tok). mt_tenantID tok = t) (ms_tokens m) \<and>
     t \<notin> keys (ms_prefs m) \<and> t \<notin> keys (ms_weights m) \<and> feedback_of m t = []"
proof -
  have syncs: "mine ss_TenantID t (tbl_get (ms_syncs m) iid) = None"
    if "\<forall>iid. mine ci_TenantID t (tbl_get (ms_instances m) iid) = None" for iid
    using spec [OF that, of iid] store_inv_sync(2) [OF assms, of iid]
    by (cases "tbl_get (ms_syncs m) iid") auto
  have "mem_view t m = empty_view \<longleftrightarrow>
      tbl_get (ms_tenants m) t = None \<and> (\<forall>iid. mine ci_TenantID t (tbl_get (ms_instances m) iid) = None) \<and>
      (\<forall>iid. mine mt_tenantID t (tbl_get (ms_tokens m) iid) = None) \<and>
      tbl_get (ms_prefs m) t = None \<and> tbl_get (ms_weights m) t = None \<and> feedback_of m t = []"
    using syncs by (simp add: mem_view_def empty_view_def fun_eq_iff) blast
  then show ?thesis
    unfolding get_None_iff mine_empty_iff [OF store_inv_wf(2) [OF assms]]
      mine_empty_iff [OF store_inv_wf(4) [OF assms]] .
qed

lemma refines_residue: "env_err env = None \<Longrightarrow> store_inv m \<Longrightarrow> refines env t CallResidue m"
  by (rule refines_reader)
    (auto simp: reply_def with_ctx_def memStore_TenantResidue_def view_empty_iff)

subsection \<open>Writers\<close>

lemma view_register:
  "mem_view t' (register t now m) = (if t' = t then v_register now (mem_view t m) else mem_view t' m)"
  using get_None_iff [of "ms_tenants m" t]
  by (cases "tbl_has t (ms_tenants m)") (simp_all add: register_def mem_view_def v_register_def feedback_of_def)

lemma register_fields [simp]:
  "ms_instances (register t now m) = ms_instances m" "ms_syncs (register t now m) = ms_syncs m"
  "ms_tokens (register t now m) = ms_tokens m" "ms_prefs (register t now m) = ms_prefs m"
  "ms_weights (register t now m) = ms_weights m" "ms_feedback (register t now m) = ms_feedback m"
  by (simp_all add: register_def)

lemma register_keys [simp]: "keys (ms_tenants (register t now m)) = insert t (keys (ms_tenants m))"
  by (auto simp: register_def)

lemma inv_register: "store_inv m \<Longrightarrow> store_inv (register t now m)"
  unfolding store_inv_def register_keys register_fields by (auto simp: register_def)

lemma refines_ensure: "env_err env = None \<Longrightarrow> store_inv m \<Longrightarrow> refines env t CallEnsureTenant m"
proof (cases "tbl_get (ms_tenants m) t")
  case None
  assume live: "env_err env = None" and inv: "store_inv m"
  show ?thesis
  proof (rule refines_writer [where m' = "register t (env_now env 0) m", OF live])
    show "exec_call memStore env t CallEnsureTenant m =
        (Inr (RTenant \<lparr>tn_ID = t, tn_CreatedAt = env_now env 0\<rparr>), register t (env_now env 0) m)"
      using live None get_None_iff [of "ms_tenants m" t]
      by (simp add: reply_def with_ctx_def memStore_EnsureTenant_def register_def)
  qed (use None inv in \<open>auto simp: view_register v_register_def inv_register, auto simp: mem_view_def\<close>)
next
  case (Some created)
  assume "env_err env = None" "store_inv m"
  with Some show ?thesis
    by (intro refines_reader) (auto simp: reply_def with_ctx_def memStore_EnsureTenant_def mem_view_def)
qed

lemma view_updates:
  "mem_view t (m\<lparr>ms_prefs := P\<rparr>) = (mem_view t m)\<lparr>v_prefs := tbl_get P t\<rparr>"
  "mem_view t (m\<lparr>ms_weights := W\<rparr>) = (mem_view t m)\<lparr>v_weights := tbl_get W t\<rparr>"
  "mem_view t (m\<lparr>ms_feedback := F\<rparr>) =
     (mem_view t m)\<lparr>v_feedback := (case tbl_get F t of None \<Rightarrow> [] | Some evs \<Rightarrow> evs)\<rparr>"
  "mem_view t (m\<lparr>ms_syncs := Y\<rparr>) = (mem_view t m)\<lparr>v_syncs := (\<lambda>iid. mine ss_TenantID t (tbl_get Y iid))\<rparr>"
  "mem_view t (m\<lparr>ms_tokens := K\<rparr>) =
     (mem_view t m)\<lparr>v_toks := (\<lambda>iid. map_option mt_ciphertext (mine mt_tenantID t (tbl_get K iid)))\<rparr>"
  "mem_view t (m\<lparr>ms_instances := I\<rparr>) =
     (mem_view t m)\<lparr>v_insts := (\<lambda>iid. mine ci_TenantID t (tbl_get I iid))\<rparr>"
  by (simp_all add: mem_view_def feedback_of_def)

lemma v_register_fields [simp]:
  "v_insts (v_register now v) = v_insts v" "v_syncs (v_register now v) = v_syncs v"
  "v_toks (v_register now v) = v_toks v" "v_prefs (v_register now v) = v_prefs v"
  "v_weights (v_register now v) = v_weights v" "v_feedback (v_register now v) = v_feedback v"
  by (simp_all add: v_register_def)

lemma view_fields:
  "v_prefs (mem_view t m) = tbl_get (ms_prefs m) t" "v_weights (mem_view t m) = tbl_get (ms_weights m) t"
  "v_feedback (mem_view t m) = feedback_of m t" "v_created (mem_view t m) = tbl_get (ms_tenants m) t"
  "v_insts (mem_view t m) = (\<lambda>iid. mine ci_TenantID t (tbl_get (ms_instances m) iid))"
  "v_syncs (mem_view t m) = (\<lambda>iid. mine ss_TenantID t (tbl_get (ms_syncs m) iid))"
  "v_toks (mem_view t m) = (\<lambda>iid. map_option mt_ciphertext (mine mt_tenantID t (tbl_get (ms_tokens m) iid)))"
  by (simp_all add: mem_view_def)

text \<open>Overwriting a component of a view with what it already holds.\<close>

lemma view_same [simp]:
  "v\<lparr>v_prefs := v_prefs v\<rparr> = v" "v\<lparr>v_weights := v_weights v\<rparr> = v" "v\<lparr>v_feedback := v_feedback v\<rparr> = v"
  "v\<lparr>v_syncs := v_syncs v\<rparr> = v" "v\<lparr>v_toks := v_toks v\<rparr> = v" "v\<lparr>v_insts := v_insts v\<rparr> = v"
  by simp_all

lemma inv_personal:
  "store_inv m \<Longrightarrow> wf_table P \<Longrightarrow> keys P \<subseteq> keys (ms_tenants m) \<Longrightarrow> store_inv (m\<lparr>ms_prefs := P\<rparr>)"
  "store_inv m \<Longrightarrow> wf_table W \<Longrightarrow> keys W \<subseteq> keys (ms_tenants m) \<Longrightarrow> store_inv (m\<lparr>ms_weights := W\<rparr>)"
  "store_inv m \<Longrightarrow> wf_table F \<Longrightarrow> keys F \<subseteq> keys (ms_tenants m) \<Longrightarrow> store_inv (m\<lparr>ms_feedback := F\<rparr>)"
  by (simp_all add: store_inv_def)

lemma inv_personal_keys:
  assumes "store_inv m"
  shows "keys (ms_prefs m) \<subseteq> insert t (keys (ms_tenants m))"
    "keys (ms_weights m) \<subseteq> insert t (keys (ms_tenants m))"
    "keys (ms_feedback m) \<subseteq> insert t (keys (ms_tenants m))"
  using assms by (auto simp: store_inv_def)

lemma view_personal_other:
  "(mem_view t m)\<lparr>v_prefs := tbl_get (ms_prefs m) t\<rparr> = mem_view t m"
  "(mem_view t m)\<lparr>v_weights := tbl_get (ms_weights m) t\<rparr> = mem_view t m"
  "(mem_view t m)\<lparr>v_feedback := (case tbl_get (ms_feedback m) t of None \<Rightarrow> [] | Some evs \<Rightarrow> evs)\<rparr> = mem_view t m"
  by (simp_all add: mem_view_def feedback_of_def)

lemmas personalization_simps = reply_def with_ctx_def Let_def prefs_of_def weights_of_def feedback_of_def
  view_updates view_register view_fields inv_personal inv_personal_keys inv_register
  view_personal_other store_inv_wf

lemma refines_put_preferences:
  "env_err env = None \<Longrightarrow> store_inv m \<Longrightarrow> refines env t (CallPutPreferences j) m"
  by (rule refines_writer [OF _ surjective_pairing])
    (simp_all add: memStore_PutPreferences_def personalization_simps)

lemma refines_append_feedback:
  "env_err env = None \<Longrightarrow> store_inv m \<Longrightarrow> refines env t (CallAppendFeedback ev) m"
  by (rule refines_writer [OF _ surjective_pairing])
    (simp_all add: memStore_AppendFeedback_def personalization_simps)

lemma refines_update_weights:
  "env_err env = None \<Longrightarrow> store_inv m \<Longrightarrow> refines env t (CallUpdateWeights u) m"
  by (rule refines_writer [OF _ surjective_pairing])
    (auto simp: memStore_UpdateLearnedWeights_def personalization_simps split: sum.splits prod.splits)

lemma refines_reset: "env_err env = None \<Longrightarrow> store_inv m \<Longrightarrow> refines env t CallResetLearning m"
proof (rule refines_writer [OF _ surjective_pairing])
  assume "env_err env = None" "store_inv m"
  then show "store_inv (snd (exec_call memStore env t CallResetLearning m))"
    by (auto simp: memStore_ResetLearning_def reply_def with_ctx_def store_inv_def)
qed (simp_all add: memStore_ResetLearning_def reply_def with_ctx_def mem_view_def feedback_of_def)

subsection \<open>Instances, sync states and tokens\<close>

text \<open>Rows that hang off an instance belong to the instance's owner.\<close>

lemma other_rows_None:
  assumes "store_inv m" "v_insts (mem_view t m) iid = Some inst" "t' \<noteq> t"
  shows "mine ci_TenantID t' (tbl_get (ms_instances m) iid) = None"
    and "mine ss_TenantID t' (tbl_get (ms_syncs m) iid) = None"
    and "mine mt_tenantID t' (tbl_get (ms_tokens m) iid) = None"
proof -
  from assms(2) have inst: "tbl_get (ms_instances m) iid = Some inst" "ci_TenantID inst = t"
    by (auto simp: mem_view_def mine_eq_Some)
  with assms(3) show "mine ci_TenantID t' (tbl_get (ms_instances m) iid) = None" by simp
  show "mine ss_TenantID t' (tbl_get (ms_syncs m) iid) = None"
    using inst assms(3) store_inv_sync(2) [OF assms(1), of iid] by (cases "tbl_get (ms_syncs m) iid") auto
  show "mine mt_tenantID t' (tbl_get (ms_tokens m) iid) = None"
    using inst assms(3) store_inv_tok [OF assms(1), of iid] by (cases "tbl_get (ms_tokens m) iid") auto
qed

lemma inv_put_sync:
  assumes "store_inv m" "v_insts (mem_view t m) (ss_InstanceID st) = Some inst" "ss_TenantID st = t"
  shows "store_inv (m\<lparr>ms_syncs := tbl_put (ss_InstanceID st) st (ms_syncs m)\<rparr>)"
  using assms by (auto simp: store_inv_def mem_view_def mine_eq_Some)

lemma inv_put_token:
  assumes "store_inv m" "v_insts (mem_view t m) iid = Some inst" "mt_tenantID tok = t"
  shows "store_inv (m\<lparr>ms_tokens := tbl_put iid tok (ms_tokens m)\<rparr>)"
  using assms by (auto simp: store_inv_def mem_view_def mine_eq_Some)

lemma inv_del_token: "store_inv m \<Longrightarrow> store_inv (m\<lparr>ms_tokens := tbl_del iid (ms_tokens m)\<rparr>)"
  by (auto simp: store_inv_def split: if_splits)

lemma inv_del_instance:
  "store_inv m \<Longrightarrow> store_inv (m\<lparr>ms_instances := tbl_del iid (ms_instances m),
     ms_syncs := tbl_del iid (ms_syncs m), ms_tokens := tbl_del iid (ms_tokens m)\<rparr>)"
  by (auto simp: store_inv_def split: if_splits)

lemma inv_put_instance:
  assumes "store_inv m" "ci_TenantID inst \<in> keys (ms_tenants m)" "iid \<notin> keys (ms_instances m)" "ci_ID inst = iid"
  shows "store_inv (m\<lparr>ms_instances := tbl_put iid inst (ms_instances m)\<rparr>)"
proof -
  have none: "tbl_get (ms_instances m) iid = None" using assms(3) by (simp add: get_None_iff)
  with assms store_inv_sync(2) [OF assms(1), of iid] store_inv_tok [OF assms(1), of iid] show ?thesis
    by (auto simp: store_inv_def)
qed

lemma refines_set_sync: "env_err env = None \<Longrightarrow> store_inv m \<Longrightarrow> refines env t (CallSetSync st) m"
proof (cases "v_insts (mem_view t m) (ss_InstanceID st)")
  case (Some inst)
  assume live: "env_err env = None" and inv: "store_inv m"
  let ?st = "st\<lparr>ss_TenantID := t\<rparr>"
  let ?m' = "m\<lparr>ms_syncs := tbl_put (ss_InstanceID st) ?st (ms_syncs m)\<rparr>"
  show ?thesis
  proof (rule refines_writer [where m' = ?m', OF live])
    show "exec_call memStore env t (CallSetSync st) m = (Inr (RSync ?st), ?m')"
      using live Some by (simp add: reply_def with_ctx_def memStore_SetSyncState_def ownedInstance_view Let_def)
    show "store_inv ?m'" using inv_put_sync [OF inv, of t ?st inst] Some by simp
    show "mem_view t' ?m' = mem_view t' m" if "t' \<noteq> t" for t'
      using other_rows_None(2) [OF inv Some that] that by (auto simp: mem_view_def fun_eq_iff feedback_of_def)
  qed (use Some in \<open>auto simp: view_updates view_fields fun_eq_iff\<close>)
qed (rule refines_reader, simp_all add: reply_def with_ctx_def memStore_SetSyncState_def ownedInstance_view)

lemma refines_put_token: "env_err env = None \<Longrightarrow> store_inv m \<Longrightarrow> refines env t (CallPutToken iid ct) m"
proof (cases "v_insts (mem_view t m) iid")
  case (Some inst)
  assume live: "env_err env = None" and inv: "store_inv m"
  let ?m' = "m\<lparr>ms_tokens := tbl_put iid \<lparr>mt_tenantID = t, mt_ciphertext = ct\<rparr> (ms_tokens m)\<rparr>"
  show ?thesis
  proof (rule refines_writer [where m' = ?m', OF live])
    show "exec_call memStore env t (CallPutToken iid ct) m = (Inr RUnit, ?m')"
      using live Some by (simp add: reply_def with_ctx_def memStore_PutToken_def ownedInstance_view)
    show "store_inv ?m'" using inv_put_token [OF inv Some] by simp
    show "mem_view t' ?m' = mem_view t' m" if "t' \<noteq> t" for t'
      using other_rows_None(3) [OF inv Some that] that by (auto simp: mem_view_def fun_eq_iff feedback_of_def)
  qed (use Some in \<open>auto simp: view_updates view_fields fun_eq_iff\<close>)
qed (rule refines_reader, simp_all add: reply_def with_ctx_def memStore_PutToken_def ownedInstance_view)

lemma refines_delete_token: "env_err env = None \<Longrightarrow> store_inv m \<Longrightarrow> refines env t (CallDeleteToken iid) m"
proof (cases "mine mt_tenantID t (tbl_get (ms_tokens m) iid)")
  case None
  assume "env_err env = None" "store_inv m"
  with None show ?thesis
    by (intro refines_reader)
      (auto simp: reply_def with_ctx_def memStore_DeleteToken_def view_fields split: option.splits if_splits)
next
  case (Some tok)
  assume live: "env_err env = None" and inv: "store_inv m"
  let ?m' = "m\<lparr>ms_tokens := tbl_del iid (ms_tokens m)\<rparr>"
  show ?thesis
  proof (rule refines_writer [where m' = ?m', OF live])
    show "exec_call memStore env t (CallDeleteToken iid) m = (Inr RUnit, ?m')"
      using live Some by (auto simp: reply_def with_ctx_def memStore_DeleteToken_def mine_eq_Some)
    show "store_inv ?m'" using inv by (rule inv_del_token)
    show "mem_view t' ?m' = mem_view t' m" if "t' \<noteq> t" for t'
      using Some that by (auto simp: mem_view_def fun_eq_iff mine_eq_Some feedback_of_def)
  qed (use Some in \<open>auto simp: view_updates view_fields fun_eq_iff\<close>)
qed

lemma refines_delete: "env_err env = None \<Longrightarrow> store_inv m \<Longrightarrow> refines env t (CallDelete iid) m"
proof (cases "v_insts (mem_view t m) iid")
  case (Some inst)
  assume live: "env_err env = None" and inv: "store_inv m"
  let ?m' = "m\<lparr>ms_instances := tbl_del iid (ms_instances m), ms_syncs := tbl_del iid (ms_syncs m),
    ms_tokens := tbl_del iid (ms_tokens m)\<rparr>"
  show ?thesis
  proof (rule refines_writer [where m' = ?m', OF live])
    show "exec_call memStore env t (CallDelete iid) m = (Inr RUnit, ?m')"
      using live Some by (simp add: reply_def with_ctx_def memStore_DeleteConnectorInstance_def ownedInstance_view)
    show "store_inv ?m'" using inv by (rule inv_del_instance)
    show "mem_view t' ?m' = mem_view t' m" if "t' \<noteq> t" for t'
      using other_rows_None [OF inv Some that] by (auto simp: mem_view_def fun_eq_iff feedback_of_def)
  qed (use Some in \<open>auto simp: view_updates view_fields fun_eq_iff\<close>)
qed (rule refines_reader, simp_all add: reply_def with_ctx_def memStore_DeleteConnectorInstance_def ownedInstance_view)

lemma refines_create:
  assumes live: "env_err env = None" and inv: "store_inv m" and fresh: "env_uuid env \<notin> keys (ms_instances m)"
  shows "refines env t (CallCreate inst mx) m"
proof (cases "mx > 0 \<and> int (card (dom (v_insts (mem_view t m)))) \<ge> mx")
  case True
  with live inv show ?thesis
    by (intro refines_reader) (auto simp: reply_def with_ctx_def memStore_CreateConnectorInstance_def count_owned_view)
next
  case False
  let ?now = "env_now env (if v_created (mem_view t m) = None then 1 else 0)"
  let ?i = "inst\<lparr>ci_TenantID := t, ci_ID := env_uuid env, ci_CreatedAt := ?now, ci_UpdatedAt := ?now\<rparr>"
  let ?m1 = "register t (env_now env 0) m"
  let ?m' = "?m1\<lparr>ms_instances := tbl_put (env_uuid env) ?i (ms_instances ?m1)\<rparr>"
  have none: "tbl_get (ms_instances m) (env_uuid env) = None" using fresh by (simp add: get_None_iff)
  have reg: "t \<in> keys (ms_tenants m) \<longleftrightarrow> v_created (mem_view t m) \<noteq> None"
    by (simp add: view_fields get_None_iff)
  show ?thesis
  proof (rule refines_writer [where m' = ?m', OF live])
    show "exec_call memStore env t (CallCreate inst mx) m = (Inr (RInstance ?i), ?m')"
      using live False reg
      by (auto simp: reply_def with_ctx_def memStore_CreateConnectorInstance_def count_owned_view [OF inv] Let_def)
    show "store_inv ?m'"
      by (rule inv_put_instance) (use fresh inv_register [OF inv] in auto)
    show "mem_view t' ?m' = mem_view t' m" if "t' \<noteq> t" for t'
    proof -
      have "mem_view t' ?m' = (mem_view t' ?m1)\<lparr>v_insts := v_insts (mem_view t' ?m1)\<rparr>"
        unfolding view_updates using none that by (simp add: view_fields fun_eq_iff)
      then show ?thesis using that by (simp add: view_register)
    qed
    show "fst (spec_body env t (CallCreate inst mx) (mem_view t m)) = Inr (RInstance ?i)"
      using False by (auto simp: Let_def)
    show "mem_view t ?m' = snd (spec_body env t (CallCreate inst mx) (mem_view t m))"
      using False by (auto simp: Let_def view_updates view_register view_fields fun_eq_iff)
  qed
qed

subsection \<open>Listing\<close>

lemma sort_key_unique:
  assumes "inj_on f (set xs)" "distinct xs"
  shows "map f (sort_key f xs) = sorted_list_of_set (f ` set xs)"
proof -
  have "sorted (map f (sort_key f xs))" by simp
  moreover have "distinct (map f (sort_key f xs))" using assms by (simp add: distinct_map)
  ultimately have "sorted_list_of_set (set (map f (sort_key f xs))) = map f (sort_key f xs)"
    by (metis sorted_list_of_set.idem_if_sorted_distinct strict_sorted_iff)
  then show ?thesis by simp
qed

lemma view_list:
  assumes inv: "store_inv m"
  shows "sort_key (\<lambda>i. (ci_CreatedAt i, ci_ID i)) (filter (owned_by t) (map snd (ms_instances m)))
    = insts_in_order (v_insts (mem_view t m))"
proof -
  let ?f = "v_insts (mem_view t m)"
  let ?key = "\<lambda>i. (ci_CreatedAt i, ci_ID i)"
  let ?xs = "filter (owned_by t) (map snd (ms_instances m))"
  have own: "i \<in> set ?xs \<longleftrightarrow> (\<exists>iid. ?f iid = Some i)" for i
    using store_inv_wf(2) [OF inv]
    by (force simp: view_fields mine_eq_Some owned_by_def set_get_iff [symmetric])
  have id: "?f iid = Some i \<Longrightarrow> ci_ID i = iid" for i iid
    using store_inv_inst(1) [OF inv] by (auto simp: view_fields mine_eq_Some)
  have inj: "inj_on ci_ID (set (map snd (ms_instances m)))"
  proof (rule inj_onI)
    fix i j assume "i \<in> set (map snd (ms_instances m))" "j \<in> set (map snd (ms_instances m))" and eq: "ci_ID i = ci_ID j"
    then obtain k l where "(k, i) \<in> set (ms_instances m)" "(l, j) \<in> set (ms_instances m)" by auto
    then have "tbl_get (ms_instances m) k = Some i" "tbl_get (ms_instances m) l = Some j"
      using store_inv_wf(2) [OF inv] by (auto intro: in_set_get)
    with eq store_inv_inst(1) [OF inv] show "i = j" by (metis option.inject)
  qed
  have "distinct (map snd (ms_instances m))"
  proof -
    have "map ci_ID (map snd (ms_instances m)) = map fst (ms_instances m)"
      using store_inv_inst(1) [OF inv] in_set_get [OF store_inv_wf(2) [OF inv]] by (auto simp: map_eq_conv)
    then show ?thesis using store_inv_wf(2) [OF inv] by (metis distinct_map)
  qed
  then have dist: "distinct ?xs" by simp
  have injk: "inj_on ?key (set ?xs)" using inj by (auto simp: inj_on_def)
  have set: "?key ` set ?xs = {(ci_CreatedAt i, iid) | i iid. ?f iid = Some i}"
    using own id by (auto simp: image_iff)
  have "insts_in_order ?f = map (\<lambda>(c, iid). the (?f iid)) (map ?key (sort_key ?key ?xs))"
    unfolding insts_in_order_def by (simp only: sort_key_unique [OF injk dist] set)
  also have "\<dots> = map (\<lambda>i. the (?f (ci_ID i))) (sort_key ?key ?xs)"
    by (simp add: comp_def)
  also have "\<dots> = sort_key ?key ?xs"
  proof (rule map_idI)
    fix i assume "i \<in> set (sort_key ?key ?xs)"
    then obtain iid where "?f iid = Some i" using own [of i] by auto
    with id show "the (?f (ci_ID i)) = i" by force
  qed
  finally show ?thesis by simp
qed

lemma refines_list: "env_err env = None \<Longrightarrow> store_inv m \<Longrightarrow> refines env t CallList m"
  by (rule refines_reader)
    (simp_all add: reply_def with_ctx_def memStore_ListConnectorInstances_def view_list [symmetric])

subsection \<open>Purging\<close>

lemma purge_tokens_count:
  assumes inv: "store_inv m"
  shows "length (filter (\<lambda>iid. case tbl_get (ms_tokens m) iid of None \<Rightarrow> False | Some tok \<Rightarrow> mt_tenantID tok = t)
           (map fst (filter (\<lambda>(iid, inst). ci_TenantID inst = t) (ms_instances m))))
         = card (dom (v_toks (mem_view t m)))"
proof -
  let ?ids = "map fst (filter (\<lambda>(iid, inst). ci_TenantID inst = t) (ms_instances m))"
  let ?P = "\<lambda>iid. case tbl_get (ms_tokens m) iid of None \<Rightarrow> False | Some tok \<Rightarrow> mt_tenantID tok = t"
  have "distinct (filter ?P ?ids)" using store_inv_wf(2) [OF inv] by (simp add: distinct_map_filter)
  then have "length (filter ?P ?ids) = card (set (filter ?P ?ids))"
    by (rule distinct_card [symmetric])
  also have "set (filter ?P ?ids) = dom (v_toks (mem_view t m))"
  proof (rule set_eqI)
    fix iid
    have "iid \<in> set ?ids \<longleftrightarrow> (\<exists>inst. tbl_get (ms_instances m) iid = Some inst \<and> ci_TenantID inst = t)"
      by (force simp: set_get_iff [OF store_inv_wf(2) [OF inv], symmetric])
    then show "iid \<in> set (filter ?P ?ids) \<longleftrightarrow> iid \<in> dom (v_toks (mem_view t m))"
      using store_inv_tok [OF inv, of iid]
      by (cases "tbl_get (ms_tokens m) iid") (auto simp: view_fields dom_def)
  qed
  finally show ?thesis .
qed

definition purged :: "tenant_id \<Rightarrow> mem_store \<Rightarrow> mem_store" where
  "purged t m = snd (memStore_PurgeTenant \<lparr>env_err = None, env_now = (\<lambda>_. 0), env_uuid = []\<rparr> t m)"

lemma owned_ids:
  assumes "store_inv m"
  shows "iid \<in> set (map fst (filter (\<lambda>(iid, inst). ci_TenantID inst = t) (ms_instances m))) \<longleftrightarrow>
    (\<exists>inst. tbl_get (ms_instances m) iid = Some inst \<and> ci_TenantID inst = t)"
  by (force simp: set_get_iff [OF store_inv_wf(2) [OF assms], symmetric])

lemma purged_tables:
  assumes "store_inv m"
  shows "tbl_get (ms_instances (purged t m)) iid =
      (case tbl_get (ms_instances m) iid of None \<Rightarrow> None | Some i \<Rightarrow> if ci_TenantID i \<noteq> t then Some i else None)"
    and "tbl_get (ms_syncs (purged t m)) iid =
      (case tbl_get (ms_syncs m) iid of None \<Rightarrow> None | Some st \<Rightarrow> if ss_TenantID st \<noteq> t then Some st else None)"
    and "tbl_get (ms_tokens (purged t m)) iid =
      (case tbl_get (ms_tokens m) iid of None \<Rightarrow> None | Some k \<Rightarrow> if mt_tenantID k \<noteq> t then Some k else None)"
    and "ms_tenants (purged t m) = tbl_del t (ms_tenants m)"
    and "ms_prefs (purged t m) = tbl_del t (ms_prefs m)"
    and "ms_weights (purged t m) = tbl_del t (ms_weights m)"
    and "ms_feedback (purged t m) = tbl_del t (ms_feedback m)"
    and "wf_table (ms_instances (purged t m))" "wf_table (ms_syncs (purged t m))" "wf_table (ms_tokens (purged t m))"
proof -
  note [simp] = purged_def memStore_PurgeTenant_def with_ctx_def Let_def
  note wf = store_inv_wf [OF assms]
  show "tbl_get (ms_instances (purged t m)) iid =
      (case tbl_get (ms_instances m) iid of None \<Rightarrow> None | Some i \<Rightarrow> if ci_TenantID i \<noteq> t then Some i else None)"
    by (simp add: tbl_get_keep [OF wf(2)])
  show "tbl_get (ms_syncs (purged t m)) iid =
      (case tbl_get (ms_syncs m) iid of None \<Rightarrow> None | Some st \<Rightarrow> if ss_TenantID st \<noteq> t then Some st else None)"
    using store_inv_sync(2) [OF assms, of iid] owned_ids [OF assms, of iid t]
    by (cases "tbl_get (ms_syncs m) iid") (auto simp: tbl_get_keep [OF wf(3)])
  show "tbl_get (ms_tokens (purged t m)) iid =
      (case tbl_get (ms_tokens m) iid of None \<Rightarrow> None | Some k \<Rightarrow> if mt_tenantID k \<noteq> t then Some k else None)"
    using store_inv_tok [OF assms, of iid] owned_ids [OF assms, of iid t]
    by (cases "tbl_get (ms_tokens m) iid") (auto simp: tbl_get_keep [OF wf(4)])
qed (simp_all add: purged_def memStore_PurgeTenant_def with_ctx_def Let_def store_inv_wf [OF assms])

lemma view_purged:
  assumes "store_inv m"
  shows "mem_view t' (purged t m) = (if t' = t then empty_view else mem_view t' m)"
proof -
  have "mine ci_TenantID t' (tbl_get (ms_instances (purged t m)) iid) =
      (if t' = t then None else mine ci_TenantID t' (tbl_get (ms_instances m) iid))" for iid
    by (cases "tbl_get (ms_instances m) iid") (auto simp: purged_tables [OF assms])
  moreover have "mine ss_TenantID t' (tbl_get (ms_syncs (purged t m)) iid) =
      (if t' = t then None else mine ss_TenantID t' (tbl_get (ms_syncs m) iid))" for iid
    by (cases "tbl_get (ms_syncs m) iid") (auto simp: purged_tables [OF assms])
  moreover have "mine mt_tenantID t' (tbl_get (ms_tokens (purged t m)) iid) =
      (if t' = t then None else mine mt_tenantID t' (tbl_get (ms_tokens m) iid))" for iid
    by (cases "tbl_get (ms_tokens m) iid") (auto simp: purged_tables [OF assms])
  ultimately show ?thesis
    by (simp add: mem_view_def empty_view_def feedback_of_def purged_tables(4-7) [OF assms])
qed

lemma inv_purged:
  assumes "store_inv m"
  shows "store_inv (purged t m)"
proof -
  note inst = store_inv_inst [OF assms] and sync = store_inv_sync [OF assms] and tok = store_inv_tok [OF assms]
  have "ci_ID i = iid \<and> ci_TenantID i \<in> keys (ms_tenants (purged t m))"
    if "tbl_get (ms_instances (purged t m)) iid = Some i" for iid i
    using that inst [of iid] by (auto simp: purged_tables [OF assms] split: option.splits if_splits)
  moreover have "ss_InstanceID st = iid \<and>
      (\<exists>i. tbl_get (ms_instances (purged t m)) iid = Some i \<and> ci_TenantID i = ss_TenantID st)"
    if "tbl_get (ms_syncs (purged t m)) iid = Some st" for iid st
    using that sync [of iid] by (fastforce simp: purged_tables [OF assms] split: option.splits if_splits)
  moreover have "\<exists>i. tbl_get (ms_instances (purged t m)) iid = Some i \<and> ci_TenantID i = mt_tenantID k"
    if "tbl_get (ms_tokens (purged t m)) iid = Some k" for iid k
    using that tok [of iid] by (fastforce simp: purged_tables [OF assms] split: option.splits if_splits)
  moreover have "keys (ms_prefs m) - {t} \<subseteq> keys (ms_tenants m) - {t}"
      "keys (ms_weights m) - {t} \<subseteq> keys (ms_tenants m) - {t}"
      "keys (ms_feedback m) - {t} \<subseteq> keys (ms_tenants m) - {t}"
    using assms by (auto simp: store_inv_def)
  ultimately show ?thesis
    unfolding store_inv_def
    by (simp add: purged_tables(4-10) [OF assms] store_inv_wf [OF assms])
qed

lemma PurgeTenant_eq:
  assumes "store_inv m" "env_err env = None"
  shows "memStore_PurgeTenant env t m =
    (Inr \<lparr>pc_ConnectorInstances = card (dom (v_insts (mem_view t m))),
          pc_Tokens = card (dom (v_toks (mem_view t m)))\<rparr>, purged t m)"
  using assms(2) purge_tokens_count [OF assms(1), of t]
    card_dom_mine [OF store_inv_wf(2) [OF assms(1)], of ci_TenantID t]
  by (simp add: memStore_PurgeTenant_def purged_def with_ctx_def Let_def view_fields)

lemma refines_purge: "env_err env = None \<Longrightarrow> store_inv m \<Longrightarrow> refines env t CallPurge m"
  by (rule refines_writer [where m' = "purged t m"])
    (simp_all add: PurgeTenant_eq reply_def view_purged inv_purged)

section \<open>The contract holds\<close>

lemma memStore_refines:
  assumes "store_inv m" and "is_create c \<Longrightarrow> env_uuid env \<notin> keys (ms_instances m)"
  shows "refines env t c m"
proof (cases "env_err env")
  case None
  with assms show ?thesis
    by (cases c) (simp_all add: refines_ensure refines_create refines_list refines_get refines_delete
        refines_get_sync refines_set_sync refines_put_token refines_get_token refines_delete_token
        refines_count refines_purge refines_residue refines_personalization refines_put_preferences
        refines_append_feedback refines_update_weights refines_reset)
next
  case (Some e)
  then show ?thesis using assms(1) by (rule refines_done)
qed

lemma memStore_used:
  "keys (ms_instances (snd (exec_call memStore env t c m))) \<subseteq>
     (if is_create c then insert (env_uuid env) (keys (ms_instances m)) else keys (ms_instances m))"
proof (cases "env_err env")
  case None
  then show ?thesis
    using keys_keep_subset [of "\<lambda>iid inst. ci_TenantID inst \<noteq> t" "ms_instances m"]
    by (cases c) (auto simp: reply_def with_ctx_def memStore_defs Let_def split: option.splits sum.splits prod.splits)
next
  case (Some e)
  then show ?thesis by (auto simp: exec_done)
qed

interpretation ms: tenant_store memStore store_inv mem_view "\<lambda>m. keys (ms_instances m)"
proof unfold_locales
  fix env :: call_env and t c and m :: mem_store
  assume "store_inv m" "is_create c \<Longrightarrow> env_uuid env \<notin> keys (ms_instances m)"
  then have "refines env t c m" by (rule memStore_refines)
  then show "fst (exec_call memStore env t c m) = fst (spec_call env t c (mem_view t m))"
    and "mem_view t (snd (exec_call memStore env t c m)) = snd (spec_call env t c (mem_view t m))"
    and "store_inv (snd (exec_call memStore env t c m))"
    and "\<And>t'. t' \<noteq> t \<Longrightarrow> mem_view t' (snd (exec_call memStore env t c m)) = mem_view t' m"
    by (simp_all add: refines_def)
qed (rule memStore_used)

end
