(* ===== verification/Control_Store_Facts.thy ===== *)
theory Control_Store_Facts
  imports Control_Store_Mem
begin

text \<open>
  What the in-memory store guarantees its callers: tenant isolation over arbitrary interleavings of
  calls, the instance quota, erasure, read-your-writes, suspension and preference versions.
\<close>

section \<open>Sample data\<close>

text \<open>A call that succeeds at a given time, an instance as the handlers pass it to the store, and a
  trace in which two tenants create an instance each and one of them then tries to read, and purges.\<close>

definition sample_env :: "time \<Rightarrow> string \<Rightarrow> call_env" where
  "sample_env now uuid = \<lparr>env_err = None, env_now = (\<lambda>_. now), env_uuid = uuid\<rparr>"

definition sample_inst :: "tenant_id \<Rightarrow> string \<Rightarrow> time \<Rightarrow> ConnectorInstance" where
  "sample_inst t iid now = \<lparr>ci_ID = iid, ci_TenantID = t, ci_ConnectorID = ''gmail'', ci_DisplayName = ''Mail'',
     ci_ConfigJSON = ''{}'', ci_Status = ''ACTIVE'', ci_CreatedAt = now, ci_UpdatedAt = now\<rparr>"

definition sample_trace :: trace where
  "sample_trace =
     [(sample_env 1 ''i1'', ''a'', CallCreate (sample_inst ''a'' [] 0) 2),
      (sample_env 2 ''i2'', ''b'', CallCreate (sample_inst ''b'' [] 0) 2),
      (sample_env 3 [], ''b'', CallGet ''i1''),
      (sample_env 4 [], ''b'', CallPurge),
      (sample_env 5 [], ''a'', CallGet ''i1'')]"

definition sample_store :: mem_store where
  "sample_store = final_store memStore (take 2 sample_trace) newMemStore"

section \<open>Supporting facts\<close>

lemmas sample_defs = sample_trace_def sample_env_def sample_inst_def

lemma inv_newMemStore [simp]: "store_inv newMemStore"
  by (simp add: store_inv_def newMemStore_def)

lemma view_newMemStore [simp]: "mem_view t newMemStore = empty_view"
  by (simp add: mem_view_def newMemStore_def empty_view_def feedback_of_def mine_def)

lemma ids_newMemStore [simp]: "ms_instances newMemStore = []"
  by (simp add: newMemStore_def)

subsection \<open>The quota\<close>

definition within :: "tenant_id \<Rightarrow> int \<Rightarrow> tenant_id \<Rightarrow> store_call \<Rightarrow> bool" where
  "within t mx t' c = (case c of CallCreate inst k \<Rightarrow> t' = t \<longrightarrow> 0 < k \<and> k \<le> mx | _ \<Rightarrow> True)"

lemma register_instances [simp]: "ms_instances (register t now m) = ms_instances m"
  by (simp add: register_def)

lemma create_within:
  assumes "env_err env = None" "int (tbl_count (owned_by t) (ms_instances m)) \<le> mx"
    and "t' = t \<longrightarrow> 0 < k \<and> k \<le> mx"
  shows "int (tbl_count (owned_by t) (ms_instances
           (snd (memStore_CreateConnectorInstance env (inst\<lparr>ci_TenantID := t'\<rparr>) k m)))) \<le> mx"
proof -
  have put: "int (tbl_count (owned_by t) (tbl_put u v (ms_instances m))) \<le> mx"
    if "ci_TenantID v = t'" "t' = t \<longrightarrow> int (tbl_count (owned_by t) (ms_instances m)) < mx" for u v
  proof (cases "t' = t")
    case True
    with that count_put_le [of "owned_by t" u v "ms_instances m"] show ?thesis by linarith
  next
    case False
    with that have "\<not> owned_by t v" by (simp add: owned_by_def)
    from count_put_other [of "owned_by t", OF this, of u "ms_instances m"] assms(2) show ?thesis by linarith
  qed
  then show ?thesis
    using assms by (auto simp: memStore_CreateConnectorInstance_def with_ctx_def Let_def intro!: put)
qed

lemma call_within:
  assumes "within t mx t' c" "int (tbl_count (owned_by t) (ms_instances m)) \<le> mx"
  shows "int (tbl_count (owned_by t) (ms_instances (snd (exec_call memStore env t' c m)))) \<le> mx"
proof (cases "env_err env")
  case (Some e)
  with assms(2) show ?thesis by (simp add: exec_done)
next
  case None
  note del = order_trans [OF of_nat_mono [OF count_del_le] assms(2)]
    and keep = order_trans [OF of_nat_mono [OF count_keep_le] assms(2)]
  show ?thesis
  proof (cases c)
    case (CallCreate inst k)
    with assms None show ?thesis by (simp add: reply_def create_within within_def)
  qed (simp_all add: None assms(2) del keep reply_def with_ctx_def memStore_defs Let_def
      option.case_eq_if sum.case_eq_if case_prod_beta)
qed

lemma trace_within:
  assumes "\<And>env t' c. (env, t', c) \<in> set tr \<Longrightarrow> within t mx t' c"
    and "int (tbl_count (owned_by t) (ms_instances m)) \<le> mx"
  shows "int (tbl_count (owned_by t) (ms_instances (final_store memStore tr m))) \<le> mx"
  using assms
proof (induction tr arbitrary: m)
  case (Cons p tr)
  obtain env t' c where p: "p = (env, t', c)" using prod_cases3 by blast
  have "within t mx t' c" using Cons.prems(1) p by auto
  from call_within [OF this Cons.prems(2)]
  have "int (tbl_count (owned_by t) (ms_instances (final_store memStore tr (snd (exec_call memStore env t' c m))))) \<le> mx"
    using Cons.prems(1) by (intro Cons.IH) auto
  with p show ?case by simp
qed simp

subsection \<open>Suspension\<close>

lemma status_loop_get:
  "\<exists>u. tbl_get (fst (set_status_loop t status now n rows)) iid =
     map_option (\<lambda>i. if ci_TenantID i = t then i\<lparr>ci_Status := status, ci_UpdatedAt := u\<rparr> else i) (tbl_get rows iid)"
proof (induction rows arbitrary: n)
  case (Cons p rows)
  obtain iid' inst where p: "p = (iid', inst)" by fastforce
  show ?case
  proof (cases "iid' = iid")
    case True
    then show ?thesis
      by (intro exI [of _ "if ci_Status inst = status then ci_UpdatedAt inst else now n"])
        (auto simp: p case_prod_beta)
  next
    case False
    with Cons.IH [of n] Cons.IH [of "Suc n"] p show ?thesis by (simp add: case_prod_beta)
  qed
qed simp

lemma status_loop_keys: "map fst (fst (set_status_loop t status now n rows)) = map fst rows"
  by (induction t status now n rows rule: set_status_loop.induct) (auto simp: case_prod_beta)

lemma status_loop_settled:
  "list_all (\<lambda>(iid, i). ci_TenantID i = t \<longrightarrow> ci_Status i = status) rows \<Longrightarrow>
     set_status_loop t status now n rows = (rows, n)"
  by (induction t status now n rows rule: set_status_loop.induct) auto

lemma status_loop_settles:
  "list_all (\<lambda>(iid, i). ci_TenantID i = t \<longrightarrow> ci_Status i = status) (fst (set_status_loop t status now n rows))"
  by (induction t status now n rows rule: set_status_loop.induct) (auto simp: case_prod_beta)

lemma status_loop_count:
  "snd (set_status_loop t status now n rows) =
     n + tbl_count (\<lambda>i. ci_TenantID i = t \<and> ci_Status i \<noteq> status) rows"
  by (induction t status now n rows rule: set_status_loop.induct)
    (auto simp: tbl_count_def case_prod_beta)

lemma suspended_settled:
  assumes "list_all (\<lambda>(iid, i). ci_TenantID i = t \<longrightarrow> ci_Status i = ''PAUSED'') (ms_instances m)"
  shows "tu_Suspended (usageLocked m t c) = (0 < tbl_count (owned_by t) (ms_instances m))"
proof -
  let ?mine = "filter (\<lambda>(iid, i). ci_TenantID i = t) (ms_instances m)"
  have "filter (\<lambda>(iid, i). ci_Status i = ''PAUSED'') ?mine = ?mine"
    using assms by (auto simp: list_all_iff intro!: filter_cong)
  then show ?thesis by (simp add: usageLocked_def Let_def tbl_count_def owned_by_def del: filter_filter)
qed

lemma inv_status:
  assumes "store_inv m"
  shows "store_inv (m\<lparr>ms_instances := fst (set_status_loop t status now n (ms_instances m))\<rparr>)"
proof -
  let ?rows = "fst (set_status_loop t status now n (ms_instances m))"
  have get: "\<exists>i'. tbl_get ?rows iid = Some i' \<and> ci_ID i' = ci_ID i \<and> ci_TenantID i' = ci_TenantID i"
    if "tbl_get (ms_instances m) iid = Some i" for iid i
    using status_loop_get [of t status now n "ms_instances m" iid] that by auto
  have orig: "\<exists>i. tbl_get (ms_instances m) iid = Some i \<and> ci_ID i' = ci_ID i \<and> ci_TenantID i' = ci_TenantID i"
    if "tbl_get ?rows iid = Some i'" for iid i'
    using status_loop_get [of t status now n "ms_instances m" iid] that
    by (cases "tbl_get (ms_instances m) iid") (auto split: if_splits)
  note inst = store_inv_inst [OF assms] and sync = store_inv_sync [OF assms] and tok = store_inv_tok [OF assms]
  have "ci_ID i = iid \<and> ci_TenantID i \<in> keys (ms_tenants m)" if "tbl_get ?rows iid = Some i" for iid i
    using orig [OF that] inst [of iid] by auto
  moreover have "ss_InstanceID st = iid \<and> (\<exists>i. tbl_get ?rows iid = Some i \<and> ci_TenantID i = ss_TenantID st)"
    if "tbl_get (ms_syncs m) iid = Some st" for iid st
    using sync [OF that] get by metis
  moreover have "\<exists>i. tbl_get ?rows iid = Some i \<and> ci_TenantID i = mt_tenantID k"
    if "tbl_get (ms_tokens m) iid = Some k" for iid k
    using tok [OF that] get by metis
  ultimately show ?thesis
    using assms unfolding store_inv_def by (simp add: status_loop_keys)
qed

subsection \<open>Erasure\<close>

lemma keep_keep: "tbl_keep P (tbl_keep P t) = tbl_keep P t"
  by (simp add: tbl_keep_def)

lemma keep_all: "tbl_keep (\<lambda>_ _. True) t = t"
  by (simp add: tbl_keep_def case_prod_beta)

lemma purged_idem [simp]: "purged t (purged t m) = purged t m"
proof -
  have none: "{x \<in> set (tbl_keep (\<lambda>iid i. ci_TenantID i \<noteq> t) rows). case x of (iid, i) \<Rightarrow> ci_TenantID i = t} = {}" for rows
    by (auto simp: tbl_keep_def)
  show ?thesis
    by (simp add: purged_def memStore_PurgeTenant_def with_ctx_def Let_def keep_keep keep_all none)
qed

subsection \<open>Tokens\<close>

lemma PutToken_ok:
  assumes "store_inv m" "memStore_PutToken env t iid ct m = (Inr (), m1)"
  shows "store_inv m1" "ms_instances m1 = ms_instances m" "v_toks (mem_view t m1) iid = Some ct"
proof -
  have ok: "env_err env = None" "ownedInstance m t iid \<noteq> None" and
    m1: "m1 = snd (exec_call memStore env t (CallPutToken iid ct) m)"
    using assms(2) by (auto simp: memStore_PutToken_def with_ctx_def reply_def split: option.splits)
  show "store_inv m1" unfolding m1 by (rule ms.inv_kept) (use assms(1) in simp_all)
  show "ms_instances m1 = ms_instances m"
    using assms(2) by (auto simp: memStore_PutToken_def with_ctx_def split: option.splits)
  show "v_toks (mem_view t m1) iid = Some ct"
    using ok unfolding m1 by (cases "ownedInstance m t iid")
      (simp_all add: memStore_PutToken_def with_ctx_def mem_view_def mine_def reply_def)
qed

lemma GetToken_view:
  "store_inv m \<Longrightarrow> env_err env = None \<Longrightarrow> v_toks (mem_view t m) iid = Some ct \<Longrightarrow>
     fst (memStore_GetToken env t iid m) = Inr ct"
  using ms.answer [of m "CallGetToken iid" env t]
  by (auto simp: spec_call_def reply_def map_sum_def split: sum.splits)

subsection \<open>The sample store\<close>

lemma sample_store_eq:
  "ms_instances sample_store = [(''i1'', sample_inst ''a'' ''i1'' 1), (''i2'', sample_inst ''b'' ''i2'' 2)]"
  "ms_tokens sample_store = []"
  by (simp_all add: sample_store_def sample_defs reply_def memStore_CreateConnectorInstance_def with_ctx_def
      Let_def newMemStore_def register_def tbl_count_def)

lemma inv_sample: "store_inv sample_store"
  unfolding sample_store_def
  by (rule ms.final_inv) (simp_all add: sample_defs created_ids_def)

section \<open>Properties\<close>

text \<open>
  C2: Tenant isolation. Whatever calls the tenants make, and however they are interleaved, the
  answers one tenant gets from the in-memory store are those of the abstract store that holds that
  tenant's rows alone and sees only its calls: no call of another tenant can change, reveal or
  remove anything it observes. The only assumption is that \<open>uuid.NewString\<close> does not repeat itself.
\<close>

theorem store_noninterference:
  assumes "distinct (created_ids tr)"
  shows "answers_to t (run_calls memStore tr newMemStore) = spec_run (calls_of t tr) empty_view"
  using ms.run_answers [of newMemStore tr t] assms by simp

theorem store_noninterference_witness:
  "answers_to ''a'' (run_calls memStore sample_trace newMemStore) =
     [Inr (RInstance (sample_inst ''a'' ''i1'' 1)), Inr (RInstance (sample_inst ''a'' ''i1'' 1))]"
proof -
  have "distinct (created_ids sample_trace)" by (simp add: sample_defs created_ids_def)
  from store_noninterference [OF this] show ?thesis
    by (simp only:) (simp add: calls_of_def sample_defs spec_call_def empty_view_def v_register_def Let_def)
qed





text \<open>
  C18: Erasure. \<open>PurgeTenant\<close> empties the tenant's view, so \<open>TenantResidue\<close> reports no residue; it
  leaves every other tenant's view as it was; it reports the number of instances and tokens it
  removed; and running it again reports zero and changes nothing.
\<close>

theorem purge_erases:
  assumes "store_inv m" "env_err env = None" "env_err env' = None"
    and "memStore_PurgeTenant env t m = (r, m')"
  shows "mem_view t m' = empty_view \<and>
     fst (memStore_TenantResidue env' t m') = Inr True \<and>
     (\<forall>t'. t' \<noteq> t \<longrightarrow> mem_view t' m' = mem_view t' m) \<and>
     r = Inr \<lparr>pc_ConnectorInstances = card (dom (v_insts (mem_view t m))),
              pc_Tokens = card (dom (v_toks (mem_view t m)))\<rparr> \<and>
     memStore_PurgeTenant env' t m' = (Inr \<lparr>pc_ConnectorInstances = 0, pc_Tokens = 0\<rparr>, m')"
proof -
  have r: "r = Inr \<lparr>pc_ConnectorInstances = card (dom (v_insts (mem_view t m))),
      pc_Tokens = card (dom (v_toks (mem_view t m)))\<rparr>" and m': "m' = purged t m"
    using assms(4) PurgeTenant_eq [OF assms(1,2), of t] by simp_all
  have inv: "store_inv m'" and view: "mem_view t m' = empty_view"
    using assms(1) by (simp_all add: m' inv_purged view_purged)
  have "memStore_PurgeTenant env' t m' = (Inr \<lparr>pc_ConnectorInstances = 0, pc_Tokens = 0\<rparr>, m')"
    using PurgeTenant_eq [OF inv assms(3), of t] by (simp add: view) (simp add: empty_view_def m')
  moreover have "fst (memStore_TenantResidue env' t m') = Inr True"
    using ms.answer [OF inv, of CallResidue env' t] assms(3) view
    by (auto simp: spec_call_def reply_def map_sum_def split: sum.splits)
  ultimately show ?thesis
    using r view view_purged [OF assms(1)] by (simp add: m')
qed

theorem purge_erases_witness:
  "fst (memStore_TenantResidue (sample_env 7 []) ''a''
      (snd (memStore_PurgeTenant (sample_env 6 []) ''a'' sample_store))) = Inr True \<and>
   mem_view ''b'' (snd (memStore_PurgeTenant (sample_env 6 []) ''a'' sample_store)) = mem_view ''b'' sample_store"
proof -
  have "env_err (sample_env 6 []) = None" "env_err (sample_env 7 []) = None" by (simp_all add: sample_env_def)
  from purge_erases [OF inv_sample this surjective_pairing, of "''a''"] show ?thesis by simp
qed

text \<open>
  C19: A token is read back exactly as it was stored, however many calls other tenants make in
  between.
\<close>

theorem token_read_back:
  assumes "store_inv m"
    and "memStore_PutToken env t iid ct m = (Inr (), m1)"
    and "distinct (created_ids tr)" and "set (created_ids tr) \<inter> keys (ms_instances m) = {}"
    and "\<And>e t' c. (e, t', c) \<in> set tr \<Longrightarrow> t' \<noteq> t"
    and "env_err env' = None"
  shows "fst (memStore_GetToken env' t iid (final_store memStore tr m1)) = Inr ct"
proof -
  note put = PutToken_ok [OF assms(1,2)]
  have fresh: "set (created_ids tr) \<inter> keys (ms_instances m1) = {}"
    using assms(4) put(2) by simp
  note inv = ms.final_inv [OF put(1) assms(3) fresh]
  have "mem_view t (final_store memStore tr m1) = mem_view t m1"
    using put(1) assms(3) fresh assms(5) by (rule ms.others_frame)
  with put(3) GetToken_view [OF inv assms(6)] show ?thesis by simp
qed

theorem token_read_back_witness:
  "fst (memStore_GetToken (sample_env 8 []) ''a'' ''i1''
     (final_store memStore [(sample_env 7 [], ''b'', CallPurge), (sample_env 7 [], ''b'', CallGetToken ''i1'')]
        (snd (memStore_PutToken (sample_env 6 []) ''a'' ''i1'' ''secret'' sample_store)))) = Inr ''secret''"
proof -
  have "memStore_PutToken (sample_env 6 []) ''a'' ''i1'' ''secret'' sample_store =
      (Inr (), snd (memStore_PutToken (sample_env 6 []) ''a'' ''i1'' ''secret'' sample_store))"
    by (simp add: sample_store_eq memStore_PutToken_def with_ctx_def sample_env_def ownedInstance_def sample_inst_def)
  then show ?thesis
    by (rule token_read_back [OF inv_sample]) (auto simp: created_ids_def sample_env_def)
qed



text \<open>
  Preference versions. \<open>PutPreferences\<close> answers with a version of at least 1, one more than the
  stored one except that the largest \<open>int64\<close> wraps to 1, and that version and profile are what
  \<open>GetPersonalization\<close> returns next.
\<close>

lemma preferences_version:
  assumes "env_err env = None" "env_err env' = None"
    and "0 \<le> sint (up_Version (prefs_of m t))"
  shows "\<exists>v m'. memStore_PutPreferences env t j m = (Inr v, m') \<and> 1 \<le> sint v \<and>
      sint v = (if sint (up_Version (prefs_of m t)) = 2 ^ 63 - 1 then 1 else sint (up_Version (prefs_of m t)) + 1) \<and>
      fst (memStore_GetPersonalization env' t m') =
        Inr (\<lparr>up_ProfileJSON = j, up_Version = v, up_Exists = True\<rparr>, weights_of m t)"
proof -
  let ?p = "up_Version (prefs_of m t)"
  have reg: "prefs_of (register t now m) t = prefs_of m t" "weights_of (register t now m) t = weights_of m t" for now
    by (simp_all add: prefs_of_def weights_of_def register_def)
  have wrap: "sint (?p + 1) = (if sint ?p = 2 ^ 63 - 1 then - (2 ^ 63) else sint ?p + 1)"
    using assms(3) sint_lt [of ?p] by (auto simp: sint_word_add signed_take_bit_int_eq_self)
  show ?thesis
    using assms wrap
    by (auto simp: memStore_PutPreferences_def memStore_GetPersonalization_def with_ctx_def Let_def reg
        word_sless_alt prefs_of_def weights_of_def)
qed

end
