(* ===== verification/Go_Json.thy ===== *)
theory Go_Json
  imports Go_Lib
begin

text \<open>
  \<open>json.Valid\<close> of Go's \<open>encoding/json\<close>: the byte-at-a-time scanner with its stack of open objects
  and arrays. The control plane uses it to reject malformed configuration and profile documents.
\<close>

datatype scan_step =
    BeginValueOrEmpty | BeginValue | BeginStringOrEmpty | BeginString | EndValue | EndTop
  | InString | InStringEsc | InStringEscU | InStringEscU1 | InStringEscU12 | InStringEscU123
  | Neg | State1 | State0 | Dot | Dot0 | StateE | ESign | E0
  | StateT | StateTr | StateTru | StateF | StateFa | StateFal | StateFals
  | StateN | StateNu | StateNul | ScanError

datatype parse_state = ParseObjectKey | ParseObjectValue | ParseArrayValue

text \<open>The parse stack has its top at the head of the list.\<close>

record scanner =
  sc_step :: scan_step
  sc_stack :: "parse_state list"
  sc_endTop :: bool

definition json_space :: "char \<Rightarrow> bool" where
  "json_space c = (c \<in> {CHR 0x20, CHR 0x09, CHR 0x0D, CHR 0x0A})"

definition json_digit :: "char \<Rightarrow> bool" where
  "json_digit c = (CHR ''0'' \<le> c \<and> c \<le> CHR ''9'')"

definition json_digit19 :: "char \<Rightarrow> bool" where
  "json_digit19 c = (CHR ''1'' \<le> c \<and> c \<le> CHR ''9'')"

definition json_hex :: "char \<Rightarrow> bool" where
  "json_hex c = (json_digit c \<or> CHR ''a'' \<le> c \<and> c \<le> CHR ''f'' \<or> CHR ''A'' \<le> c \<and> c \<le> CHR ''F'')"

definition maxNestingDepth :: nat where
  "maxNestingDepth = 10000"

definition goto :: "scanner \<Rightarrow> scan_step \<Rightarrow> scanner" where
  "goto s st = s\<lparr>sc_step := st\<rparr>"

definition expect :: "scanner \<Rightarrow> bool \<Rightarrow> scan_step \<Rightarrow> scanner" where
  "expect s ok st = (if ok then goto s st else goto s ScanError)"

definition push_state :: "scanner \<Rightarrow> parse_state \<Rightarrow> scan_step \<Rightarrow> scanner" where
  "push_state s p st =
     (if length (p # sc_stack s) \<le> maxNestingDepth
      then s\<lparr>sc_stack := p # sc_stack s, sc_step := st\<rparr> else goto s ScanError)"

definition pop_state :: "scanner \<Rightarrow> scanner" where
  "pop_state s =
     (let stk = tl (sc_stack s) in
      if stk = [] then s\<lparr>sc_stack := stk, sc_step := EndTop, sc_endTop := True\<rparr>
      else s\<lparr>sc_stack := stk, sc_step := EndValue\<rparr>)"

definition end_top :: "scanner \<Rightarrow> char \<Rightarrow> scanner" where
  "end_top s c = (if json_space c then s else goto s ScanError)"

definition end_value :: "scanner \<Rightarrow> char \<Rightarrow> scanner" where
  "end_value s c =
     (case sc_stack s of
        [] \<Rightarrow> end_top (s\<lparr>sc_step := EndTop, sc_endTop := True\<rparr>) c
      | p # stk \<Rightarrow>
          if json_space c then goto s EndValue
          else (case p of
              ParseObjectKey \<Rightarrow>
                if c = CHR '':'' then s\<lparr>sc_stack := ParseObjectValue # stk, sc_step := BeginValue\<rparr>
                else goto s ScanError
            | ParseObjectValue \<Rightarrow>
                if c = CHR '','' then s\<lparr>sc_stack := ParseObjectKey # stk, sc_step := BeginString\<rparr>
                else if c = CHR ''}'' then pop_state s
                else goto s ScanError
            | ParseArrayValue \<Rightarrow>
                if c = CHR '','' then goto s BeginValue
                else if c = CHR '']'' then pop_state s
                else goto s ScanError))"

definition begin_value :: "scanner \<Rightarrow> char \<Rightarrow> scanner" where
  "begin_value s c =
     (if json_space c then s
      else if c = CHR ''{'' then push_state s ParseObjectKey BeginStringOrEmpty
      else if c = CHR ''['' then push_state s ParseArrayValue BeginValueOrEmpty
      else if c = CHR 0x22 then goto s InString
      else if c = CHR ''-'' then goto s Neg
      else if c = CHR ''0'' then goto s State0
      else if c = CHR ''t'' then goto s StateT
      else if c = CHR ''f'' then goto s StateF
      else if c = CHR ''n'' then goto s StateN
      else if json_digit19 c then goto s State1
      else goto s ScanError)"

definition begin_string :: "scanner \<Rightarrow> char \<Rightarrow> scanner" where
  "begin_string s c =
     (if json_space c then s else if c = CHR 0x22 then goto s InString else goto s ScanError)"

definition state_0 :: "scanner \<Rightarrow> char \<Rightarrow> scanner" where
  "state_0 s c =
     (if c = CHR ''.'' then goto s Dot
      else if c = CHR ''e'' \<or> c = CHR ''E'' then goto s StateE
      else end_value s c)"

definition scan_byte :: "scanner \<Rightarrow> char \<Rightarrow> scanner" where
  "scan_byte s c =
     (case sc_step s of
        BeginValueOrEmpty \<Rightarrow>
          if json_space c then s else if c = CHR '']'' then end_value s c else begin_value (goto s BeginValue) c
      | BeginValue \<Rightarrow> begin_value s c
      | BeginStringOrEmpty \<Rightarrow>
          if json_space c then s
          else if c = CHR ''}'' then end_value (s\<lparr>sc_stack := ParseObjectValue # tl (sc_stack s)\<rparr>) c
          else begin_string (goto s BeginString) c
      | BeginString \<Rightarrow> begin_string s c
      | EndValue \<Rightarrow> end_value s c
      | EndTop \<Rightarrow> end_top s c
      | InString \<Rightarrow>
          if c = CHR 0x22 then goto s EndValue
          else if c = CHR 0x5C then goto s InStringEsc
          else if c < CHR 0x20 then goto s ScanError
          else s
      | InStringEsc \<Rightarrow>
          if c \<in> set ''bfnrt/'' \<or> c = CHR 0x5C \<or> c = CHR 0x22 then goto s InString
          else if c = CHR ''u'' then goto s InStringEscU
          else goto s ScanError
      | InStringEscU \<Rightarrow> expect s (json_hex c) InStringEscU1
      | InStringEscU1 \<Rightarrow> expect s (json_hex c) InStringEscU12
      | InStringEscU12 \<Rightarrow> expect s (json_hex c) InStringEscU123
      | InStringEscU123 \<Rightarrow> expect s (json_hex c) InString
      | Neg \<Rightarrow> if c = CHR ''0'' then goto s State0 else expect s (json_digit19 c) State1
      | State1 \<Rightarrow> if json_digit c then s else state_0 s c
      | State0 \<Rightarrow> state_0 s c
      | Dot \<Rightarrow> expect s (json_digit c) Dot0
      | Dot0 \<Rightarrow>
          if json_digit c then s
          else if c = CHR ''e'' \<or> c = CHR ''E'' then goto s StateE
          else end_value s c
      | StateE \<Rightarrow> if c = CHR ''+'' \<or> c = CHR ''-'' then goto s ESign else expect s (json_digit c) E0
      | ESign \<Rightarrow> expect s (json_digit c) E0
      | E0 \<Rightarrow> if json_digit c then s else end_value s c
      | StateT \<Rightarrow> expect s (c = CHR ''r'') StateTr
      | StateTr \<Rightarrow> expect s (c = CHR ''u'') StateTru
      | StateTru \<Rightarrow> expect s (c = CHR ''e'') EndValue
      | StateF \<Rightarrow> expect s (c = CHR ''a'') StateFa
      | StateFa \<Rightarrow> expect s (c = CHR ''l'') StateFal
      | StateFal \<Rightarrow> expect s (c = CHR ''s'') StateFals
      | StateFals \<Rightarrow> expect s (c = CHR ''e'') EndValue
      | StateN \<Rightarrow> expect s (c = CHR ''u'') StateNu
      | StateNu \<Rightarrow> expect s (c = CHR ''l'') StateNul
      | StateNul \<Rightarrow> expect s (c = CHR ''l'') EndValue
      | ScanError \<Rightarrow> s)"

definition scan_eof :: "scanner \<Rightarrow> bool" where
  "scan_eof s =
     (if sc_step s = ScanError then False
      else if sc_endTop s then True
      else let s' = scan_byte s CHR 0x20 in sc_step s' \<noteq> ScanError \<and> sc_endTop s')"

definition json_Valid :: "bytes \<Rightarrow> bool" where
  "json_Valid data = scan_eof (foldl scan_byte \<lparr>sc_step = BeginValue, sc_stack = [], sc_endTop = False\<rparr> data)"

text \<open>The documents the services substitute for an empty one are valid, an empty one is not.\<close>

lemma json_Valid_empty_object: "json_Valid ''{}''"
  by code_simp

lemma json_Valid_Nil: "\<not> json_Valid []"
  by code_simp

text \<open>Once the scanner has rejected a prefix, no continuation is accepted.\<close>

lemma scan_error_stuck: "sc_step s = ScanError \<Longrightarrow> foldl scan_byte s data = s"
  by (induction data) (simp_all add: scan_byte_def)

end
