(* ===== verification/Go_AesGcm.thy ===== *)
theory Go_AesGcm
  imports Go_Lib
begin

text \<open>
  What the sources use of \<open>crypto/aes\<close> and \<open>crypto/cipher\<close>: the AES block function for the three key
  sizes and Galois/Counter Mode with a 12-byte nonce and a 16-byte tag, as executable functions on
  byte lists. The facts the code relies on are proved, not assumed: \<open>Open\<close> accepts exactly what \<open>Seal\<close>
  produced under the same key, nonce and additional data, and returns the plaintext.
\<close>

unbundle bit_operations_syntax

section \<open>The AES block function\<close>

definition sbox :: "nat list" where
  "sbox = [
      99, 124, 119, 123, 242, 107, 111, 197, 48, 1, 103, 43, 254, 215, 171, 118, 202, 130, 201, 125,
      250, 89, 71, 240, 173, 212, 162, 175, 156, 164, 114, 192, 183, 253, 147, 38, 54, 63, 247, 204,
      52, 165, 229, 241, 113, 216, 49, 21, 4, 199, 35, 195, 24, 150, 5, 154, 7, 18, 128, 226,
      235, 39, 178, 117, 9, 131, 44, 26, 27, 110, 90, 160, 82, 59, 214, 179, 41, 227, 47, 132,
      83, 209, 0, 237, 32, 252, 177, 91, 106, 203, 190, 57, 74, 76, 88, 207, 208, 239, 170, 251,
      67, 77, 51, 133, 69, 249, 2, 127, 80, 60, 159, 168, 81, 163, 64, 143, 146, 157, 56, 245,
      188, 182, 218, 33, 16, 255, 243, 210, 205, 12, 19, 236, 95, 151, 68, 23, 196, 167, 126, 61,
      100, 93, 25, 115, 96, 129, 79, 220, 34, 42, 144, 136, 70, 238, 184, 20, 222, 94, 11, 219,
      224, 50, 58, 10, 73, 6, 36, 92, 194, 211, 172, 98, 145, 149, 228, 121, 231, 200, 55, 109,
      141, 213, 78, 169, 108, 86, 244, 234, 101, 122, 174, 8, 186, 120, 37, 46, 28, 166, 180, 198,
      232, 221, 116, 31, 75, 189, 139, 138, 112, 62, 181, 102, 72, 3, 246, 14, 97, 53, 87, 185,
      134, 193, 29, 158, 225, 248, 152, 17, 105, 217, 142, 148, 155, 30, 135, 233, 206, 85, 40, 223,
      140, 161, 137, 13, 191, 230, 66, 104, 65, 153, 45, 15, 176, 84, 187, 22]"

definition xtime :: "nat \<Rightarrow> nat" where
  "xtime b = (if b < 128 then 2 * b else (2 * b - 256) XOR 27)"

definition xor_list :: "nat list \<Rightarrow> nat list \<Rightarrow> nat list" where
  "xor_list xs ys = map2 (\<lambda>x y. x XOR y) xs ys"

definition sub_bytes :: "nat list \<Rightarrow> nat list" where
  "sub_bytes = map (\<lambda>b. sbox ! b)"

text \<open>The key schedule: words of four bytes, the newest first.\<close>

definition next_word :: "nat \<Rightarrow> nat \<Rightarrow> nat \<Rightarrow> nat list list \<Rightarrow> nat list" where
  "next_word nk i rcon ws =
     (let prev = hd ws;
          t = (if i mod nk = 0 then xor_list (sub_bytes (rotate1 prev)) [rcon, 0, 0, 0]
               else if nk > 6 \<and> i mod nk = 4 then sub_bytes prev else prev)
      in xor_list (ws ! (nk - 1)) t)"

fun expand_words :: "nat \<Rightarrow> nat \<Rightarrow> nat \<Rightarrow> nat \<Rightarrow> nat list list \<Rightarrow> nat list list" where
  "expand_words 0 nk i rcon ws = ws"
| "expand_words (Suc n) nk i rcon ws =
     expand_words n nk (Suc i) (if i mod nk = 0 then xtime rcon else rcon) (next_word nk i rcon ws # ws)"

fun groups_of :: "nat \<Rightarrow> 'a list \<Rightarrow> 'a list list" where
  "groups_of n xs = (if xs = [] \<or> n = 0 then [] else take n xs # groups_of n (drop n xs))"

declare groups_of.simps [simp del]

definition round_keys :: "nat list \<Rightarrow> nat list list" where
  "round_keys key =
     (let nk = length key div 4; total = 4 * (nk + 7)
      in groups_of 16 (concat (rev (expand_words (total - nk) nk nk 1 (rev (groups_of 4 key))))))"

text \<open>The state is a list of 16 bytes, column by column.\<close>

definition shift_rows :: "nat list \<Rightarrow> nat list" where
  "shift_rows s = map (\<lambda>i. s ! i) [0, 5, 10, 15, 4, 9, 14, 3, 8, 13, 2, 7, 12, 1, 6, 11]"

definition mix_column :: "nat list \<Rightarrow> nat list" where
  "mix_column c = map (\<lambda>i.
     xtime (c ! i) XOR (xtime (c ! ((i + 1) mod 4)) XOR c ! ((i + 1) mod 4)) XOR
     c ! ((i + 2) mod 4) XOR c ! ((i + 3) mod 4)) [0..<4]"

definition mix_columns :: "nat list \<Rightarrow> nat list" where
  "mix_columns s = concat (map mix_column (groups_of 4 s))"

fun aes_rounds :: "nat list list \<Rightarrow> nat list \<Rightarrow> nat list" where
  "aes_rounds [] s = s"
| "aes_rounds [k] s = xor_list (shift_rows (sub_bytes s)) k"
| "aes_rounds (k # ks) s = aes_rounds ks (xor_list (mix_columns (shift_rows (sub_bytes s))) k)"

definition aes_encrypt :: "nat list \<Rightarrow> nat list \<Rightarrow> nat list" where
  "aes_encrypt key block =
     (case round_keys key of [] \<Rightarrow> block | k # ks \<Rightarrow> aes_rounds ks (xor_list block k))"

section \<open>Galois/Counter Mode\<close>

definition octets :: "bytes \<Rightarrow> nat list" where
  "octets = map of_char"

definition be_nat :: "nat list \<Rightarrow> nat" where
  "be_nat bs = foldl (\<lambda>a b. 256 * a + b) 0 bs"

fun be_octets :: "nat \<Rightarrow> nat \<Rightarrow> nat list" where
  "be_octets 0 n = []"
| "be_octets (Suc k) n = be_octets k (n div 256) @ [n mod 256]"

text \<open>Multiplication in the field of 2 to the 128 elements, one bit of the first factor at a time,
  most significant first.\<close>

fun gf_mult_loop :: "nat \<Rightarrow> nat \<Rightarrow> nat \<Rightarrow> nat \<Rightarrow> nat" where
  "gf_mult_loop 0 x z v = z"
| "gf_mult_loop (Suc i) x z v =
     gf_mult_loop i x (if bit x i then z XOR v else z)
       (if odd v then (v div 2) XOR (225 * 2 ^ 120) else v div 2)"

definition gf_mult :: "nat \<Rightarrow> nat \<Rightarrow> nat" where
  "gf_mult x y = gf_mult_loop 128 x 0 y"

definition pad16 :: "nat list \<Rightarrow> nat list" where
  "pad16 xs = xs @ replicate ((16 - length xs mod 16) mod 16) 0"

definition ghash :: "nat \<Rightarrow> nat list \<Rightarrow> nat" where
  "ghash h xs = foldl (\<lambda>y block. gf_mult (y XOR be_nat block) h) 0 (groups_of 16 xs)"

definition counter_block :: "nat list \<Rightarrow> nat \<Rightarrow> nat list" where
  "counter_block nonce n = nonce @ be_octets 4 (n mod 2 ^ 32)"

definition keystream :: "nat list \<Rightarrow> nat list \<Rightarrow> nat \<Rightarrow> nat list" where
  "keystream key nonce n =
     take n (concat (map (\<lambda>i. aes_encrypt key (counter_block nonce (i + 2))) [0..<(n + 15) div 16]))"

definition xor_char :: "char \<Rightarrow> nat \<Rightarrow> char" where
  "xor_char c k = char_of (of_char c XOR k)"

text \<open>The keystream byte at a position past its end is 0, so the result has the length of the input.\<close>

definition ctr_crypt :: "nat list \<Rightarrow> nat list \<Rightarrow> bytes \<Rightarrow> bytes" where
  "ctr_crypt key nonce data =
     (let ks = keystream key nonce (length data)
      in map (\<lambda>(i, c). xor_char c (if i < length ks then ks ! i else 0)) (enumerate 0 data))"

definition gcm_tag :: "nat list \<Rightarrow> nat list \<Rightarrow> bytes \<Rightarrow> bytes \<Rightarrow> bytes" where
  "gcm_tag key nonce aad ct =
     (let h = be_nat (aes_encrypt key (replicate 16 0));
          a = octets aad; c = octets ct;
          s = ghash h (pad16 a @ pad16 c @ be_octets 8 (8 * length a) @ be_octets 8 (8 * length c));
          t = s XOR be_nat (aes_encrypt key (counter_block nonce 1))
      in map char_of (be_octets 16 t))"

section \<open>The interface \<open>cipher.AEAD\<close>\<close>

text \<open>An AEAD is the key it was made from. \<open>aes.NewCipher\<close> refuses any other key size.\<close>

datatype AEAD = AesGcm (aead_key: bytes)

definition newGCM :: "bytes \<Rightarrow> AEAD option" where
  "newGCM key = (if length key \<in> {16, 24, 32} then Some (AesGcm key) else None)"

definition Overhead :: "AEAD \<Rightarrow> nat" where
  "Overhead a = 16"

definition Seal :: "AEAD \<Rightarrow> bytes \<Rightarrow> bytes \<Rightarrow> bytes \<Rightarrow> bytes" where
  "Seal a nonce plaintext aad =
     (let k = octets (aead_key a); n = octets nonce; ct = ctr_crypt k n plaintext
      in ct @ gcm_tag k n aad ct)"

definition Open :: "AEAD \<Rightarrow> bytes \<Rightarrow> bytes \<Rightarrow> bytes \<Rightarrow> bytes option" where
  "Open a nonce sealed aad =
     (if length sealed < 16 then None
      else
        let k = octets (aead_key a); n = octets nonce;
            ct = take (length sealed - 16) sealed; tag = drop (length sealed - 16) sealed
        in if tag \<noteq> gcm_tag k n aad ct then None else Some (ctr_crypt k n ct))"

section \<open>Facts\<close>

lemma length_be_octets [simp]: "length (be_octets k n) = k"
  by (induction k n rule: be_octets.induct) auto

lemma length_gcm_tag [simp]: "length (gcm_tag k n aad ct) = 16"
  by (simp add: gcm_tag_def Let_def)

lemma length_ctr_crypt [simp]: "length (ctr_crypt k n d) = length d"
  by (simp add: ctr_crypt_def Let_def)

lemma xor_char_invol [simp]: "xor_char (xor_char c k) k = c"
proof -
  have "take_bit 8 (take_bit 8 (of_char c XOR k) XOR k) = take_bit 8 (of_char c :: nat)"
    by (simp add: bit_eq_iff bit_simps) blast
  then have "((of_char c XOR k) mod 256 XOR k) mod 256 = (of_char c :: nat) mod 256"
    by (simp add: take_bit_eq_mod)
  then have "char_of ((of_char c XOR k) mod 256 XOR k) = (char_of (of_char c :: nat) :: char)"
    by (metis char_of_mod_256)
  then show ?thesis by (simp add: xor_char_def)
qed

lemma ctr_crypt_invol [simp]: "ctr_crypt k n (ctr_crypt k n d) = d"
  by (rule nth_equalityI) (simp_all add: ctr_crypt_def Let_def nth_enumerate_eq)

lemma length_Seal [simp]: "length (Seal a nonce p aad) = length p + 16"
  by (simp add: Seal_def Let_def)

lemma Open_Seal [simp]: "Open a nonce (Seal a nonce p aad) aad = Some p"
  by (simp add: Open_def Seal_def Let_def)

lemma Open_iff: "Open a nonce c aad = Some p \<longleftrightarrow> c = Seal a nonce p aad"
proof
  assume o: "Open a nonce c aad = Some p"
  let ?ct = "take (length c - 16) c"
  from o have "ctr_crypt (octets (aead_key a)) (octets nonce) p = ?ct"
    "drop (length c - 16) c = gcm_tag (octets (aead_key a)) (octets nonce) aad ?ct"
    by (auto simp: Open_def Let_def split: if_splits)
  then show "c = Seal a nonce p aad" by (metis Seal_def append_take_drop_id)
qed simp

lemma newGCM_32 [simp]: "length key = 32 \<Longrightarrow> newGCM key = Some (AesGcm key)"
  by (simp add: newGCM_def)

end
