(* ===== verification/Crypto.thy ===== *)
theory Crypto
  imports Go_AesGcm Tenancy
begin

text \<open>
  Envelope encryption (\<open>platform/crypto\<close>): the tenant cipher, the in-memory store of wrapped data
  keys and the file key provider. The interfaces \<open>DEKStore\<close> and \<open>KEKProvider\<close> are records of
  operations; their contracts are the locales \<open>dek_store\<close> and \<open>kek_provider\<close>, and what the cipher
  guarantees is proved once, in \<open>tenant_cipher\<close>, for every store and provider that keep them.

  Errors are modelled by the sentinel they wrap; their text is not.
\<close>

section \<open>The model\<close>

datatype crypto_error = ErrDEKNotFound | ErrNoTenantID | ErrUnsupportedVersion | ErrCtx string | ErrCrypto string

text \<open>\<open>io.ReadFull\<close> on \<open>crypto/rand\<close>: either an error or exactly as many bytes as asked for.\<close>

type_synonym rand_read = "(nat \<Rightarrow> char) option"

definition ReadFull :: "rand_read \<Rightarrow> nat \<Rightarrow> crypto_error + bytes" where
  "ReadFull r n = (case r of None \<Rightarrow> Inl (ErrCrypto ''rand'') | Some f \<Rightarrow> Inr (map f [0..<n]))"

record KEKProvider =
  WrapDEK :: "string option \<Rightarrow> rand_read \<Rightarrow> tenant_id \<Rightarrow> bytes \<Rightarrow> crypto_error + bytes"
  UnwrapDEK :: "string option \<Rightarrow> tenant_id \<Rightarrow> bytes \<Rightarrow> crypto_error + bytes"

record 'd DEKStore =
  GetWrappedDEK :: "string option \<Rightarrow> tenant_id \<Rightarrow> 'd \<Rightarrow> crypto_error + bytes"
  PutWrappedDEK :: "string option \<Rightarrow> tenant_id \<Rightarrow> bytes \<Rightarrow> 'd \<Rightarrow> (crypto_error + unit) \<times> 'd"
  DeleteDEK :: "string option \<Rightarrow> tenant_id \<Rightarrow> 'd \<Rightarrow> (crypto_error + unit) \<times> 'd"

subsection \<open>The in-memory store of wrapped keys\<close>

type_synonym mem_deks = "(tenant_id, bytes) table"

definition memDEKStore_Get :: "string option \<Rightarrow> tenant_id \<Rightarrow> mem_deks \<Rightarrow> crypto_error + bytes" where
  "memDEKStore_Get ctx t deks =
     (case ctx of Some e \<Rightarrow> Inl (ErrCtx e)
      | None \<Rightarrow> if t = [] then Inl ErrNoTenantID
                else (case tbl_get deks t of None \<Rightarrow> Inl ErrDEKNotFound | Some wrapped \<Rightarrow> Inr wrapped))"

definition memDEKStore_Put ::
  "string option \<Rightarrow> tenant_id \<Rightarrow> bytes \<Rightarrow> mem_deks \<Rightarrow> (crypto_error + unit) \<times> mem_deks" where
  "memDEKStore_Put ctx t wrapped deks =
     (case ctx of Some e \<Rightarrow> (Inl (ErrCtx e), deks)
      | None \<Rightarrow> if t = [] then (Inl ErrNoTenantID, deks)
                else if length wrapped = 0 then (Inl (ErrCrypto ''refusing to store empty wrapped DEK''), deks)
                else if tbl_has t deks then (Inr (), deks)
                else (Inr (), tbl_put t wrapped deks))"

definition memDEKStore_Delete ::
  "string option \<Rightarrow> tenant_id \<Rightarrow> mem_deks \<Rightarrow> (crypto_error + unit) \<times> mem_deks" where
  "memDEKStore_Delete ctx t deks =
     (case ctx of Some e \<Rightarrow> (Inl (ErrCtx e), deks)
      | None \<Rightarrow> if t = [] then (Inl ErrNoTenantID, deks) else (Inr (), tbl_del t deks))"

definition memDEKStore :: "mem_deks DEKStore" where
  "memDEKStore = \<lparr>GetWrappedDEK = memDEKStore_Get, PutWrappedDEK = memDEKStore_Put, DeleteDEK = memDEKStore_Delete\<rparr>"

subsection \<open>The file key provider\<close>

definition dekSize :: nat where "dekSize = 32"
definition gcmNonceSize :: nat where "gcmNonceSize = 12"
definition wrapVersion1 :: char where "wrapVersion1 = CHR 0x01"
definition blobVersion1 :: char where "blobVersion1 = CHR 0x01"

definition newAESGCM :: "bytes \<Rightarrow> crypto_error + AEAD" where
  "newAESGCM key = (case newGCM key of None \<Rightarrow> Inl (ErrCrypto ''invalid key size'') | Some a \<Rightarrow> Inr a)"

definition fileKEK_WrapDEK ::
  "AEAD \<Rightarrow> string option \<Rightarrow> rand_read \<Rightarrow> tenant_id \<Rightarrow> bytes \<Rightarrow> crypto_error + bytes" where
  "fileKEK_WrapDEK k ctx rnd t dek =
     (case ctx of Some e \<Rightarrow> Inl (ErrCtx e)
      | None \<Rightarrow>
          if t = [] then Inl ErrNoTenantID
          else if length dek \<noteq> dekSize then Inl (ErrCrypto ''key size'')
          else (case ReadFull rnd gcmNonceSize of
                  Inl e \<Rightarrow> Inl e
                | Inr nonce \<Rightarrow> Inr ([wrapVersion1] @ nonce @ Seal k nonce dek t)))"

definition fileKEK_UnwrapDEK :: "AEAD \<Rightarrow> string option \<Rightarrow> tenant_id \<Rightarrow> bytes \<Rightarrow> crypto_error + bytes" where
  "fileKEK_UnwrapDEK k ctx t wrapped =
     (case ctx of Some e \<Rightarrow> Inl (ErrCtx e)
      | None \<Rightarrow>
          if t = [] then Inl ErrNoTenantID
          else (case wrapped of
                  [] \<Rightarrow> Inl (ErrCrypto ''empty blob'')
                | v # body \<Rightarrow>
                    if v \<noteq> wrapVersion1 then Inl ErrUnsupportedVersion
                    else if length body < gcmNonceSize + Overhead k then Inl (ErrCrypto ''blob too short'')
                    else (case Open k (take gcmNonceSize body) (drop gcmNonceSize body) t of
                            None \<Rightarrow> Inl (ErrCrypto ''authentication failed'')
                          | Some dek \<Rightarrow> if length dek \<noteq> dekSize then Inl (ErrCrypto ''unexpected key size'')
                                        else Inr dek)))"

definition fileKEK :: "AEAD \<Rightarrow> KEKProvider" where
  "fileKEK k = \<lparr>WrapDEK = fileKEK_WrapDEK k, UnwrapDEK = fileKEK_UnwrapDEK k\<rparr>"

subsection \<open>The tenant cipher\<close>

text \<open>
  What an operation reads from its surroundings: \<open>ctx.Err()\<close> as each call it makes on the store or
  the provider sees it, in order, and the reads of \<open>crypto/rand\<close>: 0 for a new data key, 1 for the
  nonce that wraps it, 2 for the nonce of the data.
\<close>

record crypto_env =
  ce_ctx :: "nat \<Rightarrow> string option"
  ce_rand :: "nat \<Rightarrow> rand_read"

record 'd TenantCipher =
  cs_deks :: 'd
  cs_aeads :: "(tenant_id, AEAD) table"

definition NewTenantCipher :: "'d \<Rightarrow> 'd TenantCipher" where
  "NewTenantCipher d = \<lparr>cs_deks = d, cs_aeads = []\<rparr>"

definition provisionDEK ::
  "KEKProvider \<Rightarrow> 'd DEKStore \<Rightarrow> crypto_env \<Rightarrow> tenant_id \<Rightarrow> 'd \<Rightarrow> (crypto_error + bytes) \<times> 'd" where
  "provisionDEK K D env t d =
     (case ReadFull (ce_rand env 0) dekSize of
        Inl e \<Rightarrow> (Inl e, d)
      | Inr dek \<Rightarrow>
          (case WrapDEK K (ce_ctx env 1) (ce_rand env 1) t dek of
             Inl e \<Rightarrow> (Inl e, d)
           | Inr wrapped \<Rightarrow>
               (let (putRes, d') = PutWrappedDEK D (ce_ctx env 2) t wrapped d in
                case GetWrappedDEK D (ce_ctx env 3) t d' of
                  Inl getErr \<Rightarrow> (Inl (case putRes of Inl putErr \<Rightarrow> putErr | Inr _ \<Rightarrow> getErr), d')
                | Inr stored \<Rightarrow> (UnwrapDEK K (ce_ctx env 4) t stored, d'))))"

definition loadDEK ::
  "KEKProvider \<Rightarrow> 'd DEKStore \<Rightarrow> crypto_env \<Rightarrow> tenant_id \<Rightarrow> bool \<Rightarrow> 'd \<Rightarrow> (crypto_error + bytes) \<times> 'd" where
  "loadDEK K D env t create d =
     (case GetWrappedDEK D (ce_ctx env 0) t d of
        Inr wrapped \<Rightarrow> (UnwrapDEK K (ce_ctx env 1) t wrapped, d)
      | Inl e \<Rightarrow> if e = ErrDEKNotFound
                 then (if \<not> create then (Inl e, d) else provisionDEK K D env t d)
                 else (Inl e, d))"

definition aeadFor ::
  "KEKProvider \<Rightarrow> 'd DEKStore \<Rightarrow> crypto_env \<Rightarrow> tenant_id \<Rightarrow> bool \<Rightarrow> 'd TenantCipher \<Rightarrow>
     (crypto_error + AEAD) \<times> 'd TenantCipher" where
  "aeadFor K D env t create c =
     (case tbl_get (cs_aeads c) t of
        Some a \<Rightarrow> (Inr a, c)
      | None \<Rightarrow>
          (let (r, d) = loadDEK K D env t create (cs_deks c); c' = c\<lparr>cs_deks := d\<rparr> in
           case r of
             Inl e \<Rightarrow> (Inl e, c')
           | Inr dek \<Rightarrow>
               (case newAESGCM dek of
                  Inl e \<Rightarrow> (Inl e, c')
                | Inr a \<Rightarrow>
                    (case tbl_get (cs_aeads c') t of
                       Some existing \<Rightarrow> (Inr existing, c')
                     | None \<Rightarrow> (Inr a, c'\<lparr>cs_aeads := tbl_put t a (cs_aeads c')\<rparr>)))))"

definition TenantCipher_Encrypt ::
  "KEKProvider \<Rightarrow> 'd DEKStore \<Rightarrow> crypto_env \<Rightarrow> tenancy_context \<Rightarrow> bytes \<Rightarrow> 'd TenantCipher \<Rightarrow>
     (crypto_error + bytes) \<times> 'd TenantCipher" where
  "TenantCipher_Encrypt K D env tc plaintext c =
     (if tenantID tc = [] then (Inl ErrNoTenantID, c)
      else
        let (r, c') = aeadFor K D env (tenantID tc) True c in
        case r of
          Inl e \<Rightarrow> (Inl e, c')
        | Inr a \<Rightarrow>
            (case ReadFull (ce_rand env 2) gcmNonceSize of
               Inl e \<Rightarrow> (Inl e, c')
             | Inr nonce \<Rightarrow> (Inr ([blobVersion1] @ nonce @ Seal a nonce plaintext (tenantID tc)), c')))"

definition TenantCipher_Decrypt ::
  "KEKProvider \<Rightarrow> 'd DEKStore \<Rightarrow> crypto_env \<Rightarrow> tenancy_context \<Rightarrow> bytes \<Rightarrow> 'd TenantCipher \<Rightarrow>
     (crypto_error + bytes) \<times> 'd TenantCipher" where
  "TenantCipher_Decrypt K D env tc ciphertext c =
     (if tenantID tc = [] then (Inl ErrNoTenantID, c)
      else case ciphertext of
        [] \<Rightarrow> (Inl (ErrCrypto ''empty ciphertext''), c)
      | v # body \<Rightarrow>
          if v \<noteq> blobVersion1 then (Inl ErrUnsupportedVersion, c)
          else
            let (r, c') = aeadFor K D env (tenantID tc) False c in
            case r of
              Inl e \<Rightarrow> (Inl e, c')
            | Inr a \<Rightarrow>
                if length body < gcmNonceSize + Overhead a then (Inl (ErrCrypto ''ciphertext too short''), c')
                else (case Open a (take gcmNonceSize body) (drop gcmNonceSize body) (tenantID tc) of
                        None \<Rightarrow> (Inl (ErrCrypto ''authentication failed''), c')
                      | Some plaintext \<Rightarrow> (Inr plaintext, c')))"

definition TenantCipher_Forget :: "tenant_id \<Rightarrow> 'd TenantCipher \<Rightarrow> 'd TenantCipher" where
  "TenantCipher_Forget t c = c\<lparr>cs_aeads := tbl_del t (cs_aeads c)\<rparr>"

subsection \<open>Sequences of operations\<close>

text \<open>The calls clients make. An erasure is \<open>DEKStore.Delete\<close> followed, if that succeeds, by
  \<open>Forget\<close>, as the deletion cascade of the control plane does it.\<close>

datatype cipher_op =
    OpEncrypt crypto_env tenancy_context bytes | OpDecrypt crypto_env tenancy_context bytes
  | OpForget tenant_id | OpErase "string option" tenant_id

definition erase :: "'d DEKStore \<Rightarrow> string option \<Rightarrow> tenant_id \<Rightarrow> 'd TenantCipher \<Rightarrow> 'd TenantCipher" where
  "erase D ctx t c =
     (let (r, d) = DeleteDEK D ctx t (cs_deks c); c' = c\<lparr>cs_deks := d\<rparr> in
      case r of Inl _ \<Rightarrow> c' | Inr _ \<Rightarrow> TenantCipher_Forget t c')"

primrec run_op :: "KEKProvider \<Rightarrow> 'd DEKStore \<Rightarrow> cipher_op \<Rightarrow> 'd TenantCipher \<Rightarrow> 'd TenantCipher" where
  "run_op K D (OpEncrypt env tc p) c = snd (TenantCipher_Encrypt K D env tc p c)"
| "run_op K D (OpDecrypt env tc ct) c = snd (TenantCipher_Decrypt K D env tc ct c)"
| "run_op K D (OpForget t) c = TenantCipher_Forget t c"
| "run_op K D (OpErase ctx t) c = erase D ctx t c"

definition run_ops :: "KEKProvider \<Rightarrow> 'd DEKStore \<Rightarrow> cipher_op list \<Rightarrow> 'd TenantCipher \<Rightarrow> 'd TenantCipher" where
  "run_ops K D ops c = fold (run_op K D) ops c"

fun encrypts :: "tenant_id \<Rightarrow> cipher_op \<Rightarrow> bool" where
  "encrypts t (OpEncrypt _ tc _) = (tenantID tc = t)"
| "encrypts t _ = False"

fun erases :: "tenant_id \<Rightarrow> cipher_op \<Rightarrow> bool" where
  "erases t (OpErase _ t') = (t' = t)"
| "erases t _ = False"

subsection \<open>Concurrent provisioning\<close>

text \<open>
  Several goroutines may provision the same tenant's key at once. Each runs the three store-visible
  steps of \<open>provisionDEK\<close>: wrap a fresh key, \<open>Put\<close> it, then read back and unwrap what the store holds.
  The steps of different goroutines interleave freely, and a step may see its context cancelled.
\<close>

datatype prov_pc = PInit | PWrapped bytes | PPut | PDone bytes | PFailed

inductive prov_step ::
  "KEKProvider \<Rightarrow> 'd DEKStore \<Rightarrow> tenant_id \<Rightarrow> 'd \<times> (nat \<Rightarrow> prov_pc) \<Rightarrow> 'd \<times> (nat \<Rightarrow> prov_pc) \<Rightarrow> bool"
  for K :: KEKProvider and D :: "'d DEKStore" and t :: tenant_id where
  prov_wrap: "pcs i = PInit \<Longrightarrow> WrapDEK K ctx rnd t dek = Inr w \<Longrightarrow>
     prov_step K D t (d, pcs) (d, pcs(i := PWrapped w))"
| prov_put: "pcs i = PWrapped w \<Longrightarrow> PutWrappedDEK D ctx t w d = (r, d') \<Longrightarrow>
     prov_step K D t (d, pcs) (d', pcs(i := PPut))"
| prov_get: "pcs i = PPut \<Longrightarrow> GetWrappedDEK D ctx t d = Inr w \<Longrightarrow> UnwrapDEK K ctx' t w = Inr dek \<Longrightarrow>
     prov_step K D t (d, pcs) (d, pcs(i := PDone dek))"
| prov_fail: "pcs i \<in> {PInit, PPut} \<Longrightarrow> prov_step K D t (d, pcs) (d, pcs(i := PFailed))"

inductive_cases prov_stepE: "prov_step K D t (d, pcs) (d', pcs')"

section \<open>Contracts\<close>

locale dek_store =
  fixes D :: "'d DEKStore"
    and look :: "'d \<Rightarrow> tenant_id \<Rightarrow> bytes option"
  assumes get_found: "GetWrappedDEK D ctx t d = Inr w \<Longrightarrow> look d t = Some w"
    and get_absent: "GetWrappedDEK D ctx t d = Inl ErrDEKNotFound \<Longrightarrow> look d t = None"
    and get_live: "t \<noteq> [] \<Longrightarrow> GetWrappedDEK D None t d = (case look d t of None \<Rightarrow> Inl ErrDEKNotFound | Some w \<Rightarrow> Inr w)"
    and put_first: "look d t = Some w \<Longrightarrow> look (snd (PutWrappedDEK D ctx t' w' d)) t = Some w"
    and put_other: "t \<noteq> t' \<Longrightarrow> look (snd (PutWrappedDEK D ctx t' w' d)) t = look d t"
    and put_value: "look d t = None \<Longrightarrow> look (snd (PutWrappedDEK D ctx t w' d)) t \<in> {None, Some w'}"
    and delete_other: "t \<noteq> t' \<Longrightarrow> look (snd (DeleteDEK D ctx t' d)) t = look d t"
    and delete_done: "fst (DeleteDEK D ctx t d) = Inr () \<Longrightarrow> look (snd (DeleteDEK D ctx t d)) t = None"
    and delete_failed: "fst (DeleteDEK D ctx t d) = Inl e \<Longrightarrow> look (snd (DeleteDEK D ctx t d)) t' = look d t'"

locale kek_provider =
  fixes K :: KEKProvider
  assumes unwrap_wrap: "WrapDEK K ctx rnd t dek = Inr w \<Longrightarrow> UnwrapDEK K None t w = Inr dek"
    and unwrap_live: "UnwrapDEK K ctx t w = Inr dek \<Longrightarrow> UnwrapDEK K None t w = Inr dek"
    and unwrap_size: "UnwrapDEK K ctx t w = Inr dek \<Longrightarrow> length dek = dekSize"

interpretation mds: dek_store memDEKStore "\<lambda>d t. tbl_get d t"
  by unfold_locales
    (auto simp: memDEKStore_def memDEKStore_Get_def memDEKStore_Put_def memDEKStore_Delete_def get_None_iff [symmetric]
      split: option.splits if_splits)

lemma fileKEK_unwrap_iff:
  "fileKEK_UnwrapDEK k None t w = Inr dek \<longleftrightarrow>
     t \<noteq> [] \<and> length dek = dekSize \<and>
     (\<exists>nonce. length nonce = gcmNonceSize \<and> w = [wrapVersion1] @ nonce @ Seal k nonce dek t)"
proof
  assume u: "fileKEK_UnwrapDEK k None t w = Inr dek"
  then obtain body where body: "w = wrapVersion1 # body" "gcmNonceSize + 16 \<le> length body"
      "Open k (take gcmNonceSize body) (drop gcmNonceSize body) t = Some dek" "t \<noteq> []" "length dek = dekSize"
    by (auto simp: fileKEK_UnwrapDEK_def Overhead_def split: if_splits list.splits option.splits)
  from body(3) have "drop gcmNonceSize body = Seal k (take gcmNonceSize body) dek t" by (simp add: Open_iff)
  then have "body = take gcmNonceSize body @ Seal k (take gcmNonceSize body) dek t"
    by (metis append_take_drop_id)
  with body show "t \<noteq> [] \<and> length dek = dekSize \<and>
     (\<exists>nonce. length nonce = gcmNonceSize \<and> w = [wrapVersion1] @ nonce @ Seal k nonce dek t)"
    by (intro conjI exI [of _ "take gcmNonceSize body"]) simp_all
qed (auto simp: fileKEK_UnwrapDEK_def Overhead_def)

interpretation fk: kek_provider "fileKEK k" for k
proof unfold_locales
  fix ctx rnd t dek w assume "WrapDEK (fileKEK k) ctx rnd t dek = Inr w"
  then show "UnwrapDEK (fileKEK k) None t w = Inr dek"
    by (auto simp: fileKEK_def fileKEK_unwrap_iff fileKEK_WrapDEK_def ReadFull_def
        split: option.splits if_splits sum.splits)
next
  fix ctx t w dek assume u: "UnwrapDEK (fileKEK k) ctx t w = Inr dek"
  then have "ctx = None" by (simp add: fileKEK_def fileKEK_UnwrapDEK_def split: option.splits)
  with u show "UnwrapDEK (fileKEK k) None t w = Inr dek" and "length dek = dekSize"
    by (simp_all add: fileKEK_def fileKEK_unwrap_iff)
qed

section \<open>The cipher over any store and provider\<close>

definition data_key :: "KEKProvider \<Rightarrow> ('d \<Rightarrow> tenant_id \<Rightarrow> bytes option) \<Rightarrow> 'd \<Rightarrow> tenant_id \<Rightarrow> bytes option" where
  "data_key K look d t =
     (case look d t of
        None \<Rightarrow> None
      | Some w \<Rightarrow> (case UnwrapDEK K None t w of Inl _ \<Rightarrow> None | Inr dek \<Rightarrow> Some dek))"

definition cipher_inv :: "KEKProvider \<Rightarrow> ('d \<Rightarrow> tenant_id \<Rightarrow> bytes option) \<Rightarrow> 'd TenantCipher \<Rightarrow> bool" where
  "cipher_inv K look c \<longleftrightarrow>
     (\<forall>t a. tbl_get (cs_aeads c) t = Some a \<longrightarrow> data_key K look (cs_deks c) t = Some (aead_key a))"

locale tenant_cipher = dek_store D look + kek_provider K
  for D :: "'d DEKStore" and look and K
begin

lemma data_keyI: "look d t = Some w \<Longrightarrow> UnwrapDEK K ctx t w = Inr dek \<Longrightarrow> data_key K look d t = Some dek"
  using unwrap_live by (auto simp: data_key_def)

lemma data_key_cong: "look d t = look d' t \<Longrightarrow> data_key K look d t = data_key K look d' t"
  by (simp add: data_key_def)

lemma provision:
  assumes "provisionDEK K D env t d = (r, d')"
  shows "look d t' = Some w \<Longrightarrow> look d' t' = Some w"
    and "t' \<noteq> t \<Longrightarrow> look d' t' = look d t'"
    and "r = Inr dek \<Longrightarrow> data_key K look d' t = Some dek"
  using assms put_first [of d t' w] put_other get_found data_keyI
  by (auto simp: provisionDEK_def case_prod_beta split: sum.splits)

lemma load:
  assumes "loadDEK K D env t create d = (r, d')"
  shows "look d t' = Some w \<Longrightarrow> look d' t' = Some w"
    and "t' \<noteq> t \<Longrightarrow> look d' t' = look d t'"
    and "r = Inr dek \<Longrightarrow> data_key K look d' t = Some dek"
  using assms provision get_found data_keyI
  by (auto simp: loadDEK_def split: sum.splits if_splits)

lemma load_size: "loadDEK K D env t create d = (Inr dek, d') \<Longrightarrow> length dek = dekSize"
  using unwrap_size by (fastforce simp: loadDEK_def provisionDEK_def case_prod_beta split: sum.splits if_splits)

lemma key_kept:
  "(\<And>w. look d t = Some w \<Longrightarrow> look d' t = Some w) \<Longrightarrow> data_key K look d t = Some k \<Longrightarrow> data_key K look d' t = Some k"
  by (auto simp: data_key_def split: option.splits)

lemma aead:
  assumes inv: "cipher_inv K look c" and run: "aeadFor K D env t create c = (r, c')"
  shows "cipher_inv K look c'"
    and "data_key K look (cs_deks c) t' = Some k \<Longrightarrow> data_key K look (cs_deks c') t' = Some k"
    and "r = Inr a \<Longrightarrow> data_key K look (cs_deks c') t = Some (aead_key a)"
    and "t' \<noteq> t \<Longrightarrow> look (cs_deks c') t' = look (cs_deks c) t'"
    and "tbl_get (cs_aeads c) t' = Some a' \<Longrightarrow> tbl_get (cs_aeads c') t' = Some a'"
proof -
  obtain rl d' where l: "loadDEK K D env t create (cs_deks c) = (rl, d')" by fastforce
  note load_l = load [OF l]
  have kept: "data_key K look d' t' = Some k" if "data_key K look (cs_deks c) t' = Some k" for t' k
    using load_l(1) that by (rule key_kept)
  have hit: "cipher_inv K look (c\<lparr>cs_deks := d'\<rparr>)" using inv kept by (auto simp: cipher_inv_def)
  have new: "data_key K look d' t = Some dek" if "rl = Inr dek" for dek using load_l(3) that by simp
  show "cipher_inv K look c'"
    using run inv hit new l
    by (auto simp: aeadFor_def Let_def cipher_inv_def newAESGCM_def newGCM_def split: option.splits sum.splits if_splits)
  show "data_key K look (cs_deks c') t' = Some k" if "data_key K look (cs_deks c) t' = Some k"
    using run kept [OF that] that l by (auto simp: aeadFor_def Let_def split: option.splits sum.splits)
  show "data_key K look (cs_deks c') t = Some (aead_key a)" if "r = Inr a"
    using run inv new l that
    by (auto simp: aeadFor_def Let_def cipher_inv_def newAESGCM_def newGCM_def split: option.splits sum.splits if_splits)
  show "look (cs_deks c') t' = look (cs_deks c) t'" if "t' \<noteq> t"
    using run load_l(2) [OF that] l by (auto simp: aeadFor_def Let_def split: option.splits sum.splits)
  show "tbl_get (cs_aeads c') t' = Some a'" if "tbl_get (cs_aeads c) t' = Some a'"
    using run that l by (auto simp: aeadFor_def Let_def split: option.splits sum.splits)
qed

lemma aead_live:
  assumes "cipher_inv K look c" "t \<noteq> []" "ce_ctx env 0 = None" "ce_ctx env 1 = None"
    and "data_key K look (cs_deks c) t = Some k"
  shows "fst (aeadFor K D env t create c) = Inr (AesGcm k)"
proof (cases "tbl_get (cs_aeads c) t")
  case (Some a)
  with assms show ?thesis by (cases a) (auto simp: aeadFor_def cipher_inv_def)
next
  case None
  obtain w where w: "look (cs_deks c) t = Some w" "UnwrapDEK K None t w = Inr k"
    using assms(5) by (auto simp: data_key_def split: option.splits sum.splits)
  then have "loadDEK K D env t create (cs_deks c) = (Inr k, cs_deks c)"
    using assms get_live by (simp add: loadDEK_def)
  with None unwrap_size [OF w(2)] show ?thesis
    by (simp add: aeadFor_def newAESGCM_def dekSize_def)
qed

lemma aead_shredded:
  assumes "cipher_inv K look c" "t \<noteq> []" "ce_ctx env 0 = None" "look (cs_deks c) t = None"
  shows "aeadFor K D env t False c = (Inl ErrDEKNotFound, c)"
proof -
  have "tbl_get (cs_aeads c) t = None"
    using assms(1,4) by (cases "tbl_get (cs_aeads c) t") (force simp: cipher_inv_def data_key_def)+
  with assms get_live show ?thesis by (simp add: aeadFor_def loadDEK_def)
qed

lemma encrypt:
  assumes inv: "cipher_inv K look c" and run: "TenantCipher_Encrypt K D env tc p c = (r, c')"
  shows "cipher_inv K look c'"
    and "data_key K look (cs_deks c) t' = Some k \<Longrightarrow> data_key K look (cs_deks c') t' = Some k"
    and "r = Inr ct \<Longrightarrow> \<exists>k nonce. data_key K look (cs_deks c') (tenantID tc) = Some k \<and> length nonce = gcmNonceSize \<and>
           ct = [blobVersion1] @ nonce @ Seal (AesGcm k) nonce p (tenantID tc) \<and> tenantID tc \<noteq> []"
proof -
  obtain ra ca where a: "aeadFor K D env (tenantID tc) True c = (ra, ca)" by fastforce
  have c': "c' = c \<or> c' = ca"
    using run a by (auto simp: TenantCipher_Encrypt_def split: if_splits sum.splits)
  with aead(1,2) [OF inv a] inv show "cipher_inv K look c'"
    and "data_key K look (cs_deks c) t' = Some k \<Longrightarrow> data_key K look (cs_deks c') t' = Some k"
    by auto
  show "\<exists>k nonce. data_key K look (cs_deks c') (tenantID tc) = Some k \<and> length nonce = gcmNonceSize \<and>
      ct = [blobVersion1] @ nonce @ Seal (AesGcm k) nonce p (tenantID tc) \<and> tenantID tc \<noteq> []" if "r = Inr ct"
  proof -
    note ok = that
    obtain aa nonce where "ra = Inr aa" "c' = ca" "ReadFull (ce_rand env 2) gcmNonceSize = Inr nonce"
        "ct = [blobVersion1] @ nonce @ Seal aa nonce p (tenantID tc)" "tenantID tc \<noteq> []"
      using run a ok by (auto simp: TenantCipher_Encrypt_def split: if_splits sum.splits)
    with aead(3) [OF inv a, of aa] show ?thesis
      by (cases aa) (auto simp: ReadFull_def split: option.splits)
  qed
qed

lemma decrypt:
  assumes inv: "cipher_inv K look c"
  shows "cipher_inv K look (snd (TenantCipher_Decrypt K D env tc ct c))"
    and "data_key K look (cs_deks c) t' = Some k \<Longrightarrow>
      data_key K look (cs_deks (snd (TenantCipher_Decrypt K D env tc ct c))) t' = Some k"
proof -
  obtain ra ca where a: "aeadFor K D env (tenantID tc) False c = (ra, ca)" by fastforce
  have "snd (TenantCipher_Decrypt K D env tc ct c) \<in> {c, ca}"
    using a by (auto simp: TenantCipher_Decrypt_def split: list.splits sum.splits option.splits)
  with aead(1,2) [OF inv a] inv show "cipher_inv K look (snd (TenantCipher_Decrypt K D env tc ct c))"
    and "data_key K look (cs_deks c) t' = Some k \<Longrightarrow>
      data_key K look (cs_deks (snd (TenantCipher_Decrypt K D env tc ct c))) t' = Some k"
    by auto
qed

lemma decrypt_iff:
  assumes "cipher_inv K look c" "tenantID tc \<noteq> []" "ce_ctx env 0 = None" "ce_ctx env 1 = None"
    and "data_key K look (cs_deks c) (tenantID tc) = Some k"
  shows "fst (TenantCipher_Decrypt K D env tc ct c) = Inr p \<longleftrightarrow>
    (\<exists>nonce. length nonce = gcmNonceSize \<and> ct = [blobVersion1] @ nonce @ Seal (AesGcm k) nonce p (tenantID tc))"
proof -
  obtain c' where a: "aeadFor K D env (tenantID tc) False c = (Inr (AesGcm k), c')"
    using aead_live [OF assms, of False] by (cases "aeadFor K D env (tenantID tc) False c") auto
  have open_iff: "(gcmNonceSize + 16 \<le> length body \<and>
        Open (AesGcm k) (take gcmNonceSize body) (drop gcmNonceSize body) (tenantID tc) = Some p) \<longleftrightarrow>
      (\<exists>nonce. length nonce = gcmNonceSize \<and> body = nonce @ Seal (AesGcm k) nonce p (tenantID tc))" for body
  proof
    assume l: "gcmNonceSize + 16 \<le> length body \<and>
        Open (AesGcm k) (take gcmNonceSize body) (drop gcmNonceSize body) (tenantID tc) = Some p"
    then have "body = take gcmNonceSize body @ Seal (AesGcm k) (take gcmNonceSize body) p (tenantID tc)"
      by (metis Open_iff append_take_drop_id)
    with l show "\<exists>nonce. length nonce = gcmNonceSize \<and> body = nonce @ Seal (AesGcm k) nonce p (tenantID tc)"
      by (intro exI [of _ "take gcmNonceSize body"]) simp
  qed auto
  have "fst (TenantCipher_Decrypt K D env tc ct c) = Inr p \<longleftrightarrow>
      (\<exists>body. ct = blobVersion1 # body \<and> gcmNonceSize + 16 \<le> length body \<and>
        Open (AesGcm k) (take gcmNonceSize body) (drop gcmNonceSize body) (tenantID tc) = Some p)"
    using assms(2) a
    by (auto simp: TenantCipher_Decrypt_def Overhead_def split: list.splits option.splits)
  then show ?thesis by (auto simp: open_iff)
qed

lemma decrypt_deks: "cs_deks (snd (TenantCipher_Decrypt K D env tc ct c)) = cs_deks c"
proof -
  have "snd (loadDEK K D env t False d) = d" for t d
    by (auto simp: loadDEK_def split: sum.splits)
  then have "cs_deks (snd (aeadFor K D env t False c)) = cs_deks c" for t
    by (simp add: aeadFor_def Let_def case_prod_beta split: option.split sum.split)
  then show ?thesis
    by (simp add: TenantCipher_Decrypt_def Let_def case_prod_beta split: list.split option.split sum.split)
qed

lemma encrypt_other:
  assumes "cipher_inv K look c" "t \<noteq> tenantID tc"
  shows "look (cs_deks (snd (TenantCipher_Encrypt K D env tc p c))) t = look (cs_deks c) t"
proof -
  obtain r ca where a: "aeadFor K D env (tenantID tc) True c = (r, ca)" by fastforce
  have "snd (TenantCipher_Encrypt K D env tc p c) \<in> {c, ca}"
    using a by (auto simp: TenantCipher_Encrypt_def split: sum.splits)
  with aead(4) [OF assms(1) a assms(2)] show ?thesis by auto
qed

lemma forget: "cipher_inv K look c \<Longrightarrow> cipher_inv K look (TenantCipher_Forget t c)"
  by (simp add: cipher_inv_def TenantCipher_Forget_def)

lemma erase_steps:
  assumes "cipher_inv K look c"
  shows "cipher_inv K look (erase D ctx t c)"
    and "t' \<noteq> t \<Longrightarrow> look (cs_deks (erase D ctx t c)) t' = look (cs_deks c) t'"
    and "fst (DeleteDEK D ctx t (cs_deks c)) = Inr () \<Longrightarrow> look (cs_deks (erase D ctx t c)) t = None"
proof -
  obtain r d where del: "DeleteDEK D ctx t (cs_deks c) = (r, d)" by fastforce
  have other: "look d t' = look (cs_deks c) t'" if "t' \<noteq> t" for t'
    using delete_other [OF that, of ctx "cs_deks c"] del by simp
  have failed: "look d t' = look (cs_deks c) t'" if "r = Inl e" for t' e
    using delete_failed [of ctx t "cs_deks c"] del that by simp
  have "data_key K look d t' = Some (aead_key a)"
    if "tbl_get (cs_aeads c) t' = Some a" "t' \<noteq> t \<or> (\<exists>e. r = Inl e)" for t' a
    using assms that other failed by (metis cipher_inv_def data_key_cong)
  with del show "cipher_inv K look (erase D ctx t c)"
    by (cases r) (auto simp: erase_def cipher_inv_def TenantCipher_Forget_def)
  show "look (cs_deks (erase D ctx t c)) t' = look (cs_deks c) t'" if "t' \<noteq> t"
    using del other [OF that] by (cases r) (simp_all add: erase_def TenantCipher_Forget_def)
  show "look (cs_deks (erase D ctx t c)) t = None" if "fst (DeleteDEK D ctx t (cs_deks c)) = Inr ()"
    using delete_done [OF that] del that by (cases r) (simp_all add: erase_def TenantCipher_Forget_def)
qed

lemma op_inv: "cipher_inv K look c \<Longrightarrow> cipher_inv K look (run_op K D op c)"
  using encrypt(1) [OF _ surjective_pairing] by (cases op) (simp_all add: decrypt forget erase_steps)

lemma ops_inv: "cipher_inv K look c \<Longrightarrow> cipher_inv K look (run_ops K D ops c)"
  by (induction ops arbitrary: c) (simp_all add: run_ops_def op_inv)

lemma op_key:
  assumes "cipher_inv K look c" "\<not> erases t op" "data_key K look (cs_deks c) t = Some k"
  shows "data_key K look (cs_deks (run_op K D op c)) t = Some k"
proof (cases op)
  case (OpEncrypt env tc p)
  with assms encrypt(2) [OF assms(1) surjective_pairing] show ?thesis by simp
next
  case (OpDecrypt env tc ct)
  with assms decrypt(2) show ?thesis by simp
next
  case (OpForget t')
  with assms show ?thesis by (simp add: TenantCipher_Forget_def)
next
  case (OpErase ctx t')
  with assms(2) have "t \<noteq> t'" by simp
  from data_key_cong [OF erase_steps(2) [OF assms(1) this, of ctx]] show ?thesis
    using OpErase assms(3) by simp
qed

lemma ops_key:
  "cipher_inv K look c \<Longrightarrow> list_all (\<lambda>op. \<not> erases t op) ops \<Longrightarrow> data_key K look (cs_deks c) t = Some k \<Longrightarrow>
     data_key K look (cs_deks (run_ops K D ops c)) t = Some k"
  by (induction ops arbitrary: c) (simp_all add: run_ops_def op_inv op_key)

lemma op_absent:
  assumes "cipher_inv K look c" "\<not> encrypts t op" "look (cs_deks c) t = None"
  shows "look (cs_deks (run_op K D op c)) t = None"
proof (cases op)
  case (OpEncrypt env tc p)
  with assms(2) have "t \<noteq> tenantID tc" by simp
  from encrypt_other [OF assms(1) this] OpEncrypt assms(3) show ?thesis by simp
next
  case (OpErase ctx t')
  show ?thesis
  proof (cases "t = t'")
    case True
    then show ?thesis
      using delete_done delete_failed assms(3) OpErase
      by (cases "fst (DeleteDEK D ctx t (cs_deks c))")
        (auto simp: erase_def TenantCipher_Forget_def case_prod_beta)
  qed (use erase_steps(2) [OF assms(1)] OpErase assms(3) in simp)
qed (use assms(3) in \<open>simp_all add: decrypt_deks TenantCipher_Forget_def\<close>)

lemma ops_absent:
  "cipher_inv K look c \<Longrightarrow> list_all (\<lambda>op. \<not> encrypts t op) ops \<Longrightarrow> look (cs_deks c) t = None \<Longrightarrow>
     look (cs_deks (run_ops K D ops c)) t = None"
  by (induction ops arbitrary: c) (simp_all add: run_ops_def op_inv op_absent)

lemma prov_reaches:
  "(prov_step K D t)\<^sup>*\<^sup>* s s' \<Longrightarrow> \<forall>i x. snd s i = PDone x \<longrightarrow> data_key K look (fst s) t = Some x \<Longrightarrow>
     snd s' i = PDone x \<Longrightarrow> data_key K look (fst s') t = Some x"
proof (induction arbitrary: i x rule: rtranclp_induct)
  case (step s1 s2)
  from step.IH step.prems(1) have IH: "\<And>i x. snd s1 i = PDone x \<Longrightarrow> data_key K look (fst s1) t = Some x" by blast
  from step.hyps(2) show ?case
  proof cases
    case (prov_put pcs j w ctx d r d')
    have "look d' t = Some v" if "look d t = Some v" for v
      using put_first [OF that, of ctx t w] prov_put by simp
    with IH prov_put step.prems(2) key_kept [of d t d'] show ?thesis by (auto split: if_splits)
  next
    case (prov_get pcs j ctx d w ctx' dek)
    have "data_key K look d t = Some dek"
      using get_found [OF prov_get(4)] prov_get(5) by (rule data_keyI)
    with IH prov_get step.prems(2) show ?thesis by (auto split: if_splits)
  qed (use IH step.prems(2) in \<open>auto split: if_splits\<close>)
qed simp

end

interpretation tcm: tenant_cipher memDEKStore "\<lambda>d t. tbl_get d t" "fileKEK k" for k
  by unfold_locales

lemma cipher_inv_new [simp]: "cipher_inv K look (NewTenantCipher d)"
  by (simp add: cipher_inv_def NewTenantCipher_def)

section \<open>Sample data\<close>

definition sample_kek :: KEKProvider where
  "sample_kek = fileKEK (AesGcm (replicate 32 CHR 0x07))"

definition sample_cenv :: crypto_env where
  "sample_cenv = \<lparr>ce_ctx = (\<lambda>_. None), ce_rand = (\<lambda>_. Some (\<lambda>_. CHR 0x09))\<rparr>"

definition sample_wrapped :: "char \<Rightarrow> bytes" where
  "sample_wrapped b = [wrapVersion1] @ replicate 12 b @
     Seal (AesGcm (replicate 32 CHR 0x07)) (replicate 12 b) (replicate 32 b) ''t''"

definition sample_history :: "cipher_op list" where
  "sample_history = [OpEncrypt sample_cenv \<lparr>tenantID = ''t'', subject = ''t''\<rparr> ''x'']"

lemma ReadFull_const [simp]: "ReadFull (Some (\<lambda>_. b)) n = Inr (replicate n b)"
  by (simp add: ReadFull_def map_replicate_const)

lemma sample_wrapped_nonempty [simp]: "sample_wrapped b \<noteq> []"
  by (simp add: sample_wrapped_def)

lemma sample_wrap: "WrapDEK sample_kek None (Some (\<lambda>_. b)) ''t'' (replicate 32 b) = Inr (sample_wrapped b)"
  by (simp add: sample_kek_def fileKEK_def fileKEK_WrapDEK_def dekSize_def gcmNonceSize_def sample_wrapped_def)

lemma sample_unwrap: "UnwrapDEK sample_kek None ''t'' (sample_wrapped b) = Inr (replicate 32 b)"
  using sample_wrap unfolding sample_kek_def by (rule fk.unwrap_wrap)

lemma sample_encrypt:
  assumes "tenantID tc = ''t''"
  shows "\<exists>ct. TenantCipher_Encrypt sample_kek memDEKStore sample_cenv tc p (NewTenantCipher []) =
    (Inr ct, \<lparr>cs_deks = [(''t'', sample_wrapped CHR 0x09)], cs_aeads = [(''t'', AesGcm (replicate 32 CHR 0x09))]\<rparr>)"
proof -
  have "provisionDEK sample_kek memDEKStore sample_cenv ''t'' [] =
      (Inr (replicate 32 CHR 0x09), [(''t'', sample_wrapped CHR 0x09)])"
    by (simp add: provisionDEK_def sample_cenv_def dekSize_def sample_wrap sample_unwrap
        memDEKStore_def memDEKStore_Get_def memDEKStore_Put_def)
  then have "aeadFor sample_kek memDEKStore sample_cenv ''t'' True (NewTenantCipher []) =
      (Inr (AesGcm (replicate 32 CHR 0x09)),
       \<lparr>cs_deks = [(''t'', sample_wrapped CHR 0x09)], cs_aeads = [(''t'', AesGcm (replicate 32 CHR 0x09))]\<rparr>)"
    by (simp add: aeadFor_def loadDEK_def NewTenantCipher_def memDEKStore_def memDEKStore_Get_def newAESGCM_def newGCM_def
        sample_cenv_def)
  then show ?thesis using assms by (simp add: TenantCipher_Encrypt_def) (simp add: sample_cenv_def)
qed

lemma sample_key:
  "data_key sample_kek tbl_get (cs_deks (run_ops sample_kek memDEKStore sample_history (NewTenantCipher []))) ''t''
    = Some (replicate 32 CHR 0x09)"
proof -
  have "cs_deks (run_ops sample_kek memDEKStore sample_history (NewTenantCipher [])) = [(''t'', sample_wrapped CHR 0x09)]"
    using sample_encrypt [of "\<lparr>tenantID = ''t'', subject = ''t''\<rparr>" "''x''"]
    by (auto simp: run_ops_def sample_history_def)
  then show ?thesis by (simp add: data_key_def sample_unwrap)
qed

section \<open>Properties\<close>

text \<open>
  C9: What the cipher encrypts for a tenant it decrypts for that tenant, after any history of the
  cipher and whatever encryptions, decryptions, cache drops and erasures of other tenants happen in
  between.
\<close>

theorem encrypt_decrypt_roundtrip:
  assumes "TenantCipher_Encrypt (fileKEK k) memDEKStore env tc p
      (run_ops (fileKEK k) memDEKStore history (NewTenantCipher [])) = (Inr ct, c)"
    and "list_all (\<lambda>op. \<not> erases (tenantID tc) op) ops"
    and "tenantID tc' = tenantID tc" and "ce_ctx env' = (\<lambda>_. None)"
  shows "fst (TenantCipher_Decrypt (fileKEK k) memDEKStore env' tc' ct
      (run_ops (fileKEK k) memDEKStore ops c)) = Inr p"
proof -
  have inv: "cipher_inv (fileKEK k) (\<lambda>d t. tbl_get d t) (run_ops (fileKEK k) memDEKStore history (NewTenantCipher []))"
    by (rule tcm.ops_inv) simp
  note enc = tcm.encrypt [OF inv assms(1)]
  from enc(3) obtain dek nonce where key: "data_key (fileKEK k) (\<lambda>d t. tbl_get d t) (cs_deks c) (tenantID tc) = Some dek"
      "length nonce = gcmNonceSize" "ct = [blobVersion1] @ nonce @ Seal (AesGcm dek) nonce p (tenantID tc)"
      "tenantID tc \<noteq> []" by blast
  note after = tcm.ops_inv [OF enc(1), of ops] and key' = tcm.ops_key [OF enc(1) assms(2) key(1)]
  show ?thesis
    using tcm.decrypt_iff [OF after, of tc' env' dek ct p] key key' assms(3,4) by auto
qed

theorem encrypt_decrypt_roundtrip_witness:
  "\<exists>ct c. TenantCipher_Encrypt sample_kek memDEKStore sample_cenv \<lparr>tenantID = ''t'', subject = ''u''\<rparr> ''secret''
       (NewTenantCipher []) = (Inr ct, c) \<and>
     fst (TenantCipher_Decrypt sample_kek memDEKStore sample_cenv \<lparr>tenantID = ''t'', subject = ''t''\<rparr> ct
       (run_ops sample_kek memDEKStore [OpForget ''t'', OpErase None ''x''] c)) = Inr ''secret''"
proof -
  obtain ct c where enc: "TenantCipher_Encrypt sample_kek memDEKStore sample_cenv \<lparr>tenantID = ''t'', subject = ''u''\<rparr> ''secret''
      (run_ops sample_kek memDEKStore [] (NewTenantCipher [])) = (Inr ct, c)"
    using sample_encrypt [of "\<lparr>tenantID = ''t'', subject = ''u''\<rparr>" "''secret''"] by (auto simp: run_ops_def)
  have "fst (TenantCipher_Decrypt sample_kek memDEKStore sample_cenv \<lparr>tenantID = ''t'', subject = ''t''\<rparr> ct
      (run_ops sample_kek memDEKStore [OpForget ''t'', OpErase None ''x''] c)) = Inr ''secret''"
    by (rule encrypt_decrypt_roundtrip [OF enc [unfolded sample_kek_def], folded sample_kek_def])
      (simp_all add: sample_cenv_def)
  with enc show ?thesis by (auto simp: run_ops_def)
qed



text \<open>
  C22: Decryption is exact. For a tenant whose data key is \<open>dek\<close>, a blob decrypts to \<open>p\<close> if and only if it
  is the version byte, a nonce and the seal of \<open>p\<close> under that key and nonce with that tenant's ID as
  additional data; any other byte string, in particular one sealed for another tenant's ID, is
  refused unless it coincides with such a seal.
\<close>

theorem decrypt_exact:
  assumes "tenantID tc \<noteq> []" and "ce_ctx env = (\<lambda>_. None)"
    and "data_key (fileKEK k) tbl_get (cs_deks (run_ops (fileKEK k) memDEKStore history (NewTenantCipher []))) (tenantID tc) = Some dek"
  shows "fst (TenantCipher_Decrypt (fileKEK k) memDEKStore env tc ct
           (run_ops (fileKEK k) memDEKStore history (NewTenantCipher []))) = Inr p \<longleftrightarrow>
    (\<exists>nonce. length nonce = gcmNonceSize \<and> ct = [blobVersion1] @ nonce @ Seal (AesGcm dek) nonce p (tenantID tc))"
  by (rule tcm.decrypt_iff) (use assms in \<open>simp_all add: tcm.ops_inv\<close>)

theorem decrypt_exact_witness:
  "fst (TenantCipher_Decrypt sample_kek memDEKStore sample_cenv \<lparr>tenantID = ''t'', subject = ''t''\<rparr>
      ([blobVersion1] @ replicate 12 CHR 0x05 @
        Seal (AesGcm (replicate 32 CHR 0x09)) (replicate 12 CHR 0x05) ''note'' ''t'')
      (run_ops sample_kek memDEKStore sample_history (NewTenantCipher []))) = Inr ''note''"
proof -
  have "data_key sample_kek tbl_get (cs_deks (run_ops sample_kek memDEKStore sample_history (NewTenantCipher []))) ''t''
      = Some (replicate 32 CHR 0x09)"
    by (rule sample_key)
  then show ?thesis
    unfolding sample_kek_def by (subst decrypt_exact) (auto simp: sample_cenv_def gcmNonceSize_def)
qed



end
