(* ===== verification/Control_Server.thy ===== *)
theory Control_Server
  imports Control_Store_Facts Go_Json Crypto
begin

text \<open>
  The tenant-scoped RPC handlers of the control plane (\<open>services/control-plane/server.go\<close>,
  \<open>personalization.go\<close>) and the scheduler's enumeration (\<open>scheduler.go\<close>), over any store and any
  token cipher. A handler is a function from the call's surroundings, the request and the server's
  state to a gRPC status or a response, and the new state.

  \<open>uuid.Parse\<close> and the conversions of \<open>timestamppb\<close> are code of other modules: they are the fields
  of the parameter \<open>ext_lib\<close>.
\<close>

section \<open>The model\<close>

subsection \<open>Surroundings\<close>

record ext_lib =
  uuid_Parse :: "string \<Rightarrow> string option"
  ts_CheckValid :: "pb_timestamp \<Rightarrow> bool"
  ts_AsTime :: "pb_timestamp \<Rightarrow> time"
  ts_New :: "time \<Rightarrow> pb_timestamp"

record 'c tokenCipher =
  Encrypt :: "crypto_env \<Rightarrow> tenancy_context \<Rightarrow> bytes \<Rightarrow> 'c \<Rightarrow> (crypto_error + bytes) \<times> 'c"
  Decrypt :: "crypto_env \<Rightarrow> tenancy_context \<Rightarrow> bytes \<Rightarrow> 'c \<Rightarrow> (crypto_error + bytes) \<times> 'c"
  Forget :: "tenant_id \<Rightarrow> 'c \<Rightarrow> 'c"

record ('s, 'c) server =
  sv_store :: "'s Store"
  sv_cipher :: "'c tokenCipher"
  sv_maxConnectorInstances :: int
  sv_lib :: ext_lib

text \<open>The request context, the surroundings of each store call the handler makes, in order, and those
  of its cipher call.\<close>

record rpc_env =
  re_ctx :: go_ctx
  re_call :: "nat \<Rightarrow> call_env"
  re_crypto :: crypto_env

type_synonym ('s, 'c, 'a) rpc = "'s \<times> 'c \<Rightarrow> (rpc_status + 'a) \<times> ('s \<times> 'c)"

definition rpc_return :: "'a \<Rightarrow> ('s, 'c, 'a) rpc" where
  "rpc_return a st = (Inr a, st)"

definition rpc_check :: "rpc_status + 'a \<Rightarrow> ('s, 'c, 'a) rpc" where
  "rpc_check r st = (r, st)"

definition rpc_bind :: "('s, 'c, 'a) rpc \<Rightarrow> ('a \<Rightarrow> ('s, 'c, 'b) rpc) \<Rightarrow> ('s, 'c, 'b) rpc" where
  "rpc_bind m f st = (case m st of (Inl e, st') \<Rightarrow> (Inl e, st') | (Inr a, st') \<Rightarrow> f a st')"

definition rpc_require :: "bool \<Rightarrow> string \<Rightarrow> rpc_status + unit" where
  "rpc_require ok msg = (if ok then Inr () else Inl (Status InvalidArgument msg))"

subsection \<open>Helpers of \<open>server.go\<close>\<close>

definition callerTenant :: "go_ctx \<Rightarrow> rpc_status + tenancy_context" where
  "callerTenant ctx =
     (case FromContext ctx of
        Inl _ \<Rightarrow> Inl (Status Unauthenticated ''no tenant in request context'')
      | Inr tc \<Rightarrow> Inr tc)"

definition rpcErr :: "string \<Rightarrow> store_error \<Rightarrow> rpc_status" where
  "rpcErr rpc e =
     (case e of
        ErrNotFound \<Rightarrow> Status NotFound ''not found''
      | CtxCanceled \<Rightarrow> Status Canceled ''request canceled''
      | CtxDeadline \<Rightarrow> Status DeadlineExceeded ''deadline exceeded''
      | _ \<Rightarrow> Status Internal (rpc @ '' failed''))"

definition parseInstanceID :: "ext_lib \<Rightarrow> string \<Rightarrow> string \<Rightarrow> rpc_status + string" where
  "parseInstanceID X iid field =
     (if iid = [] then Inl (Status InvalidArgument (field @ '' is required''))
      else case uuid_Parse X iid of
             None \<Rightarrow> Inl (Status InvalidArgument (field @ '' must be a UUID''))
           | Some u \<Rightarrow> Inr u)"

definition ConnectorStatus_value :: "string \<Rightarrow> int option" where
  "ConnectorStatus_value = map_of
     [(''CONNECTOR_STATUS_UNSPECIFIED'', 0), (''ACTIVE'', 1), (''PAUSED'', 2), (''ERROR'', 3)]"

definition SyncPhase_name :: "int \<Rightarrow> string option" where
  "SyncPhase_name = map_of [(0, ''SYNC_PHASE_UNSPECIFIED''), (1, ''PENDING''), (2, ''FULL_SYNC''),
     (3, ''INCREMENTAL''), (4, ''FAILED'')]"

definition SyncPhase_value :: "string \<Rightarrow> int option" where
  "SyncPhase_value = map_of [(''SYNC_PHASE_UNSPECIFIED'', 0), (''PENDING'', 1), (''FULL_SYNC'', 2),
     (''INCREMENTAL'', 3), (''FAILED'', 4)]"

definition normalizePhase :: "int \<Rightarrow> rpc_status + string" where
  "normalizePhase p0 =
     (let p = (if p0 = 0 then 1 else p0) in
      case SyncPhase_name p of
        None \<Rightarrow> Inl (Status InvalidArgument (''state.phase '' @ FormatInt p @ '' is not a known SyncPhase''))
      | Some name \<Rightarrow> Inr name)"

definition statusFromText :: "string \<Rightarrow> int" where
  "statusFromText s = (case ConnectorStatus_value s of Some v \<Rightarrow> v | None \<Rightarrow> 0)"

definition phaseFromText :: "string \<Rightarrow> int" where
  "phaseFromText s = (case SyncPhase_value s of Some v \<Rightarrow> v | None \<Rightarrow> 0)"

definition timeFromProto :: "ext_lib \<Rightarrow> pb_timestamp option \<Rightarrow> string \<Rightarrow> rpc_status + time option" where
  "timeFromProto X ts field =
     (case ts of
        None \<Rightarrow> Inr None
      | Some v \<Rightarrow> if \<not> ts_CheckValid X v then Inl (Status InvalidArgument (field @ '' is not a valid timestamp''))
                  else Inr (Some (ts_AsTime X v)))"

subsection \<open>Messages\<close>

record pb_ConnectorInstance =
  pi_Id :: string
  pi_ConnectorId :: string
  pi_DisplayName :: string
  pi_ConfigJson :: bytes
  pi_Status :: int
  pi_Created :: pb_timestamp
  pi_Updated :: pb_timestamp

record pb_SyncState =
  ps_ConnectorInstanceId :: string
  ps_Cursor :: string
  ps_Phase :: int
  ps_LastSyncStarted :: "pb_timestamp option"
  ps_LastSyncCompleted :: "pb_timestamp option"
  ps_LastError :: string
  ps_DocsEmitted :: int64

definition instanceToProto :: "ext_lib \<Rightarrow> ConnectorInstance \<Rightarrow> pb_ConnectorInstance" where
  "instanceToProto X inst = \<lparr>pi_Id = ci_ID inst, pi_ConnectorId = ci_ConnectorID inst,
     pi_DisplayName = ci_DisplayName inst, pi_ConfigJson = ci_ConfigJSON inst,
     pi_Status = statusFromText (ci_Status inst),
     pi_Created = ts_New X (ci_CreatedAt inst), pi_Updated = ts_New X (ci_UpdatedAt inst)\<rparr>"

definition syncStateToProto :: "ext_lib \<Rightarrow> SyncState \<Rightarrow> pb_SyncState" where
  "syncStateToProto X st = \<lparr>ps_ConnectorInstanceId = ss_InstanceID st, ps_Cursor = ss_Cursor st,
     ps_Phase = phaseFromText (ss_Phase st),
     ps_LastSyncStarted = map_option (ts_New X) (ss_LastSyncStarted st),
     ps_LastSyncCompleted = map_option (ts_New X) (ss_LastSyncCompleted st),
     ps_LastError = ss_LastError st, ps_DocsEmitted = ss_DocsEmitted st\<rparr>"

record pb_Personalization =
  pp_ProfileJson :: string
  pp_Version :: int64
  pp_WeightsJson :: string
  pp_SampleCount :: int64
  pp_Exists :: bool

subsection \<open>Handlers\<close>

definition on_store :: "('s \<Rightarrow> (store_error + 'a) \<times> 's) \<Rightarrow> ('s, 'c, store_error + 'a) rpc" where
  "on_store f st = (let (r, s') = f (fst st) in (Inr r, (s', snd st)))"

definition on_cipher :: "('c \<Rightarrow> (crypto_error + 'a) \<times> 'c) \<Rightarrow> ('s, 'c, crypto_error + 'a) rpc" where
  "on_cipher f st = (let (r, c') = f (snd st) in (Inr r, (fst st, c')))"

text \<open>A store call whose error is mapped by \<open>rpcErr\<close>, and a cipher call whose error is opaque.\<close>

definition store_rpc :: "string \<Rightarrow> ('s \<Rightarrow> (store_error + 'a) \<times> 's) \<Rightarrow> ('s, 'c, 'a) rpc" where
  "store_rpc rpc f = rpc_bind (on_store f) (\<lambda>r. rpc_check (case r of Inl e \<Rightarrow> Inl (rpcErr rpc e) | Inr a \<Rightarrow> Inr a))"

definition cipher_rpc :: "string \<Rightarrow> ('c \<Rightarrow> (crypto_error + 'a) \<times> 'c) \<Rightarrow> ('s, 'c, 'a) rpc" where
  "cipher_rpc rpc f = rpc_bind (on_cipher f)
     (\<lambda>r. rpc_check (case r of Inl _ \<Rightarrow> Inl (Status Internal (rpc @ '' failed'')) | Inr a \<Rightarrow> Inr a))"

definition server_EnsureTenant :: "('s, 'c) server \<Rightarrow> rpc_env \<Rightarrow> ('s, 'c, string \<times> pb_timestamp) rpc" where
  "server_EnsureTenant sv env =
     rpc_bind (rpc_check (callerTenant (re_ctx env))) (\<lambda>tc.
     rpc_bind (store_rpc ''EnsureTenant'' (EnsureTenant (sv_store sv) (re_call env 0) (tenantID tc))) (\<lambda>t.
     rpc_return (tn_ID t, ts_New (sv_lib sv) (tn_CreatedAt t))))"

definition maxConnectorIDLen :: nat where "maxConnectorIDLen = 128"
definition maxDisplayNameLen :: nat where "maxDisplayNameLen = 256"
definition maxConfigJSONBytes :: nat where "maxConfigJSONBytes = 262144"
definition maxTokenBytes :: nat where "maxTokenBytes = 65536"
definition maxCursorBytes :: nat where "maxCursorBytes = 65536"
definition maxLastErrorLen :: nat where "maxLastErrorLen = 4096"
definition maxProfileJSONBytes :: nat where "maxProfileJSONBytes = 65536"

definition exceeds :: "string \<Rightarrow> nat \<Rightarrow> string" where
  "exceeds field n = field @ '' exceeds '' @ Itoa n @ '' bytes''"

definition check_create :: "string \<Rightarrow> string \<Rightarrow> bytes \<Rightarrow> rpc_status + bytes" where
  "check_create connectorId displayName configJson =
     (if connectorId = [] then Inl (Status InvalidArgument ''connector_id is required'')
      else if length connectorId > maxConnectorIDLen
        then Inl (Status InvalidArgument (exceeds ''connector_id'' maxConnectorIDLen))
      else if length displayName > maxDisplayNameLen
        then Inl (Status InvalidArgument (exceeds ''display_name'' maxDisplayNameLen))
      else if length configJson > maxConfigJSONBytes
        then Inl (Status InvalidArgument (exceeds ''config_json'' maxConfigJSONBytes))
      else
        let configJSON = (if length configJson = 0 then ''{}'' else configJson) in
        if \<not> json_Valid configJSON then Inl (Status InvalidArgument ''config_json is not valid JSON'')
        else Inr configJSON)"

definition server_CreateConnectorInstance ::
  "('s, 'c) server \<Rightarrow> rpc_env \<Rightarrow> string \<Rightarrow> string \<Rightarrow> bytes \<Rightarrow> ('s, 'c, pb_ConnectorInstance) rpc" where
  "server_CreateConnectorInstance sv env connectorId displayName configJson =
     rpc_bind (rpc_check (callerTenant (re_ctx env))) (\<lambda>tc.
     rpc_bind (rpc_check (check_create connectorId displayName configJson)) (\<lambda>configJSON.
     rpc_bind (on_store (CreateConnectorInstance (sv_store sv) (re_call env 0)
         \<lparr>ci_ID = [], ci_TenantID = tenantID tc, ci_ConnectorID = connectorId, ci_DisplayName = displayName,
          ci_ConfigJSON = configJSON, ci_Status = ''ACTIVE'', ci_CreatedAt = 0, ci_UpdatedAt = 0\<rparr>
         (sv_maxConnectorInstances sv))) (\<lambda>r.
     rpc_check (case r of
         Inl e \<Rightarrow> Inl (if e = ErrQuotaExceeded
             then Status ResourceExhausted (''connector instance quota reached ('' @
                    FormatInt (sv_maxConnectorInstances sv) @ ''); delete an existing connector first'')
             else rpcErr ''CreateConnectorInstance'' e)
       | Inr inst \<Rightarrow> Inr (instanceToProto (sv_lib sv) inst)))))"

definition server_ListConnectorInstances ::
  "('s, 'c) server \<Rightarrow> rpc_env \<Rightarrow> ('s, 'c, pb_ConnectorInstance list) rpc" where
  "server_ListConnectorInstances sv env =
     rpc_bind (rpc_check (callerTenant (re_ctx env))) (\<lambda>tc.
     rpc_bind (store_rpc ''ListConnectorInstances''
         (ListConnectorInstances (sv_store sv) (re_call env 0) (tenantID tc))) (\<lambda>instances.
     rpc_return (map (instanceToProto (sv_lib sv)) instances)))"

definition server_GetConnectorInstance ::
  "('s, 'c) server \<Rightarrow> rpc_env \<Rightarrow> string \<Rightarrow> ('s, 'c, pb_ConnectorInstance) rpc" where
  "server_GetConnectorInstance sv env reqId =
     rpc_bind (rpc_check (callerTenant (re_ctx env))) (\<lambda>tc.
     rpc_bind (rpc_check (parseInstanceID (sv_lib sv) reqId ''id'')) (\<lambda>iid.
     rpc_bind (store_rpc ''GetConnectorInstance''
         (GetConnectorInstance (sv_store sv) (re_call env 0) (tenantID tc) iid)) (\<lambda>inst.
     rpc_return (instanceToProto (sv_lib sv) inst))))"

definition server_DeleteConnectorInstance ::
  "('s, 'c) server \<Rightarrow> rpc_env \<Rightarrow> string \<Rightarrow> ('s, 'c, unit) rpc" where
  "server_DeleteConnectorInstance sv env reqId =
     rpc_bind (rpc_check (callerTenant (re_ctx env))) (\<lambda>tc.
     rpc_bind (rpc_check (parseInstanceID (sv_lib sv) reqId ''id'')) (\<lambda>iid.
     store_rpc ''DeleteConnectorInstance''
       (DeleteConnectorInstance (sv_store sv) (re_call env 0) (tenantID tc) iid)))"

definition server_GetSyncState :: "('s, 'c) server \<Rightarrow> rpc_env \<Rightarrow> string \<Rightarrow> ('s, 'c, pb_SyncState) rpc" where
  "server_GetSyncState sv env reqId =
     rpc_bind (rpc_check (callerTenant (re_ctx env))) (\<lambda>tc.
     rpc_bind (rpc_check (parseInstanceID (sv_lib sv) reqId ''connector_instance_id'')) (\<lambda>iid.
     rpc_bind (store_rpc ''GetSyncState'' (GetSyncState (sv_store sv) (re_call env 0) (tenantID tc) iid)) (\<lambda>st.
     rpc_return (syncStateToProto (sv_lib sv) st))))"

definition server_SetSyncState ::
  "('s, 'c) server \<Rightarrow> rpc_env \<Rightarrow> pb_SyncState option \<Rightarrow> ('s, 'c, pb_SyncState) rpc" where
  "server_SetSyncState sv env reqState =
     rpc_bind (rpc_check (callerTenant (re_ctx env))) (\<lambda>tc.
     rpc_bind (rpc_check (case reqState of
         None \<Rightarrow> Inl (Status InvalidArgument ''state is required'') | Some x \<Rightarrow> Inr x)) (\<lambda>x.
     rpc_bind (rpc_check (parseInstanceID (sv_lib sv) (ps_ConnectorInstanceId x) ''state.connector_instance_id'')) (\<lambda>iid.
     rpc_bind (rpc_check (rpc_require (length (ps_Cursor x) \<le> maxCursorBytes) (exceeds ''state.cursor'' maxCursorBytes))) (\<lambda>_.
     rpc_bind (rpc_check (normalizePhase (ps_Phase x))) (\<lambda>phase.
     rpc_bind (rpc_check (timeFromProto (sv_lib sv) (ps_LastSyncStarted x) ''state.last_sync_started'')) (\<lambda>started.
     rpc_bind (rpc_check (timeFromProto (sv_lib sv) (ps_LastSyncCompleted x) ''state.last_sync_completed'')) (\<lambda>completed.
     rpc_bind (rpc_check (rpc_require (\<not> ps_DocsEmitted x <s 0) ''state.docs_emitted must be >= 0'')) (\<lambda>_.
     rpc_bind (store_rpc ''SetSyncState'' (SetSyncState (sv_store sv) (re_call env 0) (tenantID tc)
         \<lparr>ss_InstanceID = iid, ss_TenantID = tenantID tc, ss_Cursor = ps_Cursor x, ss_Phase = phase,
          ss_LastSyncStarted = started, ss_LastSyncCompleted = completed,
          ss_LastError = (if length (ps_LastError x) > maxLastErrorLen then take maxLastErrorLen (ps_LastError x)
                          else ps_LastError x),
          ss_DocsEmitted = ps_DocsEmitted x\<rparr>)) (\<lambda>st.
     rpc_return (syncStateToProto (sv_lib sv) st))))))))))"

definition server_PutToken :: "('s, 'c) server \<Rightarrow> rpc_env \<Rightarrow> string \<Rightarrow> bytes \<Rightarrow> ('s, 'c, unit) rpc" where
  "server_PutToken sv env reqId token =
     rpc_bind (rpc_check (callerTenant (re_ctx env))) (\<lambda>tc.
     rpc_bind (rpc_check (parseInstanceID (sv_lib sv) reqId ''connector_instance_id'')) (\<lambda>iid.
     rpc_bind (rpc_check (rpc_require (length token \<noteq> 0) ''token is required'')) (\<lambda>_.
     rpc_bind (rpc_check (rpc_require (length token \<le> maxTokenBytes) (exceeds ''token'' maxTokenBytes))) (\<lambda>_.
     rpc_bind (cipher_rpc ''PutToken'' (Encrypt (sv_cipher sv) (re_crypto env) tc token)) (\<lambda>ciphertext.
     store_rpc ''PutToken'' (PutToken (sv_store sv) (re_call env 0) (tenantID tc) iid ciphertext))))))"

definition server_GetToken :: "('s, 'c) server \<Rightarrow> rpc_env \<Rightarrow> string \<Rightarrow> ('s, 'c, bytes) rpc" where
  "server_GetToken sv env reqId =
     rpc_bind (rpc_check (callerTenant (re_ctx env))) (\<lambda>tc.
     rpc_bind (rpc_check (parseInstanceID (sv_lib sv) reqId ''connector_instance_id'')) (\<lambda>iid.
     rpc_bind (store_rpc ''GetToken'' (GetToken (sv_store sv) (re_call env 0) (tenantID tc) iid)) (\<lambda>ciphertext.
     cipher_rpc ''GetToken'' (Decrypt (sv_cipher sv) (re_crypto env) tc ciphertext))))"

definition server_DeleteToken :: "('s, 'c) server \<Rightarrow> rpc_env \<Rightarrow> string \<Rightarrow> ('s, 'c, unit) rpc" where
  "server_DeleteToken sv env reqId =
     rpc_bind (rpc_check (callerTenant (re_ctx env))) (\<lambda>tc.
     rpc_bind (rpc_check (parseInstanceID (sv_lib sv) reqId ''connector_instance_id'')) (\<lambda>iid.
     store_rpc ''DeleteToken'' (DeleteToken (sv_store sv) (re_call env 0) (tenantID tc) iid)))"

subsection \<open>Personalization handlers\<close>

definition server_GetPersonalization :: "('s, 'c) server \<Rightarrow> rpc_env \<Rightarrow> ('s, 'c, pb_Personalization) rpc" where
  "server_GetPersonalization sv env =
     rpc_bind (rpc_check (callerTenant (re_ctx env))) (\<lambda>tc.
     rpc_bind (store_rpc ''GetPersonalization''
         (GetPersonalization (sv_store sv) (re_call env 0) (tenantID tc))) (\<lambda>(prefs, weights).
     rpc_return \<lparr>pp_ProfileJson = up_ProfileJSON prefs, pp_Version = up_Version prefs,
       pp_WeightsJson = lw_WeightsJSON weights, pp_SampleCount = lw_SampleCount weights, pp_Exists = up_Exists prefs\<rparr>))"

definition server_PutPreferences :: "('s, 'c) server \<Rightarrow> rpc_env \<Rightarrow> string \<Rightarrow> ('s, 'c, int64) rpc" where
  "server_PutPreferences sv env profileJSON =
     rpc_bind (rpc_check (callerTenant (re_ctx env))) (\<lambda>tc.
     rpc_bind (rpc_check (rpc_require (profileJSON \<noteq> []) ''profile_json is required'')) (\<lambda>_.
     rpc_bind (rpc_check (rpc_require (length profileJSON \<le> maxProfileJSONBytes)
         (exceeds ''profile_json'' maxProfileJSONBytes))) (\<lambda>_.
     rpc_bind (rpc_check (rpc_require (json_Valid profileJSON) ''profile_json is not valid JSON'')) (\<lambda>_.
     store_rpc ''PutPreferences'' (PutPreferences (sv_store sv) (re_call env 0) (tenantID tc) profileJSON)))))"

definition server_ResetLearning :: "('s, 'c) server \<Rightarrow> rpc_env \<Rightarrow> ('s, 'c, nat) rpc" where
  "server_ResetLearning sv env =
     rpc_bind (rpc_check (callerTenant (re_ctx env))) (\<lambda>tc.
     store_rpc ''ResetLearning'' (ResetLearning (sv_store sv) (re_call env 0) (tenantID tc)))"

subsection \<open>The scheduler's enumeration\<close>

definition ListAllInstances :: "('s, 'c) server \<Rightarrow> rpc_env \<Rightarrow> ('s, 'c, (tenant_id \<times> pb_ConnectorInstance) list) rpc" where
  "ListAllInstances sv env =
     rpc_bind (on_store (ListAll (sv_store sv) (re_call env 0))) (\<lambda>r.
     rpc_check (case r of
         Inl e \<Rightarrow> Inl (case e of
             CtxCanceled \<Rightarrow> Status Canceled ''request canceled''
           | CtxDeadline \<Rightarrow> Status DeadlineExceeded ''deadline exceeded''
           | _ \<Rightarrow> Status Internal ''ListAllInstances failed'')
       | Inr instances \<Rightarrow> Inr (map (\<lambda>inst. (ci_TenantID inst, instanceToProto (sv_lib sv) inst)) instances)))"

subsection \<open>Dispatch\<close>

datatype rpc_req =
    ReqEnsureTenant | ReqCreate string string bytes | ReqList | ReqGet string | ReqDelete string
  | ReqGetSync string | ReqSetSync "pb_SyncState option" | ReqPutToken string bytes | ReqGetToken string
  | ReqDeleteToken string | ReqGetPersonalization | ReqPutPreferences string | ReqResetLearning

datatype rpc_resp =
    RespTenant string pb_timestamp | RespInstance pb_ConnectorInstance | RespInstances "pb_ConnectorInstance list"
  | RespEmpty | RespSync pb_SyncState | RespToken bytes | RespPersonalization pb_Personalization
  | RespVersion int64 | RespCount nat

definition rpc_map :: "('a \<Rightarrow> 'b) \<Rightarrow> ('s, 'c, 'a) rpc \<Rightarrow> ('s, 'c, 'b) rpc" where
  "rpc_map f m = rpc_bind m (\<lambda>a. rpc_return (f a))"

primrec serve :: "('s, 'c) server \<Rightarrow> rpc_env \<Rightarrow> rpc_req \<Rightarrow> ('s, 'c, rpc_resp) rpc" where
  "serve sv env ReqEnsureTenant = rpc_map (\<lambda>(t, c). RespTenant t c) (server_EnsureTenant sv env)"
| "serve sv env (ReqCreate cid name cfg) = rpc_map RespInstance (server_CreateConnectorInstance sv env cid name cfg)"
| "serve sv env ReqList = rpc_map RespInstances (server_ListConnectorInstances sv env)"
| "serve sv env (ReqGet iid) = rpc_map RespInstance (server_GetConnectorInstance sv env iid)"
| "serve sv env (ReqDelete iid) = rpc_map (\<lambda>_. RespEmpty) (server_DeleteConnectorInstance sv env iid)"
| "serve sv env (ReqGetSync iid) = rpc_map RespSync (server_GetSyncState sv env iid)"
| "serve sv env (ReqSetSync st) = rpc_map RespSync (server_SetSyncState sv env st)"
| "serve sv env (ReqPutToken iid tok) = rpc_map (\<lambda>_. RespEmpty) (server_PutToken sv env iid tok)"
| "serve sv env (ReqGetToken iid) = rpc_map RespToken (server_GetToken sv env iid)"
| "serve sv env (ReqDeleteToken iid) = rpc_map (\<lambda>_. RespEmpty) (server_DeleteToken sv env iid)"
| "serve sv env ReqGetPersonalization = rpc_map RespPersonalization (server_GetPersonalization sv env)"
| "serve sv env (ReqPutPreferences p) = rpc_map RespVersion (server_PutPreferences sv env p)"
| "serve sv env ReqResetLearning = rpc_map RespCount (server_ResetLearning sv env)"

lemmas handler_defs = server_EnsureTenant_def server_CreateConnectorInstance_def server_ListConnectorInstances_def
  server_GetConnectorInstance_def server_DeleteConnectorInstance_def server_GetSyncState_def server_SetSyncState_def
  server_PutToken_def server_GetToken_def server_DeleteToken_def server_GetPersonalization_def
  server_PutPreferences_def server_ResetLearning_def

end
