(* ===== verification/Control_Server_Facts.thy ===== *)
theory Control_Server_Facts
  imports Control_Server
begin

text \<open>
  Facts on the RPC handlers: a handler that runs for one tenant reads and writes that tenant's rows
  only, over any store that keeps the contract of \<open>Control_Store_Spec\<close>; and what the request checks
  guarantee about everything the in-memory store ever holds.
\<close>

section \<open>Handlers are scoped to the caller\<close>

text \<open>
  \<open>agree view t s s'\<close>: two stores that tenant \<open>t\<close> cannot tell apart. A handler is scoped to \<open>t\<close> if on
  such stores it gives the same answer and leaves stores that \<open>t\<close> still cannot tell apart, and it
  never changes what another tenant sees.
\<close>

lemma bind_check_Inr [simp]: "rpc_bind (rpc_check (Inr a)) f = f a"
  by (rule ext) (simp add: rpc_bind_def rpc_check_def)

context tenant_store
begin

definition scoped :: "('s \<Rightarrow> bool) \<Rightarrow> tenant_id \<Rightarrow> ('s, 'c, 'a) rpc \<Rightarrow> bool" where
  "scoped P t h \<longleftrightarrow>
     (\<forall>s s' c. inv s \<and> inv s' \<and> P s \<and> P s' \<and> view t s = view t s' \<longrightarrow>
        fst (h (s, c)) = fst (h (s', c)) \<and> snd (snd (h (s, c))) = snd (snd (h (s', c))) \<and>
        view t (fst (snd (h (s, c)))) = view t (fst (snd (h (s', c)))) \<and>
        inv (fst (snd (h (s, c)))) \<and> (\<forall>t'. t' \<noteq> t \<longrightarrow> view t' (fst (snd (h (s, c)))) = view t' s))"

lemma scopedD:
  assumes "scoped P t h" "inv s" "inv s'" "P s" "P s'" "view t s = view t s'"
  shows "fst (h (s, c)) = fst (h (s', c))" "snd (snd (h (s, c))) = snd (snd (h (s', c)))"
    "view t (fst (snd (h (s, c)))) = view t (fst (snd (h (s', c))))"
    "inv (fst (snd (h (s, c))))" "t' \<noteq> t \<Longrightarrow> view t' (fst (snd (h (s, c)))) = view t' s"
  using assms unfolding scoped_def by blast+

lemma scoped_pure:
  assumes "\<And>s s' c. fst (h (s, c)) = fst (h (s', c)) \<and> snd (snd (h (s, c))) = snd (snd (h (s', c))) \<and> fst (snd (h (s, c))) = s"
  shows "scoped P t h"
  unfolding scoped_def using assms by metis

lemma scoped_return: "scoped P t (rpc_return a)"
  by (rule scoped_pure) (simp add: rpc_return_def)

lemma scoped_check: "scoped P t (rpc_check r)"
  by (rule scoped_pure) (simp add: rpc_check_def)

lemma scoped_check_bind:
  "(\<And>a. r = Inr a \<Longrightarrow> scoped P t (f a)) \<Longrightarrow> scoped P t (rpc_bind (rpc_check r) f)"
  by (cases r) (auto simp: scoped_def rpc_bind_def rpc_check_def)

lemma scoped_bind:
  assumes m: "scoped P t m" and f: "\<And>a. scoped (\<lambda>_. True) t (f a)"
  shows "scoped P t (rpc_bind m f)"
  unfolding scoped_def
proof (intro allI impI, elim conjE)
  fix s s' c assume s: "inv s" "inv s'" "P s" "P s'" "view t s = view t s'"
  obtain r s1 c1 where h1: "m (s, c) = (r, (s1, c1))" by (metis prod.collapse)
  obtain r' s1' c1' where h2: "m (s', c) = (r', (s1', c1'))" by (metis prod.collapse)
  note d = scopedD [OF m s, where c = c] and d' = scopedD(4) [OF m s(2,1,4,3) s(5) [symmetric], where c = c]
  have eq: "r' = r" "c1' = c1" "view t s1 = view t s1'" "inv s1" "inv s1'" "\<forall>t'. t' \<noteq> t \<longrightarrow> view t' s1 = view t' s"
    using d d' h1 h2 by auto
  show "fst (rpc_bind m f (s, c)) = fst (rpc_bind m f (s', c)) \<and>
        snd (snd (rpc_bind m f (s, c))) = snd (snd (rpc_bind m f (s', c))) \<and>
        view t (fst (snd (rpc_bind m f (s, c)))) = view t (fst (snd (rpc_bind m f (s', c)))) \<and>
        inv (fst (snd (rpc_bind m f (s, c)))) \<and>
        (\<forall>t'. t' \<noteq> t \<longrightarrow> view t' (fst (snd (rpc_bind m f (s, c)))) = view t' s)"
  proof (cases r)
    case (Inl e)
    with eq h1 h2 show ?thesis by (simp add: rpc_bind_def)
  next
    case (Inr a)
    note k = scopedD [OF f [of a] eq(4,5) TrueI TrueI eq(3), where c = c1]
    from Inr eq h1 h2 have "rpc_bind m f (s, c) = f a (s1, c1)" "rpc_bind m f (s', c) = f a (s1', c1)"
      by (simp_all add: rpc_bind_def)
    with k eq(6) show ?thesis by simp
  qed
qed

lemma scoped_on_cipher: "scoped P t (on_cipher f)"
  by (rule scoped_pure) (simp add: on_cipher_def case_prod_beta)

lemma scoped_cipher_rpc: "scoped P t (cipher_rpc rpc f)"
  unfolding cipher_rpc_def by (intro scoped_bind scoped_on_cipher scoped_check)

text \<open>A store method is scoped as soon as its answer can be read off the abstract reply.\<close>

lemma scoped_on_store:
  assumes run: "\<And>s. exec_call S env t c s = reply g (f s)" and g: "inj g"
    and P: "\<And>s. P s \<Longrightarrow> is_create c \<Longrightarrow> env_uuid env \<notin> used s"
  shows "scoped P t (on_store f)"
  unfolding scoped_def
proof (intro allI impI, elim conjE)
  fix s s' k assume s: "inv s" "inv s'" "P s" "P s'" "view t s = view t s'"
  have inj: "map_sum id g a = map_sum id g b \<Longrightarrow> a = b" for a b :: "store_error + _"
    using g by (cases a; cases b) (auto dest: injD)
  have fresh: "is_create c \<Longrightarrow> env_uuid env \<notin> used s" "is_create c \<Longrightarrow> env_uuid env \<notin> used s'"
    using P s(3,4) by blast+
  have an: "fst (exec_call S env t c s) = fst (spec_call env t c (view t s))"
    "fst (exec_call S env t c s') = fst (spec_call env t c (view t s'))"
    using answer s(1,2) fresh by simp_all
  have ow: "view t (snd (exec_call S env t c s)) = snd (spec_call env t c (view t s))"
    "view t (snd (exec_call S env t c s')) = snd (spec_call env t c (view t s'))"
    using own_view s(1,2) fresh by simp_all
  have iv: "inv (snd (exec_call S env t c s))" using inv_kept s(1) fresh by simp
  have ot: "\<forall>t'. t' \<noteq> t \<longrightarrow> view t' (snd (exec_call S env t c s)) = view t' s" using other_view s(1) fresh by simp
  have "fst (f s) = fst (f s')" using an s(5) run by (intro inj) (simp add: reply_def)
  moreover have "view t (snd (f s)) = view t (snd (f s'))" using ow s(5) run by (simp add: reply_def)
  moreover have "inv (snd (f s))" using iv run by (simp add: reply_def)
  moreover have "\<forall>t'. t' \<noteq> t \<longrightarrow> view t' (snd (f s)) = view t' s" using ot run by (simp add: reply_def)
  ultimately show "fst (on_store f (s, k)) = fst (on_store f (s', k)) \<and>
      snd (snd (on_store f (s, k))) = snd (snd (on_store f (s', k))) \<and>
      view t (fst (snd (on_store f (s, k)))) = view t (fst (snd (on_store f (s', k)))) \<and>
      inv (fst (snd (on_store f (s, k)))) \<and>
      (\<forall>t'. t' \<noteq> t \<longrightarrow> view t' (fst (snd (on_store f (s, k)))) = view t' s)"
    by (simp add: on_store_def case_prod_beta)
qed

lemma scoped_store_rpc:
  "(\<And>s. exec_call S env t c s = reply g (f s)) \<Longrightarrow> inj g \<Longrightarrow> \<not> is_create c \<Longrightarrow> scoped P t (store_rpc rpc f)"
  unfolding store_rpc_def by (rule scoped_bind [OF scoped_on_store scoped_check]) blast+

lemmas scoped_intros = scoped_return scoped_check scoped_check_bind scoped_bind scoped_cipher_rpc

lemma callerTenant_Inr: "callerTenant ctx = Inr tc \<longleftrightarrow> FromContext ctx = Inr tc"
  by (auto simp: callerTenant_def split: sum.splits)

lemma inj_replies [simp]:
  "inj RTenant" "inj RInstance" "inj RInstances" "inj (\<lambda>_ :: unit. RUnit)" "inj RSync" "inj RBytes" "inj RNat"
  "inj (\<lambda>(p, w). RPersonalization p w)" "inj RVersion"
  by (auto simp: inj_def)

lemma scoped_ops:
  "scoped P t (store_rpc rpc (EnsureTenant S env t))"
  "scoped P t (store_rpc rpc (ListConnectorInstances S env t))"
  "scoped P t (store_rpc rpc (GetConnectorInstance S env t iid))"
  "scoped P t (store_rpc rpc (DeleteConnectorInstance S env t iid))"
  "scoped P t (store_rpc rpc (GetSyncState S env t iid))"
  "scoped P t (store_rpc rpc (SetSyncState S env t st))"
  "scoped P t (store_rpc rpc (PutToken S env t iid ct))"
  "scoped P t (store_rpc rpc (GetToken S env t iid))"
  "scoped P t (store_rpc rpc (DeleteToken S env t iid))"
  "scoped P t (store_rpc rpc (GetPersonalization S env t))"
  "scoped P t (store_rpc rpc (PutPreferences S env t j))"
  "scoped P t (store_rpc rpc (ResetLearning S env t))"
  by (rule scoped_store_rpc, rule exec_call.simps, simp, simp)+

lemma scoped_create:
  "scoped (\<lambda>s. env_uuid env \<notin> used s) t (on_store (CreateConnectorInstance S env
      \<lparr>ci_ID = [], ci_TenantID = t, ci_ConnectorID = cid, ci_DisplayName = name,
       ci_ConfigJSON = j, ci_Status = st, ci_CreatedAt = 0, ci_UpdatedAt = 0\<rparr> mx))"
  by (rule scoped_on_store [where g = RInstance and c = "CallCreate \<lparr>ci_ID = [], ci_TenantID = t, ci_ConnectorID = cid,
      ci_DisplayName = name, ci_ConfigJSON = j, ci_Status = st, ci_CreatedAt = 0, ci_UpdatedAt = 0\<rparr> mx"]) simp_all

lemma scoped_serve:
  assumes "sv_store sv = S" and "FromContext (re_ctx env) = Inr tc"
  shows "scoped (\<lambda>s. env_uuid (re_call env 0) \<notin> used s) (tenantID tc) (serve sv env req)"
proof -
  have "callerTenant (re_ctx env) = Inr tc" using assms(2) by (simp add: callerTenant_def)
  then show ?thesis
    using assms(1)
    by (cases req)
      (simp_all add: rpc_map_def handler_defs,
       (intro scoped_return scoped_check_bind scoped_cipher_rpc scoped_ops scoped_create scoped_bind scoped_check
          | simp add: case_prod_beta)+)
qed

end

section \<open>What the request checks guarantee\<close>

definition bounded_inst :: "ConnectorInstance \<Rightarrow> bool" where
  "bounded_inst i \<longleftrightarrow> ci_ConnectorID i \<noteq> [] \<and> length (ci_ConnectorID i) \<le> 128 \<and> length (ci_DisplayName i) \<le> 256 \<and>
     length (ci_ConfigJSON i) \<le> 262144 \<and> json_Valid (ci_ConfigJSON i)"

definition bounded_sync :: "SyncState \<Rightarrow> bool" where
  "bounded_sync st \<longleftrightarrow> length (ss_Cursor st) \<le> 65536 \<and> length (ss_LastError st) \<le> 4096 \<and>
     0 \<le> sint (ss_DocsEmitted st) \<and> ss_Phase st \<in> {''PENDING'', ''FULL_SYNC'', ''INCREMENTAL'', ''FAILED''}"

definition bounded_prefs :: "UserPreferences \<Rightarrow> bool" where
  "bounded_prefs p \<longleftrightarrow> length (up_ProfileJSON p) \<le> 65536 \<and> json_Valid (up_ProfileJSON p)"

definition bounded_store :: "mem_store \<Rightarrow> bool" where
  "bounded_store m \<longleftrightarrow> tbl_all bounded_inst (ms_instances m) \<and> tbl_all bounded_sync (ms_syncs m) \<and>
     tbl_all bounded_prefs (ms_prefs m)"

definition keeps :: "('s \<Rightarrow> bool) \<Rightarrow> ('s, 'c, 'a) rpc \<Rightarrow> bool" where
  "keeps Q h \<longleftrightarrow> (\<forall>s c. Q s \<longrightarrow> Q (fst (snd (h (s, c)))))"

lemma keeps_return: "keeps Q (rpc_return a)"
  by (simp add: keeps_def rpc_return_def)

lemma keeps_check: "keeps Q (rpc_check r)"
  by (simp add: keeps_def rpc_check_def)

lemma keeps_check_bind: "(\<And>a. r = Inr a \<Longrightarrow> keeps Q (f a)) \<Longrightarrow> keeps Q (rpc_bind (rpc_check r) f)"
  by (cases r) (auto simp: keeps_def rpc_bind_def rpc_check_def)

lemma keeps_bind: "keeps Q m \<Longrightarrow> (\<And>a. keeps Q (f a)) \<Longrightarrow> keeps Q (rpc_bind m f)"
  unfolding keeps_def rpc_bind_def by (auto split: prod.splits sum.splits) (metis fst_conv snd_conv)+

lemma keeps_on_store: "(\<And>s. Q s \<Longrightarrow> Q (snd (f s))) \<Longrightarrow> keeps Q (on_store f)"
  by (simp add: keeps_def on_store_def case_prod_beta)

lemma keeps_store_rpc: "(\<And>s. Q s \<Longrightarrow> Q (snd (f s))) \<Longrightarrow> keeps Q (store_rpc rpc f)"
  unfolding store_rpc_def by (intro keeps_bind keeps_on_store keeps_check)

lemma keeps_cipher_rpc: "keeps Q (cipher_rpc rpc f)"
  unfolding cipher_rpc_def by (intro keeps_bind keeps_check) (simp add: keeps_def on_cipher_def case_prod_beta)

lemma bounded_register [simp]: "bounded_store (register t now m) = bounded_store m"
  by (simp add: bounded_store_def register_def)

lemma bounded_ops:
  "bounded_store m \<Longrightarrow> bounded_store (snd (memStore_EnsureTenant env t m))"
  "bounded_store m \<Longrightarrow> bounded_store (snd (memStore_ListConnectorInstances env t m))"
  "bounded_store m \<Longrightarrow> bounded_store (snd (memStore_GetConnectorInstance env t iid m))"
  "bounded_store m \<Longrightarrow> bounded_store (snd (memStore_DeleteConnectorInstance env t iid m))"
  "bounded_store m \<Longrightarrow> bounded_store (snd (memStore_GetSyncState env t iid m))"
  "bounded_store m \<Longrightarrow> bounded_store (snd (memStore_PutToken env t iid ct m))"
  "bounded_store m \<Longrightarrow> bounded_store (snd (memStore_GetToken env t iid m))"
  "bounded_store m \<Longrightarrow> bounded_store (snd (memStore_DeleteToken env t iid m))"
  "bounded_store m \<Longrightarrow> bounded_store (snd (memStore_GetPersonalization env t m))"
  "bounded_store m \<Longrightarrow> bounded_store (snd (memStore_ResetLearning env t m))"
  by (simp_all add: memStore_defs with_ctx_def Let_def bounded_store_def option.case_eq_if)

lemma bounded_create:
  "bounded_inst inst \<Longrightarrow> bounded_store m \<Longrightarrow> bounded_store (snd (memStore_CreateConnectorInstance env inst mx m))"
  by (simp add: memStore_CreateConnectorInstance_def with_ctx_def Let_def option.case_eq_if)
    (simp add: bounded_store_def bounded_inst_def register_def)

lemma bounded_setsync:
  "bounded_sync st \<Longrightarrow> bounded_store m \<Longrightarrow> bounded_store (snd (memStore_SetSyncState env t st m))"
  by (simp add: memStore_SetSyncState_def with_ctx_def Let_def option.case_eq_if cloneSyncState_def)
    (simp add: bounded_store_def bounded_sync_def)

lemma bounded_putprefs:
  "json_Valid j \<Longrightarrow> length j \<le> 65536 \<Longrightarrow> bounded_store m \<Longrightarrow> bounded_store (snd (memStore_PutPreferences env t j m))"
  by (simp add: memStore_PutPreferences_def with_ctx_def Let_def option.case_eq_if)
    (simp add: bounded_store_def bounded_prefs_def register_def)

lemma normalizePhase_Inr:
  "normalizePhase p = Inr name \<Longrightarrow>
     name \<in> {''PENDING'', ''FULL_SYNC'', ''INCREMENTAL'', ''FAILED''} \<and> phaseFromText name = (if p = 0 then 1 else p)"
  by (auto simp: normalizePhase_def SyncPhase_name_def phaseFromText_def SyncPhase_value_def Let_def
      split: if_splits option.splits)

lemma check_create_Inr:
  "check_create cid name cfg = Inr j \<Longrightarrow>
     cid \<noteq> [] \<and> length cid \<le> 128 \<and> length name \<le> 256 \<and> length j \<le> 262144 \<and> json_Valid j"
  by (auto simp: check_create_def Let_def maxConnectorIDLen_def maxDisplayNameLen_def maxConfigJSONBytes_def
      split: if_splits)

lemma rpc_require_Inr [simp]: "rpc_require ok msg = Inr u \<longleftrightarrow> ok"
  by (simp add: rpc_require_def)

lemma not_sless_zero: "\<not> (x :: int64) <s 0 \<longleftrightarrow> 0 \<le> sint x"
  by (simp add: word_sless_alt not_less)

lemma keeps_create:
  "check_create cid name cfg = Inr j \<Longrightarrow> keeps bounded_store (on_store (memStore_CreateConnectorInstance env
      \<lparr>ci_ID = [], ci_TenantID = t, ci_ConnectorID = cid, ci_DisplayName = name,
       ci_ConfigJSON = j, ci_Status = st, ci_CreatedAt = 0, ci_UpdatedAt = 0\<rparr> mx))"
  by (intro keeps_on_store bounded_create) (auto dest!: check_create_Inr simp: bounded_inst_def)

lemma keeps_setsync:
  "length (ps_Cursor x) \<le> maxCursorBytes \<Longrightarrow> normalizePhase (ps_Phase x) = Inr phase \<Longrightarrow> \<not> ps_DocsEmitted x <s 0 \<Longrightarrow>
     keeps bounded_store (store_rpc rpc (memStore_SetSyncState env t
       \<lparr>ss_InstanceID = iid, ss_TenantID = t', ss_Cursor = ps_Cursor x, ss_Phase = phase,
        ss_LastSyncStarted = a, ss_LastSyncCompleted = b,
        ss_LastError = (if length (ps_LastError x) > maxLastErrorLen then take maxLastErrorLen (ps_LastError x)
                        else ps_LastError x),
        ss_DocsEmitted = ps_DocsEmitted x\<rparr>))"
  by (intro keeps_store_rpc bounded_setsync)
    (auto dest!: normalizePhase_Inr simp: bounded_sync_def not_sless_zero maxCursorBytes_def maxLastErrorLen_def)

lemma keeps_putprefs:
  "json_Valid j \<Longrightarrow> length j \<le> maxProfileJSONBytes \<Longrightarrow>
     keeps bounded_store (store_rpc rpc (memStore_PutPreferences env t j))"
  by (intro keeps_store_rpc bounded_putprefs) (simp_all add: maxProfileJSONBytes_def)

lemma keeps_serve:
  assumes "sv_store sv = memStore"
  shows "keeps bounded_store (serve sv env req)"
proof (cases req)
  case (ReqSetSync st)
  show ?thesis
    unfolding ReqSetSync serve.simps rpc_map_def server_SetSyncState_def assms memStore_methods
    by (rule keeps_bind, (rule keeps_check_bind)+, rule keeps_bind, rule keeps_setsync) (simp_all add: keeps_return)
next
  case (ReqCreate cid name cfg)
  show ?thesis
    unfolding ReqCreate serve.simps rpc_map_def server_CreateConnectorInstance_def assms memStore_methods
    by (rule keeps_bind, (rule keeps_check_bind)+, rule keeps_bind, rule keeps_create) (simp_all add: keeps_return keeps_check)
next
  case (ReqPutPreferences p)
  show ?thesis
    unfolding ReqPutPreferences serve.simps rpc_map_def server_PutPreferences_def assms memStore_methods
    by (rule keeps_bind, (rule keeps_check_bind)+, rule keeps_putprefs) (simp_all add: keeps_return)
qed (simp_all add: assms rpc_map_def handler_defs case_prod_beta keeps_return keeps_check_bind keeps_cipher_rpc
      keeps_store_rpc keeps_bind keeps_check bounded_ops)

section \<open>Properties\<close>

definition run_rpcs :: "('s, 'c) server \<Rightarrow> (rpc_env \<times> rpc_req) list \<Rightarrow> 's \<times> 'c \<Rightarrow> 's \<times> 'c" where
  "run_rpcs sv calls st = fold (\<lambda>(env, req) st. snd (serve sv env req st)) calls st"

definition sample_server :: "(mem_store, mem_deks TenantCipher) server" where
  "sample_server = \<lparr>sv_store = memStore,
     sv_cipher = \<lparr>Encrypt = TenantCipher_Encrypt sample_kek memDEKStore,
       Decrypt = TenantCipher_Decrypt sample_kek memDEKStore, Forget = TenantCipher_Forget\<rparr>,
     sv_maxConnectorInstances = 3,
     sv_lib = \<lparr>uuid_Parse = Some, ts_CheckValid = (\<lambda>_. True), ts_AsTime = ts_Seconds,
       ts_New = (\<lambda>t. \<lparr>ts_Seconds = t, ts_Nanos = 0\<rparr>)\<rparr>\<rparr>"

definition sample_rpc :: "tenant_id \<Rightarrow> time \<Rightarrow> string \<Rightarrow> rpc_env" where
  "sample_rpc t now uuid =
     \<lparr>re_ctx = \<lparr>cx_tenant = Some \<lparr>tenantID = t, subject = t\<rparr>, cx_incoming = None, cx_outgoing = []\<rparr>,
      re_call = (\<lambda>_. sample_env now uuid), re_crypto = sample_cenv\<rparr>"

lemma sample_rpc_tenant [simp]: "t \<noteq> [] \<Longrightarrow> FromContext (re_ctx (sample_rpc t now uuid)) = Inr \<lparr>tenantID = t, subject = t\<rparr>"
  by (simp add: sample_rpc_def FromContext_def)

lemma rpc_results:
  "rpc_bind m f st = (Inr y, st') \<longleftrightarrow> (\<exists>a st1. m st = (Inr a, st1) \<and> f a st1 = (Inr y, st'))"
  "rpc_check r st = (Inr a, st1) \<longleftrightarrow> r = Inr a \<and> st1 = st"
  "rpc_return b st = (Inr a, st1) \<longleftrightarrow> a = b \<and> st1 = st"
  "store_rpc rpc g st = (Inr a, st1) \<longleftrightarrow> g (fst st) = (Inr a, fst st1) \<and> snd st1 = snd st"
  by (cases "m st"; cases st1; auto simp: rpc_bind_def rpc_check_def rpc_return_def store_rpc_def on_store_def
      split: sum.splits prod.splits)+

lemma check_bind_ok:
  "rpc_bind (rpc_check r) f st = (Inr y, st') \<Longrightarrow> (\<And>a. r = Inr a \<Longrightarrow> thesis) \<Longrightarrow> thesis"
  by (cases r) (auto simp: rpc_bind_def rpc_check_def)

lemma parse_field: "parseInstanceID X i f = Inr iid \<Longrightarrow> parseInstanceID X i g = Inr iid"
  by (auto simp: parseInstanceID_def split: if_splits option.splits)

lemma SetSync_reads:
  assumes "memStore_SetSyncState env t st s = (Inr r, s')" "env_err env' = None"
  shows "memStore_GetSyncState env' t (ss_InstanceID st) s' = (Inr r, s') \<and> r = st\<lparr>ss_TenantID := t\<rparr>"
proof -
  obtain i where ok: "env_err env = None" "ownedInstance s t (ss_InstanceID st) = Some i"
    using assms(1) by (cases "env_err env"; cases "ownedInstance s t (ss_InstanceID st)")
      (simp_all add: memStore_SetSyncState_def with_ctx_def)
  then have r: "r = st\<lparr>ss_TenantID := t\<rparr>" and s': "s' = s\<lparr>ms_syncs := tbl_put (ss_InstanceID st) r (ms_syncs s)\<rparr>"
    using assms(1) by (auto simp: memStore_SetSyncState_def with_ctx_def Let_def)
  have "ownedInstance s' t (ss_InstanceID st) = Some i"
    using ok(2) by (simp add: s' ownedInstance_def)
  then show ?thesis
    using assms(2) by (simp add: memStore_GetSyncState_def with_ctx_def r [symmetric]) (simp add: s' r)
qed





text \<open>
  A handler without a tenant in its context answers \<open>Unauthenticated\<close> and does nothing, whatever
  the request.
\<close>

lemma no_tenant_no_effect:
  assumes "FromContext (re_ctx env) = Inl e"
  shows "serve sv env req st = (Inl (Status Unauthenticated ''no tenant in request context''), st)"
proof -
  have "callerTenant (re_ctx env) = Inl (Status Unauthenticated ''no tenant in request context'')"
    using assms by (simp add: callerTenant_def)
  then show ?thesis by (cases req) (simp_all add: rpc_map_def handler_defs rpc_bind_def rpc_check_def)
qed

text \<open>What a successful \<open>SetSyncState\<close> has stored.\<close>

abbreviation cut_error :: "pb_SyncState \<Rightarrow> string" where
  "cut_error x \<equiv> if length (ps_LastError x) > maxLastErrorLen then take maxLastErrorLen (ps_LastError x) else ps_LastError x"

lemma SetSyncState_stores:
  assumes "sv_store sv = memStore" and "FromContext (re_ctx env) = Inr tc"
    and "server_SetSyncState sv env (Some x) (s, c) = (Inr y, st)"
  obtains iid phase started completed state s' where
    "parseInstanceID (sv_lib sv) (ps_ConnectorInstanceId x) ''state.connector_instance_id'' = Inr iid"
    "normalizePhase (ps_Phase x) = Inr phase" "st = (s', c)" "y = syncStateToProto (sv_lib sv) state"
    "memStore_SetSyncState (re_call env 0) (tenantID tc)
      \<lparr>ss_InstanceID = iid, ss_TenantID = tenantID tc, ss_Cursor = ps_Cursor x, ss_Phase = phase,
       ss_LastSyncStarted = started, ss_LastSyncCompleted = completed, ss_LastError = cut_error x,
       ss_DocsEmitted = ps_DocsEmitted x\<rparr> s = (Inr state, s')"
proof -
  have caller: "callerTenant (re_ctx env) = Inr tc" using assms(2) by (simp add: callerTenant_def)
  note set_def = assms(3) [unfolded server_SetSyncState_def assms(1) caller bind_check_Inr option.case memStore_methods]
  obtain iid where iid: "parseInstanceID (sv_lib sv) (ps_ConnectorInstanceId x) ''state.connector_instance_id'' = Inr iid"
    using set_def by (rule check_bind_ok)
  note set1 = set_def [unfolded iid bind_check_Inr]
  obtain u where cursor: "rpc_require (length (ps_Cursor x) \<le> maxCursorBytes) (exceeds ''state.cursor'' maxCursorBytes) = Inr u"
    using set1 by (rule check_bind_ok)
  note set2 = set1 [unfolded cursor bind_check_Inr]
  obtain phase where phase: "normalizePhase (ps_Phase x) = Inr phase" using set2 by (rule check_bind_ok)
  note set3 = set2 [unfolded phase bind_check_Inr]
  obtain started where started: "timeFromProto (sv_lib sv) (ps_LastSyncStarted x) ''state.last_sync_started'' = Inr started"
    using set3 by (rule check_bind_ok)
  note set4 = set3 [unfolded started bind_check_Inr]
  obtain completed where completed: "timeFromProto (sv_lib sv) (ps_LastSyncCompleted x) ''state.last_sync_completed'' = Inr completed"
    using set4 by (rule check_bind_ok)
  note set5 = set4 [unfolded completed bind_check_Inr]
  obtain u where docs: "rpc_require (\<not> ps_DocsEmitted x <s 0) ''state.docs_emitted must be >= 0'' = Inr u"
    using set5 by (rule check_bind_ok)
  note set6 = set5 [unfolded docs bind_check_Inr]
  show ?thesis
    using set6 by (cases st) (auto simp: rpc_results intro: that [OF iid phase])
qed

text \<open>
  C25: A sync state is read back as it was answered when it was set: the cursor and the document
  count as sent, an unspecified phase as \<open>PENDING\<close> and any other phase as sent, and the error text cut
  to 4096 bytes.
\<close>

theorem sync_state_read_back:
  assumes "sv_store sv = memStore" and "FromContext (re_ctx env) = Inr tc" "FromContext (re_ctx env') = Inr tc"
    and "server_SetSyncState sv env (Some x) (s, c) = (Inr y, st)"
    and "env_err (re_call env' 0) = None"
  shows "server_GetSyncState sv env' (ps_ConnectorInstanceId x) st = (Inr y, st) \<and>
     ps_Cursor y = ps_Cursor x \<and> ps_DocsEmitted y = ps_DocsEmitted x \<and>
     ps_Phase y = (if ps_Phase x = 0 then 1 else ps_Phase x) \<and> ps_LastError y = take 4096 (ps_LastError x)"
proof -
  from assms(1,2,4) obtain iid phase started completed state s' where
    iid: "parseInstanceID (sv_lib sv) (ps_ConnectorInstanceId x) ''state.connector_instance_id'' = Inr iid"
    and phase: "normalizePhase (ps_Phase x) = Inr phase" and st: "st = (s', c)" and y: "y = syncStateToProto (sv_lib sv) state"
    and set: "memStore_SetSyncState (re_call env 0) (tenantID tc)
      \<lparr>ss_InstanceID = iid, ss_TenantID = tenantID tc, ss_Cursor = ps_Cursor x, ss_Phase = phase,
       ss_LastSyncStarted = started, ss_LastSyncCompleted = completed, ss_LastError = cut_error x,
       ss_DocsEmitted = ps_DocsEmitted x\<rparr> s = (Inr state, s')"
    by (rule SetSyncState_stores)
  from SetSync_reads [OF set assms(5)] have get: "memStore_GetSyncState (re_call env' 0) (tenantID tc) iid s' = (Inr state, s')"
    and fields: "ss_Cursor state = ps_Cursor x" "ss_Phase state = phase" "ss_LastError state = cut_error x"
      "ss_DocsEmitted state = ps_DocsEmitted x" by simp_all
  have "server_GetSyncState sv env' (ps_ConnectorInstanceId x) st = (Inr y, st)"
    using assms(1,3) parse_field [OF iid] get y st unfolding server_GetSyncState_def
    by (simp add: rpc_results callerTenant_def)
  then show ?thesis
    using y fields normalizePhase_Inr [OF phase]
    by (simp add: syncStateToProto_def maxLastErrorLen_def)
qed

theorem sync_state_read_back_witness:
  "\<exists>y st. server_SetSyncState sample_server (sample_rpc ''a'' 9 []) (Some
      \<lparr>ps_ConnectorInstanceId = ''i1'', ps_Cursor = ''c7'', ps_Phase = 0, ps_LastSyncStarted = None,
       ps_LastSyncCompleted = None, ps_LastError = [], ps_DocsEmitted = 5\<rparr>) (sample_store, NewTenantCipher []) = (Inr y, st) \<and>
     server_GetSyncState sample_server (sample_rpc ''a'' 10 []) ''i1'' st = (Inr y, st) \<and> ps_Phase y = 1"
proof -
  let ?x = "\<lparr>ps_ConnectorInstanceId = ''i1'', ps_Cursor = ''c7'', ps_Phase = 0, ps_LastSyncStarted = None,
    ps_LastSyncCompleted = None, ps_LastError = [], ps_DocsEmitted = 5\<rparr>"
  have "\<exists>y st. server_SetSyncState sample_server (sample_rpc ''a'' 9 []) (Some ?x) (sample_store, NewTenantCipher []) = (Inr y, st)"
    by (simp add: server_SetSyncState_def callerTenant_def parseInstanceID_def sample_server_def rpc_require_def
        maxCursorBytes_def normalizePhase_def SyncPhase_name_def timeFromProto_def word_sless_alt rpc_results
        memStore_SetSyncState_def with_ctx_def ownedInstance_def sample_store_eq Let_def)
      (simp add: sample_rpc_def sample_env_def sample_inst_def sample_store_eq Let_def)
  then obtain y st where set:
    "server_SetSyncState sample_server (sample_rpc ''a'' 9 []) (Some ?x) (sample_store, NewTenantCipher []) = (Inr y, st)" by blast
  have "sv_store sample_server = memStore" by (simp add: sample_server_def)
  from sync_state_read_back [OF this sample_rpc_tenant sample_rpc_tenant set, of 10 "[]"]
  have "server_GetSyncState sample_server (sample_rpc ''a'' 10 []) ''i1'' st = (Inr y, st) \<and> ps_Phase y = 1"
    by (simp add: sample_rpc_def sample_env_def)
  with set show ?thesis by blast
qed

end
