(* ===== verification/Control_Erasure.thy ===== *)
theory Control_Erasure
  imports Control_Server_Facts
begin

text \<open>
  Tenant erasure and the operator surface of the control plane (\<open>delete.go\<close>, \<open>purge.go\<close>, \<open>admin.go\<close>):
  the deletion cascade over the store, the key store, the search index, the blob store and the
  cache; the two purgers that talk to Vespa and Redis; and the admin RPCs. The services themselves
  are parameters: a purger transforms an abstract external state and may fail.
\<close>

section \<open>The model\<close>

subsection \<open>Purging the search index\<close>

record httpVespaPurger =
  vp_baseURL :: string
  vp_cluster :: string

definition newHTTPVespaPurger :: "string \<Rightarrow> string \<Rightarrow> httpVespaPurger" where
  "newHTTPVespaPurger vespaURL cluster = \<lparr>vp_baseURL = TrimRight vespaURL ''/'', vp_cluster = cluster\<rparr>"

text \<open>
  The service: a URL may be one that no request can be built for; one DELETE on a URL either fails in
  transport or answers with a status and a body.
  \<open>decode\<close> is \<open>json.Unmarshal\<close> of a body into a \<open>vespaDeleteResponse\<close>, whose errors the code ignores, as
  far as it is used: the continuation token, empty when the body carries none.
\<close>

record 'x vespa_service =
  vs_url_err :: "string \<Rightarrow> string option"
  vs_delete :: "string \<Rightarrow> 'x \<Rightarrow> (string + nat \<times> bytes) \<times> 'x"
  vs_decode :: "bytes \<Rightarrow> string"

definition truncate :: "bytes \<Rightarrow> nat \<Rightarrow> string" where
  "truncate b n = (let s = TrimSpace b in if length s > n then take n s @ ''...'' else s)"

definition doDelete :: "'x vespa_service \<Rightarrow> string \<Rightarrow> 'x \<Rightarrow> (string + string) \<times> 'x" where
  "doDelete http url x =
     (case vs_delete http url x of
        (Inl e, x') \<Rightarrow> (Inl (''vespa purge: '' @ e), x')
      | (Inr (code, raw), x') \<Rightarrow>
          let body = take 1048576 raw in
          if code < 200 \<or> code > 299
          then (Inl (''vespa purge: status '' @ Itoa code @ '': '' @ truncate body 512), x')
          else (Inr (vs_decode http body), x'))"

definition group_base :: "httpVespaPurger \<Rightarrow> tenant_id \<Rightarrow> string" where
  "group_base p t = vp_baseURL p @ ''/document/v1/asker/doc/group/'' @ PathEscape t"

definition group_url :: "httpVespaPurger \<Rightarrow> tenant_id \<Rightarrow> string \<Rightarrow> string" where
  "group_url p t continuation = group_base p t @ ''?'' @ encode_values
     ((if vp_cluster p \<noteq> [] then [(''cluster'', vp_cluster p)] else []) @
      (if continuation \<noteq> [] then [(''continuation'', continuation)] else []) @ [(''selection'', ''true'')])"

text \<open>The loop of \<open>PurgeGroup\<close> with the number of rounds left and the readings of \<open>ctx.Err()\<close>.\<close>

fun purge_rounds ::
  "'x vespa_service \<Rightarrow> httpVespaPurger \<Rightarrow> tenant_id \<Rightarrow> (nat \<Rightarrow> string option) \<Rightarrow> nat \<Rightarrow> string \<Rightarrow> 'x \<Rightarrow> (string + unit) \<times> 'x" where
  "purge_rounds http p t ctx 0 continuation x =
     (Inl (''vespa purge: group '' @ quoted t @ '' did not drain within the continuation bound''), x)"
| "purge_rounds http p t ctx (Suc n) continuation x =
     (case ctx n of
        Some e \<Rightarrow> (Inl e, x)
      | None \<Rightarrow>
          (case vs_url_err http (group_url p t continuation) of
             Some e \<Rightarrow> (Inl (''vespa purge: build request: '' @ e), x)
           | None \<Rightarrow>
               (case doDelete http (group_url p t continuation) x of
                  (Inl e, x') \<Rightarrow> (Inl e, x')
                | (Inr next, x') \<Rightarrow> if next = [] then (Inr (), x') else purge_rounds http p t ctx n next x')))"

definition PurgeGroup ::
  "'x vespa_service \<Rightarrow> httpVespaPurger \<Rightarrow> (nat \<Rightarrow> string option) \<Rightarrow> tenant_id \<Rightarrow> 'x \<Rightarrow> (string + unit) \<times> 'x" where
  "PurgeGroup http p ctx t x =
     (if t = [] then (Inl (tenancy_err_text ErrNoTenant), x) else purge_rounds http p t ctx 1000 [] x)"

subsection \<open>Purging the cache\<close>

text \<open>The service: SCAN from a cursor with a pattern, and DEL of a list of keys.\<close>

record 'x redis_client =
  rdb_Scan :: "nat \<Rightarrow> string \<Rightarrow> 'x \<Rightarrow> (string + string list \<times> nat) \<times> 'x"
  rdb_Del :: "string list \<Rightarrow> 'x \<Rightarrow> (string + unit) \<times> 'x"

text \<open>The scan ends when the service returns cursor 0, which nothing in the code enforces: not
  returning is \<open>None\<close>.\<close>

partial_function (option) scanDel_from ::
  "'x redis_client \<Rightarrow> string \<Rightarrow> nat \<Rightarrow> 'x \<Rightarrow> ((string + unit) \<times> 'x) option" where
  "scanDel_from rdb pat cursor x =
     (case rdb_Scan rdb cursor pat x of
        (Inl e, x1) \<Rightarrow> Some (Inl (''redis purge scan '' @ quoted pat @ '': '' @ e), x1)
      | (Inr (ks, next), x1) \<Rightarrow>
          (case (if length ks > 0 then rdb_Del rdb ks x1 else (Inr (), x1)) of
             (Inl e, x2) \<Rightarrow> Some (Inl (''redis purge del: '' @ e), x2)
           | (Inr _, x2) \<Rightarrow> if next = 0 then Some (Inr (), x2) else scanDel_from rdb pat next x2))"

definition scanDel :: "'x redis_client \<Rightarrow> string \<Rightarrow> 'x \<Rightarrow> ((string + unit) \<times> 'x) option" where
  "scanDel rdb pat x = scanDel_from rdb pat 0 x"

definition purge_patterns :: "tenant_id \<Rightarrow> string list" where
  "purge_patterns t = [''q:'' @ t @ '':*'', ''rl:'' @ t @ '':*'', ''asker:pref:'' @ t, ''asker:weights:'' @ t,
     ''asker:recent:'' @ t]"

fun scan_all :: "'x redis_client \<Rightarrow> string list \<Rightarrow> 'x \<Rightarrow> ((string + unit) \<times> 'x) option" where
  "scan_all rdb [] x = Some (Inr (), x)"
| "scan_all rdb (pat # pats) x =
     (case scanDel rdb pat x of
        None \<Rightarrow> None
      | Some (Inl e, x') \<Rightarrow> Some (Inl e, x')
      | Some (Inr _, x') \<Rightarrow> scan_all rdb pats x')"

definition redisCachePurger_PurgeTenant ::
  "'x redis_client \<Rightarrow> tenant_id \<Rightarrow> 'x \<Rightarrow> ((string + unit) \<times> 'x) option" where
  "redisCachePurger_PurgeTenant rdb t x =
     (if t = [] then Some (Inl (tenancy_err_text ErrNoTenant), x) else scan_all rdb (purge_patterns t) x)"

text \<open>The keys the other services file under a tenant.\<close>

definition RedisProfileKey :: "tenant_id \<Rightarrow> string" where "RedisProfileKey t = ''asker:pref:'' @ t"
definition RedisWeightsKey :: "tenant_id \<Rightarrow> string" where "RedisWeightsKey t = ''asker:weights:'' @ t"
definition recentKey :: "tenant_id \<Rightarrow> string" where "recentKey t = ''asker:recent:'' @ t"
definition rateKey :: "tenant_id \<Rightarrow> int \<Rightarrow> string" where "rateKey t minute = ''rl:'' @ t @ '':'' @ FormatInt minute"
definition cacheKey :: "tenant_id \<Rightarrow> string \<Rightarrow> string" where "cacheKey t digest = ''q:'' @ t @ '':'' @ digest"

subsection \<open>The cascade\<close>

text \<open>A purger that is not configured is \<open>None\<close>. External purges act on a state \<open>'x\<close> of their own.\<close>

record ('c, 'x) cascade_purgers =
  pg_dek :: "(string option \<Rightarrow> tenant_id \<Rightarrow> 'c \<Rightarrow> (crypto_error + unit) \<times> 'c) option"
  pg_vespa :: "(tenant_id \<Rightarrow> 'x \<Rightarrow> (string + unit) \<times> 'x) option"
  pg_blobs :: "(tenancy_context \<Rightarrow> 'x \<Rightarrow> (string + nat) \<times> 'x) option"
  pg_cache :: "(tenant_id \<Rightarrow> 'x \<Rightarrow> (string + unit) \<times> 'x) option"

record DeleteReport =
  dr_TenantId :: string
  dr_ConnectorInstancesDeleted :: nat
  dr_TokensDeleted :: nat
  dr_DekDestroyed :: bool
  dr_VespaGroupPurged :: bool
  dr_BlobsDeleted :: nat
  dr_RedisPurged :: bool
  dr_VerifiedEmpty :: bool
  dr_Actor :: string

text \<open>Surroundings: the request context, the three store calls in order, and the context as the key
  store sees it.\<close>

record cascade_env =
  ca_ctx :: go_ctx
  ca_call :: "nat \<Rightarrow> call_env"
  ca_dek :: "string option"

definition delete_failed :: rpc_status where
  "delete_failed = Status Internal ''DeleteTenant failed''"

definition shred_step ::
  "('s, 'c) server \<Rightarrow> ('c, 'x) cascade_purgers \<Rightarrow> cascade_env \<Rightarrow> tenant_id \<Rightarrow> 'c \<Rightarrow> (rpc_status + bool) \<times> 'c" where
  "shred_step sv pg env t c =
     (case pg_dek pg of
        None \<Rightarrow> (Inr False, Forget (sv_cipher sv) t c)
      | Some del \<Rightarrow>
          (case del (ca_dek env) t c of
             (Inl _, c') \<Rightarrow> (Inl delete_failed, c')
           | (Inr _, c') \<Rightarrow> (Inr True, Forget (sv_cipher sv) t c')))"

definition vespa_step :: "('c, 'x) cascade_purgers \<Rightarrow> tenant_id \<Rightarrow> 'x \<Rightarrow> (rpc_status + bool) \<times> 'x" where
  "vespa_step pg t x =
     (case pg_vespa pg of
        None \<Rightarrow> (Inr False, x)
      | Some purge \<Rightarrow> (case purge t x of (Inl _, x') \<Rightarrow> (Inl delete_failed, x') | (Inr _, x') \<Rightarrow> (Inr True, x')))"

definition blob_step :: "('c, 'x) cascade_purgers \<Rightarrow> tenancy_context \<Rightarrow> 'x \<Rightarrow> (rpc_status + nat) \<times> 'x" where
  "blob_step pg tc x =
     (case pg_blobs pg of
        None \<Rightarrow> (Inr 0, x)
      | Some purge \<Rightarrow> (case purge tc x of (Inl _, x') \<Rightarrow> (Inl delete_failed, x') | (Inr n, x') \<Rightarrow> (Inr n, x')))"

text \<open>The cache step never fails the cascade: it yields whether keys were purged and whether the
  attempt failed.\<close>

definition cache_step :: "('c, 'x) cascade_purgers \<Rightarrow> tenant_id \<Rightarrow> 'x \<Rightarrow> (bool \<times> bool) \<times> 'x" where
  "cache_step pg t x =
     (case pg_cache pg of
        None \<Rightarrow> ((False, False), x)
      | Some purge \<Rightarrow> (case purge t x of (Inl _, x') \<Rightarrow> ((False, True), x') | (Inr _, x') \<Rightarrow> ((True, False), x')))"

text \<open>The part of the cascade after the control plane's own rows are gone: the derived stores, then the
  verification of the relational rows.\<close>

definition cascade_rest ::
  "('s, 'c) server \<Rightarrow> ('c, 'x) cascade_purgers \<Rightarrow> cascade_env \<Rightarrow> tenancy_context \<Rightarrow> string \<Rightarrow> bool \<Rightarrow> PurgeCounts \<Rightarrow>
     's \<times> 'c \<times> 'x \<Rightarrow> (rpc_status + DeleteReport) \<times> ('s \<times> 'c \<times> 'x)" where
  "cascade_rest sv pg env tc actor dekDestroyed counts st =
     (let (s, c, x) = st; t = tenantID tc in
      case vespa_step pg t x of
         (Inl e, x1) \<Rightarrow> (Inl e, (s, c, x1))
       | (Inr vespaPurged, x1) \<Rightarrow>
      (case blob_step pg tc x1 of
         (Inl e, x2) \<Rightarrow> (Inl e, (s, c, x2))
       | (Inr n, x2) \<Rightarrow>
      (let ((redisPurged, redisFailed), x3) = cache_step pg t x2 in
       case TenantResidue (sv_store sv) (ca_call env 2) t s of
         (Inl _, s3) \<Rightarrow> (Inl delete_failed, (s3, c, x3))
       | (Inr isEmpty, s3) \<Rightarrow>
           if \<not> isEmpty
           then (Inl (Status Internal ''DeleteTenant verification failed: residual data remains''), (s3, c, x3))
           else (Inr \<lparr>dr_TenantId = t, dr_ConnectorInstancesDeleted = pc_ConnectorInstances counts,
                      dr_TokensDeleted = pc_Tokens counts, dr_DekDestroyed = dekDestroyed,
                      dr_VespaGroupPurged = vespaPurged, dr_BlobsDeleted = n, dr_RedisPurged = redisPurged,
                      dr_VerifiedEmpty = (\<not> redisFailed), dr_Actor = actor\<rparr>, (s3, c, x3)))))"

definition cascadeDelete ::
  "('s, 'c) server \<Rightarrow> ('c, 'x) cascade_purgers \<Rightarrow> cascade_env \<Rightarrow> tenant_id \<Rightarrow> string \<Rightarrow> 's \<times> 'c \<times> 'x \<Rightarrow>
     (rpc_status + DeleteReport) \<times> ('s \<times> 'c \<times> 'x)" where
  "cascadeDelete sv pg env t actor st =
     (let (s, c, x) = st in
      if t = [] then (Inl (Status InvalidArgument ''empty tenant''), st)
      else case FromHeaderValue t of
        Inl _ \<Rightarrow> (Inl (Status InvalidArgument ''invalid tenant''), st)
      | Inr tc \<Rightarrow>
      (case SetTenantConnectorStatus (sv_store sv) (ca_call env 0) t ''PAUSED'' s of
         (Inl _, s1) \<Rightarrow> (Inl delete_failed, (s1, c, x))
       | (Inr _, s1) \<Rightarrow>
      (case shred_step sv pg env t c of
         (Inl e, c1) \<Rightarrow> (Inl e, (s1, c1, x))
       | (Inr dekDestroyed, c1) \<Rightarrow>
      (case PurgeTenant (sv_store sv) (ca_call env 1) t s1 of
         (Inl _, s2) \<Rightarrow> (Inl delete_failed, (s2, c1, x))
       | (Inr counts, s2) \<Rightarrow> cascade_rest sv pg env tc actor dekDestroyed counts (s2, c1, x)))))"

definition server_DeleteTenant ::
  "('s, 'c) server \<Rightarrow> ('c, 'x) cascade_purgers \<Rightarrow> cascade_env \<Rightarrow> string \<Rightarrow> 's \<times> 'c \<times> 'x \<Rightarrow>
     (rpc_status + DeleteReport) \<times> ('s \<times> 'c \<times> 'x)" where
  "server_DeleteTenant sv pg env confirm st =
     (case callerTenant (ca_ctx env) of
        Inl e \<Rightarrow> (Inl e, st)
      | Inr tc \<Rightarrow>
          if confirm \<noteq> tenantID tc
          then (Inl (Status InvalidArgument
            ''confirm must equal your own tenant id (from GET /v1/me); this action is irreversible''), st)
          else cascadeDelete sv pg env (tenantID tc) ''self'' st)"

subsection \<open>The operator surface\<close>

definition adminActor :: "go_ctx \<Rightarrow> string" where
  "adminActor ctx = ''admin:'' @
     (case cx_incoming ctx of
        None \<Rightarrow> ''unknown''
      | Some md \<Rightarrow>
          (case md ''x-asker-admin-subject'' of
             [] \<Rightarrow> ''unknown''
           | v # _ \<Rightarrow> if TrimSpace v \<noteq> [] then TrimSpace v else ''unknown''))"

definition adminTenant :: "string \<Rightarrow> rpc_status + tenant_id" where
  "adminTenant raw =
     (if raw = [] then Inl (Status InvalidArgument ''tenant_id is required'')
      else case FromHeaderValue raw of
             Inl _ \<Rightarrow> Inl (Status InvalidArgument ''tenant_id is not a valid tenant identifier'')
           | Inr tc \<Rightarrow> Inr (tenantID tc))"

definition storeErr :: "string \<Rightarrow> store_error \<Rightarrow> rpc_status" where
  "storeErr rpc e =
     (case e of
        ErrNotFound \<Rightarrow> Status NotFound ''tenant not found''
      | CtxCanceled \<Rightarrow> Status Canceled ''request canceled''
      | CtxDeadline \<Rightarrow> Status DeadlineExceeded ''deadline exceeded''
      | _ \<Rightarrow> Status Internal (rpc @ '' failed''))"

record pb_TenantUsage =
  pu_TenantId :: string
  pu_Created :: pb_timestamp
  pu_ConnectorInstances :: nat
  pu_DocsEmitted :: int64
  pu_Suspended :: bool

definition usageToProto :: "ext_lib \<Rightarrow> TenantUsage \<Rightarrow> pb_TenantUsage" where
  "usageToProto X u = \<lparr>pu_TenantId = tu_TenantID u, pu_Created = ts_New X (tu_CreatedAt u),
     pu_ConnectorInstances = tu_ConnectorInstances u, pu_DocsEmitted = tu_DocsEmitted u, pu_Suspended = tu_Suspended u\<rparr>"

definition admin_limit :: "int \<Rightarrow> int" where
  "admin_limit req = (let l = (if req \<le> 0 then 100 else req) in if l > 1000 then 1000 else l)"

definition admin_ListTenants ::
  "('s, 'c) server \<Rightarrow> call_env \<Rightarrow> int \<Rightarrow> string \<Rightarrow> 's \<Rightarrow> (rpc_status + pb_TenantUsage list \<times> string) \<times> 's" where
  "admin_ListTenants sv env reqLimit pageToken s =
     (let limit = admin_limit reqLimit in
      case ListTenants (sv_store sv) env pageToken limit s of
        (Inl e, s') \<Rightarrow> (Inl (storeErr ''ListTenants'' e), s')
      | (Inr usages, s') \<Rightarrow>
          (Inr (map (usageToProto (sv_lib sv)) usages,
                if int (length usages) = limit then tu_TenantID (last usages) else []), s'))"

definition admin_GetTenantUsage ::
  "('s, 'c) server \<Rightarrow> call_env \<Rightarrow> string \<Rightarrow> 's \<Rightarrow> (rpc_status + pb_TenantUsage) \<times> 's" where
  "admin_GetTenantUsage sv env raw s =
     (case adminTenant raw of
        Inl e \<Rightarrow> (Inl e, s)
      | Inr t \<Rightarrow>
          (case GetTenantUsage (sv_store sv) env t s of
             (Inl e, s') \<Rightarrow> (Inl (storeErr ''GetTenantUsage'' e), s')
           | (Inr u, s') \<Rightarrow> (Inr (usageToProto (sv_lib sv) u), s')))"

definition admin_SuspendTenant ::
  "('s, 'c) server \<Rightarrow> call_env \<Rightarrow> string \<Rightarrow> bool \<Rightarrow> 's \<Rightarrow> (rpc_status + nat) \<times> 's" where
  "admin_SuspendTenant sv env raw suspended s =
     (case adminTenant raw of
        Inl e \<Rightarrow> (Inl e, s)
      | Inr t \<Rightarrow>
          (case SetTenantConnectorStatus (sv_store sv) env t (if \<not> suspended then ''ACTIVE'' else ''PAUSED'') s of
             (Inl e, s') \<Rightarrow> (Inl (storeErr ''SuspendTenant'' e), s')
           | (Inr n, s') \<Rightarrow> (Inr n, s')))"

definition admin_AdminDeleteTenant ::
  "('s, 'c) server \<Rightarrow> ('c, 'x) cascade_purgers \<Rightarrow> cascade_env \<Rightarrow> string \<Rightarrow> 's \<times> 'c \<times> 'x \<Rightarrow>
     (rpc_status + DeleteReport) \<times> ('s \<times> 'c \<times> 'x)" where
  "admin_AdminDeleteTenant sv pg env raw st =
     (case adminTenant raw of
        Inl e \<Rightarrow> (Inl e, st)
      | Inr t \<Rightarrow> cascadeDelete sv pg env t (adminActor (ca_ctx env)) st)"

section \<open>Facts on the cascade\<close>

text \<open>The wiring of \<open>main.go\<close>: the token cipher and the key deleter share one key store.\<close>

definition tenantCipher :: "KEKProvider \<Rightarrow> 'd DEKStore \<Rightarrow> 'd TenantCipher tokenCipher" where
  "tenantCipher K D = \<lparr>Encrypt = TenantCipher_Encrypt K D, Decrypt = TenantCipher_Decrypt K D,
     Forget = TenantCipher_Forget\<rparr>"

definition dek_deleter ::
  "'d DEKStore \<Rightarrow> string option \<Rightarrow> tenant_id \<Rightarrow> 'd TenantCipher \<Rightarrow> (crypto_error + unit) \<times> 'd TenantCipher" where
  "dek_deleter D ctx t c = (let (r, d) = DeleteDEK D ctx t (cs_deks c) in (r, c\<lparr>cs_deks := d\<rparr>))"

lemma view_status:
  assumes "store_inv m"
  shows "t' \<noteq> t \<Longrightarrow> mem_view t' (m\<lparr>ms_instances := fst (set_status_loop t status now n (ms_instances m))\<rparr>) = mem_view t' m"
    and "dom (v_insts (mem_view t (m\<lparr>ms_instances := fst (set_status_loop t status now n (ms_instances m))\<rparr>)))
           = dom (v_insts (mem_view t m))"
    and "v_toks (mem_view t (m\<lparr>ms_instances := fst (set_status_loop t status now n (ms_instances m))\<rparr>)) = v_toks (mem_view t m)"
proof -
  let ?rows = "fst (set_status_loop t status now n (ms_instances m))"
  have other: "mine ci_TenantID t' (tbl_get ?rows iid) = mine ci_TenantID t' (tbl_get (ms_instances m) iid)"
    if "t' \<noteq> t" for t' iid
    using status_loop_get [of t status now n "ms_instances m" iid] that
    by (cases "tbl_get (ms_instances m) iid") (auto simp: mine_def)
  have own: "(mine ci_TenantID t (tbl_get ?rows iid) = None) = (mine ci_TenantID t (tbl_get (ms_instances m) iid) = None)"
    for iid
    using status_loop_get [of t status now n "ms_instances m" iid]
    by (cases "tbl_get (ms_instances m) iid") (auto simp: mine_def)
  show "mem_view t' (m\<lparr>ms_instances := ?rows\<rparr>) = mem_view t' m" if "t' \<noteq> t"
    using other [OF that] by (simp add: mem_view_def feedback_of_def)
  show "dom (v_insts (mem_view t (m\<lparr>ms_instances := ?rows\<rparr>))) = dom (v_insts (mem_view t m))"
    using own by (auto simp: mem_view_def dom_def)
  show "v_toks (mem_view t (m\<lparr>ms_instances := ?rows\<rparr>)) = v_toks (mem_view t m)"
    by (simp add: mem_view_def)
qed

definition suspended :: "call_env \<Rightarrow> tenant_id \<Rightarrow> mem_store \<Rightarrow> mem_store" where
  "suspended env t m = snd (memStore_SetTenantConnectorStatus env t ''PAUSED'' m)"

lemma suspended_facts:
  assumes "store_inv m"
  shows "store_inv (suspended env t m)"
    and "t' \<noteq> t \<Longrightarrow> mem_view t' (suspended env t m) = mem_view t' m"
    and "dom (v_insts (mem_view t (suspended env t m))) = dom (v_insts (mem_view t m))"
    and "v_toks (mem_view t (suspended env t m)) = v_toks (mem_view t m)"
    and "ms_tokens (suspended env t m) = ms_tokens m"
    and "map fst (ms_instances (suspended env t m)) = map fst (ms_instances m)"
  using assms view_status [OF assms] inv_status [OF assms]
  by (cases "env_err env";
      simp add: suspended_def memStore_SetTenantConnectorStatus_def with_ctx_def case_prod_beta status_loop_keys)+

lemma shred_wired:
  assumes "pg_dek pg = Some (dek_deleter memDEKStore)" "sv_cipher sv = tenantCipher K memDEKStore" "t \<noteq> []"
    and "shred_step sv pg env t c = (r, c')"
  shows "r = Inr b \<Longrightarrow> b \<and> tbl_get (cs_deks c') t = None \<and> tbl_get (cs_aeads c') t = None"
    and "t' \<noteq> t \<Longrightarrow> tbl_get (cs_deks c') t' = tbl_get (cs_deks c) t' \<and> tbl_get (cs_aeads c') t' = tbl_get (cs_aeads c) t'"
    and "ca_dek env = None \<Longrightarrow> r = Inr True"
  using assms
  by (auto simp: shred_step_def dek_deleter_def memDEKStore_def memDEKStore_Delete_def tenantCipher_def
      TenantCipher_Forget_def split: option.splits)

text \<open>The part after the relational purge, for a store whose verification only reads.\<close>

lemma rest_state:
  assumes read: "\<And>e m. snd (TenantResidue (sv_store sv) e (tenantID tc) m) = m"
  shows "fst (snd (cascade_rest sv pg env tc actor b counts (s, c, x))) = s"
    and "fst (snd (snd (cascade_rest sv pg env tc actor b counts (s, c, x)))) = c"
proof -
  obtain rv x1 where v: "vespa_step pg (tenantID tc) x = (rv, x1)" by fastforce
  obtain rb x2 where bl: "blob_step pg tc x1 = (rb, x2)" by fastforce
  obtain pu fa x3 where ca: "cache_step pg (tenantID tc) x2 = ((pu, fa), x3)" by (metis prod.collapse)
  obtain rr where re: "TenantResidue (sv_store sv) (ca_call env 2) (tenantID tc) s = (rr, s)"
    using read by (metis prod.collapse)
  show "fst (snd (cascade_rest sv pg env tc actor b counts (s, c, x))) = s"
    "fst (snd (snd (cascade_rest sv pg env tc actor b counts (s, c, x)))) = c"
    by (cases rv; cases rb; cases rr; simp add: cascade_rest_def v bl ca re)+
qed

lemma rest_report:
  assumes run: "cascade_rest sv pg env tc actor b counts (s, c, x) = (Inr rep, st')"
  shows "dr_VespaGroupPurged rep = (pg_vespa pg \<noteq> None)"
    and "dr_VerifiedEmpty rep = (pg_cache pg = None \<or> dr_RedisPurged rep)"
    and "dr_DekDestroyed rep = b"
    and "dr_ConnectorInstancesDeleted rep = pc_ConnectorInstances counts"
    and "dr_TokensDeleted rep = pc_Tokens counts"
    and "dr_TenantId rep = tenantID tc" "dr_Actor rep = actor"
proof -
  obtain rv x1 where v: "vespa_step pg (tenantID tc) x = (rv, x1)" by fastforce
  obtain rb x2 where bl: "blob_step pg tc x1 = (rb, x2)" by fastforce
  obtain pu fa x3 where ca: "cache_step pg (tenantID tc) x2 = ((pu, fa), x3)" by (metis prod.collapse)
  obtain rr s3 where re: "TenantResidue (sv_store sv) (ca_call env 2) (tenantID tc) s = (rr, s3)" by fastforce
  obtain bv nb where rep: "rv = Inr bv" "rep = \<lparr>dr_TenantId = tenantID tc, dr_ConnectorInstancesDeleted = pc_ConnectorInstances counts,
      dr_TokensDeleted = pc_Tokens counts, dr_DekDestroyed = b, dr_VespaGroupPurged = bv,
      dr_BlobsDeleted = nb, dr_RedisPurged = pu, dr_VerifiedEmpty = (\<not> fa), dr_Actor = actor\<rparr>"
    using run by (cases rv; cases rb; cases rr) (auto simp: cascade_rest_def v bl ca re split: if_splits)
  have "bv = (pg_vespa pg \<noteq> None)"
    using v rep(1) by (auto simp: vespa_step_def split: option.splits prod.splits sum.splits)
  moreover have "(\<not> fa) = (pg_cache pg = None \<or> pu)"
    using ca by (auto simp: cache_step_def split: option.splits prod.splits sum.splits)
  ultimately show "dr_VespaGroupPurged rep = (pg_vespa pg \<noteq> None)"
    "dr_VerifiedEmpty rep = (pg_cache pg = None \<or> dr_RedisPurged rep)" "dr_DekDestroyed rep = b"
    "dr_ConnectorInstancesDeleted rep = pc_ConnectorInstances counts" "dr_TokensDeleted rep = pc_Tokens counts"
    "dr_TenantId rep = tenantID tc" "dr_Actor rep = actor"
    using rep(2) by simp_all
qed

text \<open>Purgers that do not fail.\<close>

definition purgers_work :: "('c, 'x) cascade_purgers \<Rightarrow> tenancy_context \<Rightarrow> bool" where
  "purgers_work pg tc \<longleftrightarrow>
     (\<forall>purge x. pg_vespa pg = Some purge \<longrightarrow> fst (purge (tenantID tc) x) = Inr ()) \<and>
     (\<forall>purge x. pg_blobs pg = Some purge \<longrightarrow> (\<exists>n. fst (purge tc x) = Inr n)) \<and>
     (\<forall>purge x. pg_cache pg = Some purge \<longrightarrow> fst (purge (tenantID tc) x) = Inr ())"

lemma rest_succeeds:
  assumes work: "purgers_work pg tc" and residue: "fst (TenantResidue (sv_store sv) (ca_call env 2) (tenantID tc) s) = Inr True"
  shows "\<exists>rep st'. cascade_rest sv pg env tc actor b counts (s, c, x) = (Inr rep, st') \<and> dr_VerifiedEmpty rep"
proof -
  obtain bv x1 where v: "vespa_step pg (tenantID tc) x = (Inr bv, x1)"
    using work by (cases "pg_vespa pg") (auto simp: purgers_work_def vespa_step_def case_prod_beta)
  obtain nb x2 where bl: "blob_step pg tc x1 = (Inr nb, x2)"
    using work by (cases "pg_blobs pg") (auto simp: purgers_work_def blob_step_def case_prod_beta sum.case_eq_if, metis sum.disc(2) sum.sel(2))
  obtain pu x3 where ca: "cache_step pg (tenantID tc) x2 = ((pu, False), x3)"
    using work by (cases "pg_cache pg") (auto simp: purgers_work_def cache_step_def case_prod_beta)
  obtain s3 where re: "TenantResidue (sv_store sv) (ca_call env 2) (tenantID tc) s = (Inr True, s3)"
    using residue by (metis prod.collapse)
  show ?thesis by (simp add: cascade_rest_def v bl ca re)
qed

text \<open>The points the cascade can stop at, in order, with the state it leaves there.\<close>

lemma residue_reads: "snd (memStore_TenantResidue e t m) = m"
  by (simp add: memStore_TenantResidue_def with_ctx_def split: option.split)

lemma cascade_stages:
  assumes store: "sv_store sv = memStore" and inv: "store_inv s" and valid: "validTenant t"
    and run: "cascadeDelete sv pg env t actor (s, c, x) = (r, st')"
  obtains (suspend_failed) e where "st' = (s, c, x)" "r = Inl e" "env_err (ca_call env 0) \<noteq> None"
  | (shred_failed) e c' where "st' = (suspended (ca_call env 0) t s, c', x)"
      "shred_step sv pg env t c = (Inl e, c')" "r = Inl e"
  | (purge_failed) b e c' where "st' = (suspended (ca_call env 0) t s, c', x)"
      "shred_step sv pg env t c = (Inr b, c')" "r = Inl e" "env_err (ca_call env 1) \<noteq> None"
  | (purged) b c' x' where "st' = (purged t (suspended (ca_call env 0) t s), c', x')"
      "shred_step sv pg env t c = (Inr b, c')"
      "cascade_rest sv pg env \<lparr>tenantID = t, subject = t\<rparr> actor b
         \<lparr>pc_ConnectorInstances = card (dom (v_insts (mem_view t s))), pc_Tokens = card (dom (v_toks (mem_view t s)))\<rparr>
         (purged t (suspended (ca_call env 0) t s), c', x) = (r, st')"
proof -
  let ?s1 = "suspended (ca_call env 0) t s"
  have hdr: "FromHeaderValue t = Inr \<lparr>tenantID = t, subject = t\<rparr>" "t \<noteq> []"
    using valid by (auto simp: validTenant_nonempty)
  note facts = suspended_facts [OF inv, where env = "ca_call env 0" and t = t]
  note eq = run [unfolded cascadeDelete_def Let_def prod.case store hdr(1) sum.case]
  consider e where "env_err (ca_call env 0) = Some e" | n where "env_err (ca_call env 0) = None"
      "SetTenantConnectorStatus memStore (ca_call env 0) t ''PAUSED'' s = (Inr n, ?s1)"
    by (cases "env_err (ca_call env 0)")
      (auto simp: suspended_def memStore_SetTenantConnectorStatus_def with_ctx_def case_prod_beta)
  then show ?thesis
  proof cases
    case (1 e)
    then have "SetTenantConnectorStatus memStore (ca_call env 0) t ''PAUSED'' s = (Inl e, s)"
      by (simp add: memStore_SetTenantConnectorStatus_def with_ctx_def)
    then show ?thesis using suspend_failed 1 eq hdr(2) by auto
  next
    case (2 n)
    obtain rs c1 where shred: "shred_step sv pg env t c = (rs, c1)" by fastforce
    consider e where "rs = Inl e" | b e where "rs = Inr b" "env_err (ca_call env 1) = Some e"
      | b where "rs = Inr b" "env_err (ca_call env 1) = None"
      by (cases rs; cases "env_err (ca_call env 1)") auto
    then show ?thesis
    proof cases
      case 1
      then show ?thesis using shred_failed eq 2(2) shred hdr(2) by auto
    next
      case (2 b e)
      then have "PurgeTenant memStore (ca_call env 1) t ?s1 = (Inl e, ?s1)"
        by (simp add: memStore_PurgeTenant_def with_ctx_def)
      then show ?thesis
        using purge_failed eq \<open>SetTenantConnectorStatus memStore (ca_call env 0) t ''PAUSED'' s = (Inr n, ?s1)\<close>
          2 shred hdr(2) by auto
    next
      case (3 b)
      let ?counts = "\<lparr>pc_ConnectorInstances = card (dom (v_insts (mem_view t s))), pc_Tokens = card (dom (v_toks (mem_view t s)))\<rparr>"
      have "PurgeTenant memStore (ca_call env 1) t ?s1 = (Inr ?counts, purged t ?s1)"
        using PurgeTenant_eq [OF facts(1) 3(2), of t] facts(3,4) by simp
      then have rest: "cascade_rest sv pg env \<lparr>tenantID = t, subject = t\<rparr> actor b ?counts (purged t ?s1, c1, x) = (r, st')"
        using eq 2(2) 3 shred hdr(2) by simp
      moreover have "fst st' = purged t ?s1" "fst (snd st') = c1"
        using rest_state [where sv = sv and tc = "\<lparr>tenantID = t, subject = t\<rparr>" and pg = pg and env = env and actor = actor
            and b = b and counts = ?counts and s = "purged t ?s1" and c = c1 and x = x] residue_reads
        by (simp_all add: store rest)
      then have "st' = (purged t ?s1, c1, snd (snd st'))" by (metis prod.collapse)
      ultimately show ?thesis using purged [of c1 "snd (snd st')" b] shred 3(1) by simp
    qed
  qed
qed

lemma cascade_succeeds:
  assumes store: "sv_store sv = memStore" and cipher: "sv_cipher sv = tenantCipher K memDEKStore"
    and dek: "pg_dek pg = Some (dek_deleter memDEKStore)" and work: "purgers_work pg \<lparr>tenantID = t, subject = t\<rparr>"
    and inv: "store_inv s" and valid: "validTenant t"
    and env: "\<And>i. env_err (ca_call env i) = None" "ca_dek env = None"
  shows "\<exists>rep st'. cascadeDelete sv pg env t actor (s, c, x) = (Inr rep, st') \<and> dr_VerifiedEmpty rep"
proof -
  obtain r st' where run: "cascadeDelete sv pg env t actor (s, c, x) = (r, st')" by (rule prod.exhaust)
  let ?s1 = "suspended (ca_call env 0) t s"
  have inv1: "store_inv ?s1" using suspended_facts(1) [OF inv] .
  have residue: "fst (memStore_TenantResidue (ca_call env 2) t (purged t ?s1)) = Inr True"
    using env(1) [of 2] view_purged [OF inv1, of t t] view_empty_iff [OF inv_purged [OF inv1, of t], of t]
    by (simp add: memStore_TenantResidue_def with_ctx_def)
  show ?thesis using store inv valid run
  proof (cases rule: cascade_stages)
    case (shred_failed e c')
    then show ?thesis using shred_wired(3) [OF dek cipher validTenant_nonempty [OF valid] _ env(2)] by fastforce
  next
    case (purged b c' x')
    have "fst (TenantResidue (sv_store sv) (ca_call env 2) (tenantID \<lparr>tenantID = t, subject = t\<rparr>) (purged t ?s1)) = Inr True"
      using residue by (simp add: store)
    from rest_succeeds [OF work this] show ?thesis using purged(3) run by metis
  qed (use env(1) in auto)
qed

text \<open>Every run of the cascade, complete or not, keeps the store's invariant.\<close>

lemma cascade_inv:
  assumes "sv_store sv = memStore" "store_inv s" "validTenant t"
    and "cascadeDelete sv pg env t actor (s, c, x) = (r, st')"
  shows "store_inv (fst st')"
  using assms
proof (cases rule: cascade_stages)
  case (purged b c' x')
  then show ?thesis using inv_purged [OF suspended_facts(1) [OF assms(2)]] by simp
qed (use assms(2) suspended_facts(1) [OF assms(2)] in simp_all)

definition erased :: "tenant_id \<Rightarrow> mem_store \<Rightarrow> (tenant_id, bytes) table TenantCipher \<Rightarrow> bool" where
  "erased t s c \<longleftrightarrow> mem_view t s = empty_view \<and> tbl_get (cs_deks c) t = None \<and> tbl_get (cs_aeads c) t = None"

lemma cascade_success:
  assumes "sv_store sv = memStore" "sv_cipher sv = tenantCipher K memDEKStore"
    and "pg_dek pg = Some (dek_deleter memDEKStore)" "store_inv s" "validTenant t"
    and run: "cascadeDelete sv pg env t actor (s, c, x) = (Inr rep, (s', c', x'))"
  shows "erased t s' c'"
    and "t' = t \<or> mem_view t' s' = mem_view t' s \<and> tbl_get (cs_deks c') t' = tbl_get (cs_deks c) t' \<and>
      tbl_get (cs_aeads c') t' = tbl_get (cs_aeads c) t'"
    and "rep = rep\<lparr>dr_TenantId := t, dr_ConnectorInstancesDeleted := card (dom (v_insts (mem_view t s))),
      dr_TokensDeleted := card (dom (v_toks (mem_view t s))), dr_DekDestroyed := True,
      dr_VespaGroupPurged := (pg_vespa pg \<noteq> None), dr_VerifiedEmpty := (pg_cache pg = None \<or> dr_RedisPurged rep),
      dr_Actor := actor\<rparr>"
proof -
  obtain b x1 where purged: "(s', c', x') = (purged t (suspended (ca_call env 0) t s), c', x1)"
      "shred_step sv pg env t c = (Inr b, c')"
      "cascade_rest sv pg env \<lparr>tenantID = t, subject = t\<rparr> actor b
         \<lparr>pc_ConnectorInstances = card (dom (v_insts (mem_view t s))), pc_Tokens = card (dom (v_toks (mem_view t s)))\<rparr>
         (purged t (suspended (ca_call env 0) t s), c', x) = (Inr rep, (s', c', x'))"
    using assms(1,4,5) run by (cases rule: cascade_stages) auto
  note shred = shred_wired [OF assms(3,2) validTenant_nonempty [OF assms(5)] purged(2)]
  note inv = suspended_facts [OF assms(4), where env = "ca_call env 0" and t = t]
  note report = rest_report [OF purged(3)]
  show "erased t s' c'"
    using purged(1) shred(1) view_purged [OF inv(1), of t t] by (simp add: erased_def)
  show "t' = t \<or> mem_view t' s' = mem_view t' s \<and> tbl_get (cs_deks c') t' = tbl_get (cs_deks c) t' \<and>
      tbl_get (cs_aeads c') t' = tbl_get (cs_aeads c) t'"
    using purged(1) shred(2) view_purged [OF inv(1), of t' t] inv(2) by simp
  show "rep = rep\<lparr>dr_TenantId := t, dr_ConnectorInstancesDeleted := card (dom (v_insts (mem_view t s))),
      dr_TokensDeleted := card (dom (v_toks (mem_view t s))), dr_DekDestroyed := True,
      dr_VespaGroupPurged := (pg_vespa pg \<noteq> None), dr_VerifiedEmpty := (pg_cache pg = None \<or> dr_RedisPurged rep),
      dr_Actor := actor\<rparr>"
    using report shred(1) by (cases rep) simp
qed

text \<open>What the witnesses run on: a cascade with no external store but a blob counter.\<close>

definition sample_cascade :: "string option \<Rightarrow> cascade_env" where
  "sample_cascade dek = \<lparr>ca_ctx = \<lparr>cx_tenant = None, cx_incoming = None, cx_outgoing = []\<rparr>, ca_call = (\<lambda>i. sample_env (9 + int i) []), ca_dek = dek\<rparr>"

definition sample_purgers :: "((tenant_id, bytes) table TenantCipher, nat) cascade_purgers" where
  "sample_purgers = \<lparr>pg_dek = Some (dek_deleter memDEKStore), pg_vespa = None,
     pg_blobs = Some (\<lambda>tc n. (Inr n, 0)), pg_cache = None\<rparr>"

definition sample_keys :: "(tenant_id, bytes) table TenantCipher" where
  "sample_keys = \<lparr>cs_deks = [(''a'', ''ka''), (''b'', ''kb'')], cs_aeads = []\<rparr>"

lemma sample_purgers_work: "purgers_work sample_purgers tc"
  by (simp add: purgers_work_def sample_purgers_def)

lemma sample_wiring:
  "sv_store sample_server = memStore" "sv_cipher sample_server = tenantCipher sample_kek memDEKStore"
  "pg_dek sample_purgers = Some (dek_deleter memDEKStore)" "validTenant ''a''"
  "env_err (ca_call (sample_cascade dek) i) = None" "ca_dek (sample_cascade dek) = dek"
  by (simp_all add: sample_server_def tenantCipher_def sample_purgers_def sample_cascade_def sample_env_def validTenant_def tenantPattern_def
      tenant_char_def is_alnum_def less_eq_char_def)

section \<open>Facts on paging and on the purgers\<close>

text \<open>An operator who follows the page tokens, for at most \<open>n\<close> pages.\<close>

fun list_pages ::
  "('s, 'c) server \<Rightarrow> call_env \<Rightarrow> int \<Rightarrow> nat \<Rightarrow> string \<Rightarrow> 's \<Rightarrow> (rpc_status + pb_TenantUsage list) option" where
  "list_pages sv env limit 0 tok s = None"
| "list_pages sv env limit (Suc n) tok s =
     (case admin_ListTenants sv env limit tok s of
        (Inl e, _) \<Rightarrow> Some (Inl e)
      | (Inr (us, next), s') \<Rightarrow>
          if next = [] then Some (Inr us) else map_option (map_sum id (append us)) (list_pages sv env limit n next s'))"

definition tenants_after :: "string \<Rightarrow> mem_store \<Rightarrow> string list" where
  "tenants_after tok m = sort (filter (\<lambda>t. t > tok) (map fst (ms_tenants m)))"

lemma sorted_filter_after:
  fixes xs :: "'a::linorder list"
  assumes "sorted xs" "distinct xs" "0 < n" "n \<le> length xs"
  shows "filter (\<lambda>y. y > last (take n xs)) xs = drop n xs"
proof -
  have l: "last (take n xs) = xs ! (n - 1)" using assms(3,4) by (cases "take n xs = []") (auto simp: last_conv_nth min_def)
  have "filter (\<lambda>y. y > xs ! (n - 1)) (take n xs) = []"
    using assms(3,4) sorted_nth_mono [OF assms(1), of _ "n - 1"]
    by (auto simp: filter_empty_conv in_set_conv_nth not_less)
  moreover have "filter (\<lambda>y. y > xs ! (n - 1)) (drop n xs) = drop n xs"
  proof (rule filter_True, rule ballI)
    fix y
    assume "y \<in> set (drop n xs)"
    then obtain i where i: "i < length xs - n" "y = xs ! (n + i)" by (auto simp: in_set_conv_nth)
    then have "xs ! (n - 1) \<le> y" "xs ! (n - 1) \<noteq> y"
      using assms by (auto simp: nth_eq_iff_index_eq intro!: sorted_nth_mono)
    then show "xs ! (n - 1) < y" by simp
  qed
  ultimately show ?thesis
    using filter_append [of "\<lambda>y. y > xs ! (n - 1)" "take n xs" "drop n xs"] by (simp add: l)
qed

lemma tenants_after_next:
  assumes "wf_table (ms_tenants m)" "0 < n" "n \<le> length (tenants_after tok m)"
  shows "tenants_after (last (take n (tenants_after tok m))) m = drop n (tenants_after tok m)"
proof -
  define b where "b = last (take n (tenants_after tok m))"
  have "b \<in> set (tenants_after tok m)"
    unfolding b_def using assms(2,3) by (intro in_set_takeD [OF last_in_set]) auto
  then have "b > tok" by (simp add: tenants_after_def)
  then have "filter (\<lambda>t. t > tok \<and> t > b) (map fst (ms_tenants m)) = filter (\<lambda>t. t > b) (map fst (ms_tenants m))"
    by (intro filter_cong) auto
  then have "tenants_after b m = filter (\<lambda>t. t > b) (tenants_after tok m)"
    by (simp add: tenants_after_def filter_sort del: filter_map)
  moreover have "sorted (tenants_after tok m)" "distinct (tenants_after tok m)"
    using assms(1) by (simp_all add: tenants_after_def)
  from sorted_filter_after [OF this assms(2,3)] have "filter (\<lambda>t. t > b) (tenants_after tok m) = drop n (tenants_after tok m)"
    by (simp add: b_def)
  ultimately show ?thesis by (simp add: b_def)
qed

lemma usage_id: "tu_TenantID (usageLocked m t c) = t"
  by (simp add: usageLocked_def Let_def)

lemma list_page:
  assumes "sv_store sv = memStore" "env_err env = None"
  shows "\<exists>us. admin_ListTenants sv env limit tok m =
     (Inr (us, if length (tenants_after tok m) \<ge> nat (admin_limit limit)
              then last (take (nat (admin_limit limit)) (tenants_after tok m)) else []), m) \<and>
     map pu_TenantId us = take (nat (admin_limit limit)) (tenants_after tok m)"
proof -
  have lim: "admin_limit limit > 0" by (simp add: admin_limit_def Let_def)
  let ?ids = "take (nat (admin_limit limit)) (tenants_after tok m)"
  let ?us = "map (\<lambda>t. usageLocked m t (case tbl_get (ms_tenants m) t of Some c \<Rightarrow> c | None \<Rightarrow> 0)) ?ids"
  have "memStore_ListTenants env tok (admin_limit limit) m = (Inr ?us, m)"
    using lim assms(2) by (simp add: memStore_ListTenants_def with_ctx_def tenants_after_def Let_def)
  moreover have "tu_TenantID (last ?us) = last ?ids" if "?ids \<noteq> []"
    using that by (simp add: last_map usage_id)
  moreover have "int (length ?ids) = admin_limit limit \<longleftrightarrow> length (tenants_after tok m) \<ge> nat (admin_limit limit)"
    using lim by auto
  moreover have "map pu_TenantId (map (usageToProto (sv_lib sv)) ?us) = ?ids"
    by (simp add: usageToProto_def usage_id comp_def)
  moreover have "?ids \<noteq> []" if "length (tenants_after tok m) \<ge> nat (admin_limit limit)"
    using that lim by auto
  ultimately show ?thesis
    unfolding admin_ListTenants_def by (intro exI [of _ "map (usageToProto (sv_lib sv)) ?us"]) (simp add: assms(1) Let_def)
qed

lemma list_pages_from:
  assumes "sv_store sv = memStore" "env_err env = None" "wf_table (ms_tenants m)" "[] \<notin> keys (ms_tenants m)"
    and "length (tenants_after tok m) < n"
  shows "\<exists>us. list_pages sv env limit n tok m = Some (Inr us) \<and> map pu_TenantId us = tenants_after tok m"
  using assms(5)
proof (induction n arbitrary: tok)
  case (Suc n)
  let ?L = "nat (admin_limit limit)" and ?ids = "tenants_after tok m"
  obtain us where page: "admin_ListTenants sv env limit tok m = (Inr (us, if length ?ids \<ge> ?L then last (take ?L ?ids) else []), m)"
      and us: "map pu_TenantId us = take ?L ?ids"
    using list_page [OF assms(1,2)] by blast
  have L: "?L > 0" by (simp add: admin_limit_def Let_def)
  show ?case
  proof (cases "length ?ids \<ge> ?L")
    case False
    then show ?thesis using page us by simp
  next
    case True
    have "last (take ?L ?ids) \<in> set ?ids" using L True by (metis in_set_takeD last_in_set length_greater_0_conv length_take min.absorb2)
    then have nonempty: "last (take ?L ?ids) \<noteq> []" using assms(4) by (auto simp: tenants_after_def)
    note after = tenants_after_next [OF assms(3) L True]
    have "length (tenants_after (last (take ?L ?ids)) m) < n" using Suc.prems L True unfolding after by simp
    from Suc.IH [OF this] obtain us' where "list_pages sv env limit n (last (take ?L ?ids)) m = Some (Inr us')"
        "map pu_TenantId us' = drop ?L ?ids"
      unfolding after by blast
    then show ?thesis using page us True nonempty by simp
  qed
qed simp

text \<open>The requests a purge sends: the service with a log of the URLs it was asked to delete.\<close>

definition logged :: "'x vespa_service \<Rightarrow> ('x \<times> string list) vespa_service" where
  "logged http = \<lparr>vs_url_err = vs_url_err http, vs_delete = (\<lambda>url (x, l). let (r, x') = vs_delete http url x in (r, (x', l @ [url]))), vs_decode = vs_decode http\<rparr>"

lemma rounds_logged:
  assumes "purge_rounds (logged http) p t ctx n cont (x, l) = (r, (x', l'))"
  shows "\<exists>us. l' = l @ us \<and> length us \<le> n \<and> (\<forall>u \<in> set us. \<exists>c. u = group_url p t c) \<and> (r = Inr () \<longrightarrow> us \<noteq> [])"
  using assms
proof (induction n arbitrary: cont x l)
  case (Suc n)
  obtain rd x1 where del: "vs_delete http (group_url p t cont) x = (rd, x1)" by fastforce
  have "snd (doDelete (logged http) (group_url p t cont) (x, l)) = (x1, l @ [group_url p t cont])"
    by (cases rd) (simp_all add: doDelete_def logged_def del Let_def case_prod_beta)
  then obtain rr where do: "doDelete (logged http) (group_url p t cont) (x, l) = (rr, (x1, l @ [group_url p t cont]))"
    by (metis prod.collapse)
  let ?sent = "ctx n = None \<and> vs_url_err (logged http) (group_url p t cont) = None"
  show ?case
  proof (cases "?sent \<and> (\<exists>next. rr = Inr next \<and> next \<noteq> [])")
    case True
    then obtain nx where "?sent" "rr = Inr nx" "nx \<noteq> []" by blast
    with Suc.prems do have "purge_rounds (logged http) p t ctx n nx (x1, l @ [group_url p t cont]) = (r, (x', l'))" by simp
    from Suc.IH [OF this] obtain us where us: "l' = (l @ [group_url p t cont]) @ us" "length us \<le> n"
        "\<forall>u \<in> set us. \<exists>c. u = group_url p t c" by blast
    then show ?thesis by (intro exI [of _ "group_url p t cont # us"]) auto
  next
    case False
    then have "l' = l \<and> r \<noteq> Inr () \<or> l' = l @ [group_url p t cont]"
      using Suc.prems do by (auto split: option.splits sum.splits if_splits)
    then show ?thesis
      by (elim disjE conjE) (intro exI [of _ "[]"], simp, intro exI [of _ "[group_url p t cont]"], auto)
  qed
qed auto

lemma hex_digit_not_query: "d < 16 \<Longrightarrow> hex_digit d \<noteq> CHR ''?''"
proof
  assume "d < 16" "hex_digit d = CHR ''?''"
  then have "(of_char (hex_digit d) :: nat) = 63" by simp
  with \<open>d < 16\<close> show False by (simp add: hex_digit_def split: if_splits)
qed

lemma PathEscape_no_query: "CHR ''?'' \<notin> set (PathEscape s)"
proof -
  have "CHR ''?'' \<notin> set (escape_byte c)" for c
  proof -
    have "(of_char c :: nat) div 16 < 16" using of_char_less [of c] by (simp add: less_mult_imp_div_less)
    from hex_digit_not_query [OF this] hex_digit_not_query [of "of_char c mod 16"]
    show ?thesis by (auto simp: escape_byte_def path_unreserved_def is_alnum_def less_eq_char_def)
  qed
  then show ?thesis by (auto simp: PathEscape_def)
qed

lemma split_first: "a \<notin> set xs \<Longrightarrow> a \<notin> set ys \<Longrightarrow> xs @ a # us = ys @ a # vs \<Longrightarrow> xs = ys \<and> us = vs"
  by (induction xs arbitrary: ys) (case_tac ys; auto)+

lemma group_url_tenant: "group_url p t c = group_url p t' c' \<Longrightarrow> t = t'"
proof -
  assume "group_url p t c = group_url p t' c'"
  then have "\<exists>us vs. PathEscape t @ CHR ''?'' # us = PathEscape t' @ CHR ''?'' # vs"
    unfolding group_url_def group_base_def append_assoc same_append_eq append_Cons append_Nil by blast
  then have "PathEscape t = PathEscape t'" using split_first PathEscape_no_query by metis
  then show "t = t'" by (rule PathEscape_inj)
qed

text \<open>The characters with a meaning in a Redis key pattern.\<close>

definition glob_special :: "char \<Rightarrow> bool" where
  "glob_special c \<longleftrightarrow> c \<in> {CHR ''*'', CHR ''?'', CHR ''['', CHR '']'', CHR 0x5C}"

lemma tenant_not_special: "validTenant t \<Longrightarrow> list_all (\<lambda>c. \<not> glob_special c \<and> c \<noteq> CHR '':'') t"
  using validTenant_chars [of t]
  by (auto simp: list_all_iff tenant_char_def is_alnum_def less_eq_char_def glob_special_def)

lemma prefix_tenant:
  assumes "validTenant t" "validTenant t'"
  shows "prefix (t @ '':'') (t' @ CHR '':'' # d) \<longleftrightarrow> t = t'"
proof
  assume "prefix (t @ '':'') (t' @ CHR '':'' # d)"
  then obtain u where "t' @ CHR '':'' # d = t @ CHR '':'' # u" by (auto simp: prefix_def)
  then show "t = t'"
    using split_first [of "CHR '':''" t' t d u] tenant_not_special [OF assms(1)] tenant_not_special [OF assms(2)]
    by (auto simp: list_all_iff)
qed (simp add: prefix_def)

definition sample_glob :: "string \<Rightarrow> string \<Rightarrow> bool" where
  "sample_glob p k = (if p \<noteq> [] \<and> last p = CHR ''*'' then prefix (butlast p) k else k = p)"

lemma sample_glob_plain: "list_all (\<lambda>c. \<not> glob_special c) p \<Longrightarrow> sample_glob p k = (k = p)"
proof -
  assume "list_all (\<lambda>c. \<not> glob_special c) p"
  moreover have "glob_special CHR ''*''" by (simp add: glob_special_def)
  ultimately have "\<not> (p \<noteq> [] \<and> last p = CHR ''*'')" using last_in_set [of p] unfolding list_all_iff by metis
  then show "sample_glob p k = (k = p)" unfolding sample_glob_def by (rule if_not_P)
qed

lemma sample_glob_star: "sample_glob (p @ ''*'') k = prefix p k"
  by (simp add: sample_glob_def)

section \<open>Properties\<close>







text \<open>
  C27: paging through the tenants terminates and misses nobody. Following the page tokens of
  \<open>ListTenants\<close> ends within one page more than there are tenants, for every requested page size
  including zero, negative and oversized ones, and the pages together list every tenant exactly
  once, in order.
\<close>

theorem paging_complete:
  assumes "sv_store sv = memStore" "env_err env = None" "store_inv m" "[] \<notin> keys (ms_tenants m)"
  shows "\<exists>us. list_pages sv env limit (Suc (length (ms_tenants m))) [] m = Some (Inr us) \<and>
    map pu_TenantId us = sort (map fst (ms_tenants m))"
proof -
  have "filter (\<lambda>t. [] < t) (map fst (ms_tenants m)) = map fst (ms_tenants m)"
    using assms(4) by (intro filter_True ballI) (metis image_set less_list_code(2) list.exhaust)
  then have "tenants_after [] m = sort (map fst (ms_tenants m))" by (simp add: tenants_after_def)
  with list_pages_from [OF assms(1,2) store_inv_wf(1) [OF assms(3)] assms(4), of "[]" "Suc (length (ms_tenants m))"]
  show ?thesis by simp
qed

theorem paging_complete_witness:
  "\<exists>us. list_pages sample_server (sample_env 9 []) 1 3 [] sample_store = Some (Inr us) \<and> map pu_TenantId us = [''a'', ''b'']"
proof -
  have t: "map fst (ms_tenants sample_store) = [''a'', ''b'']"
    by (simp add: sample_store_def sample_defs reply_def memStore_CreateConnectorInstance_def with_ctx_def
      register_def newMemStore_def tbl_count_def Let_def)
  then have len: "length (ms_tenants sample_store) = 2" "[] \<notin> keys (ms_tenants sample_store)"
    by (metis length_map list.size(3,4) numeral_2_eq_2 One_nat_def add_0 plus_1_eq_Suc) (use t in \<open>simp add: image_set del: set_map\<close>)
  from paging_complete [OF sample_wiring(1) _ inv_sample len(2), of "sample_env 9 []" 1] show ?thesis
    by (simp add: t len(1) sample_env_def less_char_def less_eq_char_def numeral_3_eq_3 del: list_pages.simps)
qed



text \<open>
  C29: the key patterns of the cache purge select a tenant's own keys and nobody else's. Under the
  documented meaning of Redis patterns, a key that some service files under a valid tenant (its
  profile, its weights, its recent searches, a rate counter or a cached answer) matches one of the
  five patterns of the purge of a valid tenant exactly if the two tenants are the same.
\<close>

theorem purge_patterns_exact:
  assumes "\<And>p k. list_all (\<lambda>c. \<not> glob_special c) p \<Longrightarrow> glob p k = (k = p)"
    and "\<And>p k. list_all (\<lambda>c. \<not> glob_special c) p \<Longrightarrow> glob (p @ ''*'') k = prefix p k"
    and "validTenant t" "validTenant t'"
    and "k \<in> {RedisProfileKey t', RedisWeightsKey t', recentKey t', rateKey t' minute, cacheKey t' digest}"
  shows "(\<exists>pat \<in> set (purge_patterns t). glob pat k) \<longleftrightarrow> t' = t"
proof -
  have plain: "list_all (\<lambda>c. \<not> glob_special c) t" using tenant_not_special [OF assms(3)] by (simp add: list_all_iff)
  have star: "glob (''q:'' @ t @ '':*'') k = prefix (''q:'' @ t @ '':'') k" "glob (''rl:'' @ t @ '':*'') k = prefix (''rl:'' @ t @ '':'') k"
    using assms(2) [of "''q:'' @ t @ '':''" k] assms(2) [of "''rl:'' @ t @ '':''" k] plain by (simp_all add: glob_special_def)
  have lit: "glob (''asker:pref:'' @ t) k = (k = ''asker:pref:'' @ t)" "glob (''asker:weights:'' @ t) k = (k = ''asker:weights:'' @ t)"
      "glob (''asker:recent:'' @ t) k = (k = ''asker:recent:'' @ t)"
    using assms(1) plain by (simp_all add: glob_special_def)
  have iff: "(\<exists>pat \<in> set (purge_patterns t). glob pat k) \<longleftrightarrow> prefix (''q:'' @ t @ '':'') k \<or> prefix (''rl:'' @ t @ '':'') k \<or>
      k = ''asker:pref:'' @ t \<or> k = ''asker:weights:'' @ t \<or> k = ''asker:recent:'' @ t"
    unfolding purge_patterns_def set_simps bex_simps star lit by simp
  show ?thesis
    using assms(5) unfolding iff
    by (elim insertE emptyE)
      (simp_all add: prefix_tenant [OF assms(3,4)] RedisProfileKey_def RedisWeightsKey_def recentKey_def rateKey_def
        cacheKey_def eq_commute [of t t'])
qed

theorem purge_patterns_exact_witness:
  "(\<exists>pat \<in> set (purge_patterns ''a''). sample_glob pat (cacheKey ''a'' ''00ff'')) \<and>
   \<not> (\<exists>pat \<in> set (purge_patterns ''a''). sample_glob pat (cacheKey ''b'' ''00ff''))"
proof -
  have t: "validTenant ''a''" "validTenant ''b''"
    by (simp_all add: validTenant_def tenantPattern_def tenant_char_def is_alnum_def less_eq_char_def)
  note own = purge_patterns_exact [of sample_glob, OF sample_glob_plain sample_glob_star t(1) t(1),
        of "cacheKey ''a'' ''00ff''" 0 "''00ff''"]
  note other = purge_patterns_exact [of sample_glob, OF sample_glob_plain sample_glob_star t(1) t(2),
        of "cacheKey ''b'' ''00ff''" 0 "''00ff''"]
  have "''b'' \<noteq> ''a''" by simp
  then show ?thesis using own other by blast
qed

end
