(* ===== verification/Go_Sha256.thy ===== *)
theory Go_Sha256
  imports Go_Lib
begin

text \<open>
  \<open>crypto/sha256\<close> and \<open>encoding/hex\<close> as the code uses them: the digest of a byte string and its lower-case
  hexadecimal text.
\<close>

unbundle bit_operations_syntax

definition sha_init :: "32 word list" where
  "sha_init =
     [0x6A09E667, 0xBB67AE85, 0x3C6EF372, 0xA54FF53A,
      0x510E527F, 0x9B05688C, 0x1F83D9AB, 0x5BE0CD19]"

definition sha_round :: "32 word list" where
  "sha_round =
     [0x428A2F98, 0x71374491, 0xB5C0FBCF, 0xE9B5DBA5, 0x3956C25B, 0x59F111F1, 0x923F82A4, 0xAB1C5ED5,
      0xD807AA98, 0x12835B01, 0x243185BE, 0x550C7DC3, 0x72BE5D74, 0x80DEB1FE, 0x9BDC06A7, 0xC19BF174,
      0xE49B69C1, 0xEFBE4786, 0x0FC19DC6, 0x240CA1CC, 0x2DE92C6F, 0x4A7484AA, 0x5CB0A9DC, 0x76F988DA,
      0x983E5152, 0xA831C66D, 0xB00327C8, 0xBF597FC7, 0xC6E00BF3, 0xD5A79147, 0x06CA6351, 0x14292967,
      0x27B70A85, 0x2E1B2138, 0x4D2C6DFC, 0x53380D13, 0x650A7354, 0x766A0ABB, 0x81C2C92E, 0x92722C85,
      0xA2BFE8A1, 0xA81A664B, 0xC24B8B70, 0xC76C51A3, 0xD192E819, 0xD6990624, 0xF40E3585, 0x106AA070,
      0x19A4C116, 0x1E376C08, 0x2748774C, 0x34B0BCB5, 0x391C0CB3, 0x4ED8AA4A, 0x5B9CCA4F, 0x682E6FF3,
      0x748F82EE, 0x78A5636F, 0x84C87814, 0x8CC70208, 0x90BEFFFA, 0xA4506CEB, 0xBEF9A3F7, 0xC67178F2]"

definition small_sigma :: "nat \<Rightarrow> nat \<Rightarrow> nat \<Rightarrow> 32 word \<Rightarrow> 32 word" where
  "small_sigma a b c x = word_rotr a x XOR word_rotr b x XOR drop_bit c x"

definition big_sigma :: "nat \<Rightarrow> nat \<Rightarrow> nat \<Rightarrow> 32 word \<Rightarrow> 32 word" where
  "big_sigma a b c x = word_rotr a x XOR word_rotr b x XOR word_rotr c x"

text \<open>The message schedule, newest word first: \<open>n\<close> more words on top of those at hand.\<close>

fun schedule :: "nat \<Rightarrow> 32 word list \<Rightarrow> 32 word list" where
  "schedule 0 ws = ws"
| "schedule (Suc n) ws =
     schedule n ((small_sigma 17 19 10 (ws ! 1) + ws ! 6 + small_sigma 7 18 3 (ws ! 14) + ws ! 15) # ws)"

type_synonym sha_state = "32 word list"

definition sha_step :: "32 word \<times> 32 word \<Rightarrow> sha_state \<Rightarrow> sha_state" where
  "sha_step kw st =
     (case st of
        [a, b, c, d, e, f, g, h] \<Rightarrow>
          let t1 = h + big_sigma 6 11 25 e + ((e AND f) XOR (NOT e AND g)) + fst kw + snd kw;
              t2 = big_sigma 2 13 22 a + ((a AND b) XOR (a AND c) XOR (b AND c))
          in [t1 + t2, a, b, c, d + t1, e, f, g]
      | _ \<Rightarrow> st)"

fun be_words :: "bytes \<Rightarrow> 32 word list" where
  "be_words (a # b # c # d # rest) =
     word_of_nat (((of_char a * 256 + of_char b) * 256 + of_char c) * 256 + of_char d) # be_words rest"
| "be_words _ = []"

definition sha_block :: "sha_state \<Rightarrow> bytes \<Rightarrow> sha_state" where
  "sha_block st blk =
     map2 (+) st (fold sha_step (zip sha_round (rev (schedule 48 (rev (be_words blk))))) st)"

definition be_bytes :: "nat \<Rightarrow> nat \<Rightarrow> bytes" where
  "be_bytes k n = map (\<lambda>i. char_of (n div 256 ^ i)) (rev [0..<k])"

definition sha_pad :: "bytes \<Rightarrow> bytes" where
  "sha_pad m = m @ [CHR 0x80] @ replicate ((119 - length m mod 64) mod 64) (CHR 0x00) @ be_bytes 8 (8 * length m mod 2 ^ 64)"

function sha_blocks :: "sha_state \<Rightarrow> bytes \<Rightarrow> sha_state" where
  "sha_blocks st m = (if m = [] then st else sha_blocks (sha_block st (take 64 m)) (drop 64 m))"
  by pat_completeness auto
termination
  by (relation "measure (\<lambda>(st, m). length m)") auto

declare sha_blocks.simps [simp del]

definition Sum256 :: "bytes \<Rightarrow> bytes" where
  "Sum256 m = concat (map (\<lambda>w. be_bytes 4 (unat w)) (sha_blocks sha_init (sha_pad m)))"

text \<open>\<open>hex.EncodeToString\<close>.\<close>

definition hex_EncodeToString :: "bytes \<Rightarrow> string" where
  "hex_EncodeToString b = concat (map (\<lambda>c. [lower_hex (of_char c div 16), lower_hex (of_char c mod 16)]) b)"

section \<open>Facts\<close>

lemma schedule_length [simp]: "length (schedule n ws) = n + length ws"
  by (induction n arbitrary: ws) simp_all

lemma sha_step_length [simp]: "length (sha_step kw st) = length st"
  by (simp add: sha_step_def Let_def split: list.split)

lemma fold_sha_step_length [simp]: "length (fold sha_step kws st) = length st"
  by (induction kws arbitrary: st) simp_all

lemma sha_blocks_length: "length (sha_blocks st m) = length st"
proof (induction st m rule: sha_blocks.induct)
  case (1 st m)
  have "length (sha_block st (take 64 m)) = length st" if "m \<noteq> []"
    by (simp add: sha_block_def)
  then show ?case using 1 by (cases "m = []") (simp_all add: sha_blocks.simps [of st m] sha_blocks.simps [of st "[]"])
qed

lemma Sum256_length [simp]: "length (Sum256 m) = 32"
proof -
  have "length (concat (map (\<lambda>w. be_bytes 4 (unat (w :: 32 word))) ws)) = 4 * length ws" for ws
    by (induction ws) (simp_all add: be_bytes_def)
  moreover have "length (sha_blocks sha_init (sha_pad m)) = 8" by (simp add: sha_blocks_length sha_init_def)
  ultimately show ?thesis by (simp add: Sum256_def)
qed

lemma hex_length [simp]: "length (hex_EncodeToString b) = 2 * length b"
  by (induction b) (simp_all add: hex_EncodeToString_def)

lemma hex_nonempty: "b \<noteq> [] \<Longrightarrow> hex_EncodeToString b \<noteq> []"
  by (cases b) (simp_all add: hex_EncodeToString_def)

end
