(* ===== verification/Go_Utf8.thy ===== *)
theory Go_Utf8
  imports Go_Lib
begin

text \<open>
  The part of Go's \<open>unicode/utf8\<close> that the modelled code relies on: decoding the first rune of a byte
  string, validity of a whole string, and where a valid string may be cut.
\<close>

section \<open>The model\<close>

text \<open>
  The table of first bytes: the length of the encoding that a first byte announces and the range its
  second byte must lie in. Bytes 0x80 to 0xC1 and 0xF5 to 0xFF start nothing.
\<close>

definition rune_shape :: "nat \<Rightarrow> (nat \<times> nat \<times> nat) option" where
  "rune_shape b =
     (if b < 0x80 then Some (1, 0, 0)
      else if b < 0xC2 then None
      else if b < 0xE0 then Some (2, 0x80, 0xBF)
      else if b = 0xE0 then Some (3, 0xA0, 0xBF)
      else if b = 0xED then Some (3, 0x80, 0x9F)
      else if b < 0xF0 then Some (3, 0x80, 0xBF)
      else if b = 0xF0 then Some (4, 0x90, 0xBF)
      else if b < 0xF4 then Some (4, 0x80, 0xBF)
      else if b = 0xF4 then Some (4, 0x80, 0x8F)
      else None)"

abbreviation byte :: "char \<Rightarrow> nat" where
  "byte c \<equiv> of_char c"

definition continuation :: "char \<Rightarrow> bool" where
  "continuation c = (0x80 \<le> byte c \<and> byte c \<le> 0xBF)"

text \<open>The length of the well-formed encoding at the front, if there is one.\<close>

definition rune_len :: "string \<Rightarrow> nat option" where
  "rune_len s =
     (case s of
        [] \<Rightarrow> None
      | c # cs \<Rightarrow>
          (case rune_shape (byte c) of
             None \<Rightarrow> None
           | Some (n, lo, hi) \<Rightarrow>
               if n = 1 then Some 1
               else if length s < n then None
               else if lo \<le> byte (cs ! 0) \<and> byte (cs ! 0) \<le> hi \<and> list_all continuation (take (n - 2) (tl cs))
               then Some n
               else None))"

definition RuneError :: nat where
  "RuneError = 0xFFFD"

definition rune_value :: "string \<Rightarrow> nat" where
  "rune_value s =
     (case s of
        [a] \<Rightarrow> byte a
      | [a, b] \<Rightarrow> (byte a mod 32) * 64 + byte b mod 64
      | [a, b, c] \<Rightarrow> (byte a mod 16) * 4096 + (byte b mod 64) * 64 + byte c mod 64
      | [a, b, c, d] \<Rightarrow> (byte a mod 8) * 262144 + (byte b mod 64) * 4096 + (byte c mod 64) * 64 + byte d mod 64
      | _ \<Rightarrow> RuneError)"

text \<open>\<open>utf8.DecodeRuneInString\<close>: the rune and its width; an ill-formed start is one byte wide.\<close>

definition DecodeRune :: "string \<Rightarrow> nat \<times> nat" where
  "DecodeRune s =
     (if s = [] then (RuneError, 0)
      else case rune_len s of
             None \<Rightarrow> (RuneError, 1)
           | Some n \<Rightarrow> (rune_value (take n s), n))"

lemma rune_len_bounds: "rune_len s = Some n \<Longrightarrow> 1 \<le> n \<and> n \<le> 4 \<and> n \<le> length s"
  by (auto simp: rune_len_def rune_shape_def Suc_le_eq split: list.splits if_splits option.splits)

function ValidString :: "string \<Rightarrow> bool" where
  "ValidString s =
     (if s = [] then True
      else case rune_len s of
             None \<Rightarrow> False
           | Some n \<Rightarrow> ValidString (drop n s))"
  by pat_completeness auto
termination
  by (relation "measure length") (auto dest: rune_len_bounds)

declare ValidString.simps [simp del]

section \<open>Where a valid string may be cut\<close>

lemma ValidString_Nil [simp]: "ValidString []"
  by (simp add: ValidString.simps)

lemma rune_start_continuation: "continuation c \<Longrightarrow> \<not> RuneStart c"
proof -
  assume "continuation c"
  then have "byte c div 64 = 2" by (auto simp: continuation_def div_nat_eqI)
  then show ?thesis by (simp add: RuneStart_def)
qed

lemma rune_len_first: "rune_len s = Some n \<Longrightarrow> RuneStart (s ! 0)"
  by (auto simp: rune_len_def rune_shape_def RuneStart_def split: list.splits if_splits option.splits)

lemma rune_len_tail:
  assumes "rune_len s = Some n" "0 < i" "i < n"
  shows "continuation (s ! i)"
proof -
  obtain c cs lo hi where s: "s = c # cs" and shape: "rune_shape (byte c) = Some (n, lo, hi)"
      and len: "n \<le> length s" and snd: "lo \<le> byte (cs ! 0)" "byte (cs ! 0) \<le> hi"
      and rest: "list_all continuation (take (n - 2) (tl cs))"
    using assms by (auto simp: rune_len_def split: list.splits if_splits option.splits)
  have range: "0x80 \<le> lo" "hi \<le> 0xBF" "n \<le> 4"
    using shape assms(2,3) by (auto simp: rune_shape_def split: if_splits)
  show ?thesis
  proof (cases "i = 1")
    case True
    then show ?thesis using s snd range by (simp add: continuation_def)
  next
    case False
    then have "i - 2 < length (take (n - 2) (tl cs))" using assms(2,3) len s by simp
    then have "continuation (take (n - 2) (tl cs) ! (i - 2))" using rest by (simp add: list_all_length)
    moreover have "take (n - 2) (tl cs) ! (i - 2) = s ! i"
      using False assms(2,3) len s by (cases cs) (auto simp: nth_Cons' numeral_2_eq_2)
    ultimately show ?thesis by simp
  qed
qed

lemma rune_len_take:
  assumes "rune_len s = Some n" "n \<le> m"
  shows "rune_len (take m s) = Some n"
proof -
  note b = rune_len_bounds [OF assms(1)]
  obtain c cs where s: "s = c # cs" using assms(1) by (cases s) (auto simp: rune_len_def)
  obtain lo hi where shape: "rune_shape (byte c) = Some (n, lo, hi)"
    using assms(1) s by (auto simp: rune_len_def split: option.splits if_splits)
  obtain k where m: "m = Suc k" using assms(2) b by (cases m) auto
  show ?thesis
  proof (cases "n = 1")
    case True
    then show ?thesis using s shape m by (simp add: rune_len_def)
  next
    case False
    then have "take k cs ! 0 = cs ! 0" "take (n - 2) (tl (take k cs)) = take (n - 2) (tl cs)"
      using b assms(2) m s by (cases cs; cases k; simp add: min_def)+
    then show ?thesis using assms False s shape m b by (simp add: rune_len_def split: if_splits)
  qed
qed

text \<open>Cutting a valid string at a rune start leaves two valid strings.\<close>

lemma ValidString_cut:
  assumes "ValidString s" "i < length s" "RuneStart (s ! i)"
  shows "ValidString (take i s) \<and> ValidString (drop i s)"
  using assms
proof (induction s arbitrary: i rule: ValidString.induct)
  case (1 s)
  show ?case
  proof (cases "i = 0")
    case False
    obtain n where n: "rune_len s = Some n" using 1(2,3) by (auto simp: ValidString.simps [of s] split: option.splits if_splits)
    note b = rune_len_bounds [OF n]
    have "n \<le> i" using rune_len_tail [OF n, of i] rune_start_continuation 1(4) False by fastforce
    have v: "ValidString (drop n s)" using 1(2,3) n by (simp add: ValidString.simps [of s] split: if_splits)
    show ?thesis
    proof (cases "n = i")
      case True
      then have "ValidString (take i s)"
        using rune_len_take [OF n, of i] b by (simp add: ValidString.simps [of "take i s"])
      then show ?thesis using v True by simp
    next
      case False
      with \<open>n \<le> i\<close> have "ValidString (take (i - n) (drop n s)) \<and> ValidString (drop (i - n) (drop n s))"
        using 1(1) [OF _ n v, of "i - n"] 1(3,4) by (cases s) auto
      moreover have "take i s \<noteq> []" using b \<open>n \<le> i\<close> by auto
      ultimately show ?thesis
        using rune_len_take [OF n \<open>n \<le> i\<close>] \<open>n \<le> i\<close>
        by (simp add: ValidString.simps [of "take i s"] drop_take)
    qed
  qed (use 1 in simp)
qed

text \<open>Every four consecutive bytes of a valid string contain a rune start.\<close>

lemma ValidString_starts:
  assumes "ValidString s" "i + 3 < length s"
  shows "\<exists>j. i \<le> j \<and> j \<le> i + 3 \<and> RuneStart (s ! j)"
  using assms
proof (induction s arbitrary: i rule: ValidString.induct)
  case (1 s)
  obtain n where n: "rune_len s = Some n" using 1(2,3) by (auto simp: ValidString.simps [of s] split: option.splits if_splits)
  note b = rune_len_bounds [OF n]
  have v: "ValidString (drop n s)" using 1(2,3) n by (simp add: ValidString.simps [of s] split: if_splits)
  show ?case
  proof (cases "i < n")
    case True
    show ?thesis
    proof (cases "i = 0")
      case True
      then show ?thesis using rune_len_first [OF n] by auto
    next
      case False
      have "rune_len (drop n s) \<noteq> None"
        using v b 1(3) True False by (auto simp: ValidString.simps [of "drop n s"] split: option.splits if_splits)
      then have "RuneStart (s ! n)" using rune_len_first [of "drop n s"] b by auto
      then show ?thesis using True False b by (intro exI [of _ n]) auto
    qed
  next
    case False
    obtain j where "i - n \<le> j" "j \<le> i - n + 3" "RuneStart (drop n s ! j)"
      using 1(1) [OF _ n v, of "i - n"] 1(3) False by fastforce
    then show ?thesis using False b by (intro exI [of _ "n + j"]) auto
  qed
qed

lemma RuneStart_ascii: "byte c < 0x80 \<Longrightarrow> RuneStart c"
  by (auto simp: RuneStart_def)

text \<open>Slices of a valid string between two places where it may be cut.\<close>

definition boundary :: "string \<Rightarrow> nat \<Rightarrow> bool" where
  "boundary s i \<longleftrightarrow> i = length s \<or> i < length s \<and> RuneStart (s ! i)"

definition slice :: "string \<Rightarrow> nat \<Rightarrow> nat \<Rightarrow> string" where
  "slice s a b = take (b - a) (drop a s)"

lemma slice_valid:
  assumes "ValidString s" "boundary s a" "boundary s b" "a \<le> b"
  shows "ValidString (slice s a b)"
proof -
  have d: "ValidString (drop a s)"
    using assms(1,2) ValidString_cut [of s a] by (auto simp: boundary_def)
  show ?thesis
  proof (cases "b = length s")
    case True
    then show ?thesis using d assms(4) by (simp add: slice_def)
  next
    case False
    then have "b - a < length (drop a s)" "RuneStart (drop a s ! (b - a))"
      using assms(3,4) by (auto simp: boundary_def)
    then show ?thesis using ValidString_cut [OF d] by (simp add: slice_def)
  qed
qed

lemma boundary_first: "ValidString s \<Longrightarrow> boundary s 0"
  using rune_len_first [of s] by (auto simp: boundary_def ValidString.simps [of s] split: option.splits if_splits)

end
