(* ===== verification/Asker_Document.thy ===== *)
theory Asker_Document
  imports Go_Lib
begin

text \<open>
  The canonical document every stage of the pipeline consumes and produces (\<open>asker.v1.Document\<close>): the
  messages of \<open>document.pb.go\<close> as records, a nil message as \<open>None\<close>, and the generated getters, which
  read a zero value through a nil message. A 32-bit float is its bit pattern.
\<close>

type_synonym float32 = "32 word"

text \<open>Protobuf enums are open: a number without a name is kept.\<close>

datatype DocType = DOC_TYPE_UNSPECIFIED | EMAIL | CHAT_MESSAGE | FILE | CALENDAR_EVENT | WIKI_PAGE | TICKET
  | IMAGE | VIDEO | AUDIO | UnknownDocType int

fun DocType_String :: "DocType \<Rightarrow> string" where
  "DocType_String DOC_TYPE_UNSPECIFIED = ''DOC_TYPE_UNSPECIFIED''"
| "DocType_String EMAIL = ''EMAIL''"
| "DocType_String CHAT_MESSAGE = ''CHAT_MESSAGE''"
| "DocType_String FILE = ''FILE''"
| "DocType_String CALENDAR_EVENT = ''CALENDAR_EVENT''"
| "DocType_String WIKI_PAGE = ''WIKI_PAGE''"
| "DocType_String TICKET = ''TICKET''"
| "DocType_String IMAGE = ''IMAGE''"
| "DocType_String VIDEO = ''VIDEO''"
| "DocType_String AUDIO = ''AUDIO''"
| "DocType_String (UnknownDocType n) = FormatInt n"

record BlobRef =
  br_Bucket :: string
  br_Key :: string
  br_SizeBytes :: int
  br_ContentType :: string
  br_Sha256 :: string

record Keyframe =
  kf_TsMs :: int
  kf_Image :: "BlobRef option"
  kf_ChunkId :: string

record MediaInfo =
  mi_DurationMs :: int
  mi_Width :: int
  mi_Height :: int
  mi_Thumbnail :: "BlobRef option"
  mi_Keyframes :: "Keyframe list"
  mi_TranscriptLang :: string

record Chunk =
  ck_ChunkId :: string
  ck_Text :: string
  ck_EmbeddingRef :: string
  ck_CharStart :: int
  ck_CharEnd :: int
  ck_Embedding :: "float32 list"
  ck_StartMs :: int
  ck_EndMs :: int
  ck_Modality :: string

record Participant =
  pt_Name :: string
  pt_Email :: string
  pt_Handle :: string
  pt_Role :: string

record Timestamps =
  tm_Created :: "pb_timestamp option"
  tm_Modified :: "pb_timestamp option"
  tm_Ingested :: "pb_timestamp option"

record AclInfo =
  ac_AllowedPrincipals :: "string list"
  ac_IsPrivate :: bool

record Tombstone =
  tb_Deleted :: bool
  tb_DeletedAt :: "pb_timestamp option"

record Document =
  d_TenantId :: string
  d_DocId :: string
  d_ConnectorId :: string
  d_SourceNativeId :: string
  d_Type :: DocType
  d_Title :: string
  d_BodyText :: string
  d_Chunks :: "Chunk list"
  d_Metadata :: "(string, string) table option"
  d_Participants :: "Participant list"
  d_Ts :: "Timestamps option"
  d_Acl :: "AclInfo option"
  d_Original :: "BlobRef option"
  d_VersionEtag :: string
  d_Tombstone :: "Tombstone option"
  d_Media :: "MediaInfo option"

definition zero_document :: Document where
  "zero_document = \<lparr>d_TenantId = [], d_DocId = [], d_ConnectorId = [], d_SourceNativeId = [],
     d_Type = DOC_TYPE_UNSPECIFIED, d_Title = [], d_BodyText = [], d_Chunks = [], d_Metadata = None,
     d_Participants = [], d_Ts = None, d_Acl = None, d_Original = None, d_VersionEtag = [], d_Tombstone = None,
     d_Media = None\<rparr>"

definition zero_chunk :: Chunk where
  "zero_chunk = \<lparr>ck_ChunkId = [], ck_Text = [], ck_EmbeddingRef = [], ck_CharStart = 0, ck_CharEnd = 0,
     ck_Embedding = [], ck_StartMs = 0, ck_EndMs = 0, ck_Modality = []\<rparr>"

text \<open>Chains of getters: \<open>doc.GetTombstone().GetDeleted()\<close>, \<open>doc.GetOriginal().GetContentType()\<close>.\<close>

definition get_Deleted :: "Document \<Rightarrow> bool" where
  "get_Deleted d = (case d_Tombstone d of None \<Rightarrow> False | Some t \<Rightarrow> tb_Deleted t)"

definition get_ContentType :: "Document \<Rightarrow> string" where
  "get_ContentType d = (case d_Original d of None \<Rightarrow> [] | Some b \<Rightarrow> br_ContentType b)"

end
