(* ===== verification/Ingest_Chunker.thy ===== *)
theory Ingest_Chunker
  imports Go_Utf8 Asker_Document
begin

text \<open>
  The structure-aware chunker of the ingest stage (\<open>services/ingest/chunker.go\<close>): where a body is cut
  into windows, where an email is split into sections, and the chunks of a document. Offsets are byte
  offsets; every subtraction below stays at or above zero exactly where Go's does, or is followed by
  the comparison that makes the difference irrelevant.
\<close>

section \<open>The model\<close>

definition chunkWindowBytes :: nat where "chunkWindowBytes = 2048"
definition chunkOverlapBytes :: nat where "chunkOverlapBytes = 256"
definition maxChunksPerDoc :: nat where "maxChunksPerDoc = 64"
definition singleChunkCapBytes :: nat where "singleChunkCapBytes = 8192"

lemmas chunk_consts = chunkWindowBytes_def chunkOverlapBytes_def maxChunksPerDoc_def singleChunkCapBytes_def

type_synonym span = "nat \<times> nat"

text \<open>The loop that moves a cut back to a rune start, down to \<open>start\<close> at most.\<close>

fun back_to_rune :: "string \<Rightarrow> nat \<Rightarrow> nat \<Rightarrow> nat" where
  "back_to_rune body start limit =
     (if limit > start \<and> \<not> RuneStart (body ! limit) then back_to_rune body start (limit - 1) else limit)"

declare back_to_rune.simps [simp del]

definition cutPoint :: "string \<Rightarrow> nat \<Rightarrow> nat \<Rightarrow> nat" where
  "cutPoint body start secEnd =
     (if secEnd - start \<le> chunkWindowBytes then secEnd
      else
        let limit = back_to_rune body start (start + chunkWindowBytes);
            window = slice body start limit;
            soft = (\<lambda>i n. case i of None \<Rightarrow> None | Some k \<Rightarrow> if k + n > chunkOverlapBytes then Some (start + k + n) else None)
        in case soft (LastIndex window [CHR 0x0A, CHR 0x0A]) 2 of
             Some e \<Rightarrow> e
           | None \<Rightarrow>
               (case soft (LastIndexAny window [CHR 0x0A]) 1 of
                  Some e \<Rightarrow> e
                | None \<Rightarrow>
                    (case soft (LastIndexAny window [CHR '' '', CHR 0x09]) 1 of
                       Some e \<Rightarrow> e
                     | None \<Rightarrow> limit)))"

definition isSpaceByte :: "char \<Rightarrow> bool" where
  "isSpaceByte b = (b = CHR '' '' \<or> b = CHR 0x09 \<or> b = CHR 0x0A \<or> b = CHR 0x0D)"

text \<open>The two counting loops of the word scan: advance while a condition on the byte holds.\<close>

function advance_while :: "(char \<Rightarrow> bool) \<Rightarrow> string \<Rightarrow> nat \<Rightarrow> nat \<Rightarrow> nat" where
  "advance_while P body i limit = (if i < limit \<and> P (body ! i) then advance_while P body (Suc i) limit else i)"
  by pat_completeness auto
termination
  by (relation "measure (\<lambda>(P, body, i, limit). limit - i)") auto

declare advance_while.simps [simp del]

definition wordStartWithin :: "string \<Rightarrow> nat \<Rightarrow> nat \<Rightarrow> nat option" where
  "wordStartWithin body from limit =
     (if from = 0 \<or> isSpaceByte (body ! (from - 1)) \<or> isSpaceByte (body ! from) then None
      else
        let i = advance_while (\<lambda>b. \<not> isSpaceByte b) body from limit;
            j = advance_while isSpaceByte body i limit
        in if j \<ge> limit then None else Some j)"

definition nextWindowStart :: "string \<Rightarrow> nat \<Rightarrow> nat \<Rightarrow> nat" where
  "nextWindowStart body prevStart prevEnd =
     (let next0 = prevEnd - chunkOverlapBytes;
          next1 = (if next0 \<le> prevStart then prevStart + 1 else next0);
          next2 = advance_while (\<lambda>b. \<not> RuneStart b) body next1 prevEnd
      in case wordStartWithin body next2 prevEnd of Some ws \<Rightarrow> ws | None \<Rightarrow> next2)"

lemma advance_while_ge: "i \<le> advance_while P body i limit"
  by (induction P body i limit rule: advance_while.induct) (subst advance_while.simps, auto)

lemma nextWindowStart_progress: "prevStart < nextWindowStart body prevStart prevEnd"
proof -
  define next1 where "next1 = (if prevEnd - chunkOverlapBytes \<le> prevStart then prevStart + 1 else prevEnd - chunkOverlapBytes)"
  define next2 where "next2 = advance_while (\<lambda>b. \<not> RuneStart b) body next1 prevEnd"
  have "prevStart < next1" by (auto simp: next1_def)
  also have "next1 \<le> next2" unfolding next2_def by (rule advance_while_ge)
  finally have *: "prevStart < next2" .
  have "next2 \<le> ws" if "wordStartWithin body next2 prevEnd = Some ws" for ws
    using that advance_while_ge [of next2 "\<lambda>b. \<not> isSpaceByte b" body prevEnd]
      advance_while_ge [of "advance_while (\<lambda>b. \<not> isSpaceByte b) body next2 prevEnd" isSpaceByte body prevEnd]
    by (auto simp: wordStartWithin_def Let_def split: if_splits)
  moreover have "nextWindowStart body prevStart prevEnd =
      (case wordStartWithin body next2 prevEnd of Some ws \<Rightarrow> ws | None \<Rightarrow> next2)"
    by (simp only: nextWindowStart_def Let_def next1_def next2_def)
  ultimately show ?thesis using * by (fastforce split: option.split)
qed

text \<open>\<open>appendWindowSpans\<close>, from a start inside the section: it ends for every body, since each window
  starts after the previous one.\<close>

function windows :: "string \<Rightarrow> nat \<Rightarrow> nat \<Rightarrow> span list" where
  "windows body start secEnd =
     (if start < secEnd then
        let e = cutPoint body start secEnd
        in (start, e) # (if e \<ge> secEnd then [] else windows body (nextWindowStart body start e) secEnd)
      else [])"
  by pat_completeness auto
termination
proof (relation "measure (\<lambda>(body, start, secEnd). secEnd - start)")
  show "wf (measure (\<lambda>(body, start, secEnd). secEnd - start))" by simp
next
  fix body start secEnd e
  assume "start < secEnd" "e = cutPoint body start secEnd" "\<not> secEnd \<le> e"
  then show "((body, nextWindowStart body start e, secEnd), (body, start, secEnd)) \<in> measure (\<lambda>(body, start, secEnd). secEnd - start)"
    using nextWindowStart_progress [of start body e] by auto
qed

declare windows.simps [simp del]

definition appendWindowSpans :: "span list \<Rightarrow> string \<Rightarrow> span \<Rightarrow> span list" where
  "appendWindowSpans spans body sec = spans @ windows body (fst sec) (snd sec)"

text \<open>
  \<open>quoteMarkerRe\<close>: \<open>^On .+ wrote:\s*$\<close> on a line without newline. The class \<open>\s\<close> is tab, newline, form
  feed, carriage return and space.
\<close>

definition re_space :: "char \<Rightarrow> bool" where
  "re_space c = (c \<in> {CHR 0x09, CHR 0x0A, CHR 0x0C, CHR 0x0D, CHR '' ''})"

definition quoteMarker :: "string \<Rightarrow> bool" where
  "quoteMarker line =
     (HasPrefix line ''On '' \<and>
      (let r = dropWhile re_space (rev (drop 3 line))
       in HasPrefix r (rev '' wrote:'') \<and> length r > length '' wrote:''))"

text \<open>The end of the line at \<open>offset\<close> and the offset of the next one.\<close>

definition line_bounds :: "string \<Rightarrow> nat \<Rightarrow> nat \<times> nat" where
  "line_bounds body offset =
     (case IndexByte (drop offset body) (CHR 0x0A) of
        Some nl \<Rightarrow> (offset + nl, offset + nl + 1)
      | None \<Rightarrow> (length body, length body))"

lemma line_bounds_props:
  assumes "offset < length body" "line_bounds body offset = (lineEnd, nxt)"
  shows "offset < nxt" "nxt \<le> length body" "offset \<le> lineEnd" "lineEnd \<le> nxt"
    "nxt = length body \<or> body ! (nxt - 1) = CHR 0x0A"
  using assms IndexByte_Some [of "drop offset body" "CHR 0x0A"] by (auto simp: line_bounds_def split: option.splits)

lemma line_bounds_decreases:
  "offset < length body \<Longrightarrow> (lineEnd, nxt) = line_bounds body offset \<Longrightarrow> length body - nxt < length body - offset"
  using line_bounds_props(1,2) [of offset body lineEnd nxt] by simp

text \<open>The scan over the lines: the section starts found from \<open>offset\<close> on.\<close>

function section_starts :: "string \<Rightarrow> nat \<Rightarrow> bool \<Rightarrow> nat list" where
  "section_starts body offset prevSticky =
     (if offset < length body then
        let (lineEnd, nxt) = line_bounds body offset;
            line = slice body offset lineEnd
        in if TrimSpace line = [] then section_starts body nxt prevSticky
           else
             let isQuoted = HasPrefix (TrimLeft line [CHR '' '', CHR 0x09]) ''>'';
                 marker = quoteMarker line
             in (if offset > 0 \<and> (marker \<or> isQuoted \<and> \<not> prevSticky) then [offset] else [])
                @ section_starts body nxt (isQuoted \<or> marker)
      else [])"
  by pat_completeness auto
termination
  by (relation "measure (\<lambda>(body, offset, prevSticky). length body - offset)") (auto simp: line_bounds_decreases)

declare section_starts.simps [simp del]

definition bounds_to_spans :: "nat \<Rightarrow> nat list \<Rightarrow> span list" where
  "bounds_to_spans len bounds = filter (\<lambda>(b, e). e > b) (zip bounds (tl bounds @ [len]))"

definition emailSections :: "string \<Rightarrow> span list" where
  "emailSections body = bounds_to_spans (length body) (0 # section_starts body 0 False)"

text \<open>The loop of \<open>truncateRuneSafe\<close> is the one of \<open>cutPoint\<close> with 0 as its floor.\<close>

definition truncateRuneSafe :: "string \<Rightarrow> nat \<Rightarrow> nat" where
  "truncateRuneSafe body capBytes = (if length body \<le> capBytes then length body else back_to_rune body 0 capBytes)"

definition doc_spans :: "Document \<Rightarrow> span list" where
  "doc_spans doc =
     (let body = d_BodyText doc in
      case d_Type doc of
        CHAT_MESSAGE \<Rightarrow> [(0, truncateRuneSafe body singleChunkCapBytes)]
      | CALENDAR_EVENT \<Rightarrow> [(0, truncateRuneSafe body singleChunkCapBytes)]
      | EMAIL \<Rightarrow> fold (\<lambda>sec spans. appendWindowSpans spans body sec) (emailSections body) []
      | _ \<Rightarrow> appendWindowSpans [] body (0, length body))"

definition make_chunk :: "Document \<Rightarrow> nat \<Rightarrow> span \<Rightarrow> Chunk" where
  "make_chunk doc i sp = zero_chunk\<lparr>ck_ChunkId := d_DocId doc @ ''#'' @ Itoa i,
     ck_Text := slice (d_BodyText doc) (fst sp) (snd sp), ck_CharStart := int (fst sp), ck_CharEnd := int (snd sp)\<rparr>"

definition buildChunks :: "Document \<Rightarrow> Chunk list \<times> bool" where
  "buildChunks doc =
     (if d_BodyText doc = [] then ([], False)
      else
        let spans = doc_spans doc;
            truncated = (length spans > maxChunksPerDoc);
            kept = (if truncated then take maxChunksPerDoc spans else spans)
        in (map (\<lambda>(i, sp). make_chunk doc i sp) (enumerate 0 kept), truncated))"

section \<open>Facts on cuts\<close>

subsection \<open>The scanning loops\<close>

lemma advance_while_props:
  "i \<le> limit \<Longrightarrow> advance_while P body i limit \<le> limit"
  "i \<le> k \<Longrightarrow> k < advance_while P body i limit \<Longrightarrow> P (body ! k)"
  "advance_while P body i limit < limit \<Longrightarrow> \<not> P (body ! advance_while P body i limit)"
proof (induction P body i limit rule: advance_while.induct)
  case (1 P body i limit)
  { case 1
    then show ?case using "1.IH"(1) by (subst advance_while.simps) auto }
  { case 2
    then show ?case using "1.IH"(2) advance_while.simps [of P body i limit] by (cases "i = k") (auto split: if_splits) }
  { case 3
    then show ?case using "1.IH"(3) advance_while.simps [of P body i limit] by (auto split: if_splits) }
qed

lemma back_to_rune_props:
  "back_to_rune body start limit \<le> limit"
  "start \<le> limit \<Longrightarrow> start \<le> back_to_rune body start limit"
  "back_to_rune body start limit < k \<Longrightarrow> k \<le> limit \<Longrightarrow> \<not> RuneStart (body ! k)"
  "start < back_to_rune body start limit \<Longrightarrow> RuneStart (body ! back_to_rune body start limit)"
proof (induction body start limit rule: back_to_rune.induct)
  case (1 body start limit)
  { case 1
    then show ?case using "1.IH"(1) by (subst back_to_rune.simps) auto }
  { case 2
    then show ?case using "1.IH"(2) by (subst back_to_rune.simps) auto }
  { case 3
    then show ?case using "1.IH"(3) back_to_rune.simps [of body start limit] by (cases "k = limit") (auto split: if_splits) }
  { case 4
    then show ?case using "1.IH"(4) back_to_rune.simps [of body start limit] by (auto split: if_splits) }
qed

text \<open>In a valid body a cut moves back by three bytes at most.\<close>

lemma back_to_rune_valid:
  assumes "ValidString body" "start + 3 < limit" "limit < length body"
  shows "limit \<le> back_to_rune body start limit + 3" "boundary body (back_to_rune body start limit)"
proof -
  obtain j where "limit - 3 \<le> j" "j \<le> limit" "RuneStart (body ! j)"
    using ValidString_starts [OF assms(1), of "limit - 3"] assms(2,3) by auto
  then have "j \<le> back_to_rune body start limit" using back_to_rune_props(3) [where body = body and start = start and limit = limit and k = j] by (meson not_le)
  then show *: "limit \<le> back_to_rune body start limit + 3" using \<open>limit - 3 \<le> j\<close> by simp
  then show "boundary body (back_to_rune body start limit)"
    using back_to_rune_props(1,4) [where body = body and start = start and limit = limit] assms(2,3) by (auto simp: boundary_def)
qed

lemma after_ascii:
  assumes "ValidString s" "i < length s" "byte (s ! i) < 0x80"
  shows "boundary s (Suc i)"
proof -
  have v: "ValidString (drop i s)" using ValidString_cut [OF assms(1,2)] RuneStart_ascii [OF assms(3)] by simp
  have "rune_len (drop i s) = Some 1"
    using assms(2,3) by (simp add: rune_len_def rune_shape_def Cons_nth_drop_Suc [symmetric])
  then have "ValidString (drop (Suc i) s)"
    using v assms(2) by (simp add: ValidString.simps [of "drop i s"])
  then show ?thesis using boundary_first [of "drop (Suc i) s"] assms(2) by (auto simp: boundary_def)
qed

lemma slice_nth: "i < b - a \<Longrightarrow> a + i < length s \<Longrightarrow> slice s a b ! i = s ! (a + i)"
  by (simp add: slice_def)

lemma slice_length [simp]: "b \<le> length s \<Longrightarrow> length (slice s a b) = b - a"
  by (simp add: slice_def)

lemma LastIndexAny_Some: "LastIndexAny w cs = Some k \<Longrightarrow> k < length w \<and> w ! k \<in> set cs"
  using last_index_at_Some [of "\<lambda>t. t \<noteq> [] \<and> hd t \<in> set cs" w k] by (auto simp: LastIndexAny_def hd_drop_conv_nth)

lemma LastIndex_pair: "LastIndex w [c, d] = Some k \<Longrightarrow> Suc k < length w \<and> w ! Suc k = d"
  using LastIndex_Some [of w "[c, d]" k]
  by (auto simp: HasPrefix_def dest: arg_cong [of _ _ "\<lambda>x. x ! 1"])

subsection \<open>Cut points and window starts\<close>

lemma cut_after:
  assumes "ValidString body" "limit < length body" "Suc k \<le> limit - a" "slice body a limit ! k = c" "byte c < 0x80"
  shows "boundary body (a + Suc k)" "a + Suc k \<le> limit"
  using after_ascii [of body "a + k"] slice_nth [of k limit a body] assms by auto

lemma cutPoint_props:
  assumes "ValidString body" "a < b" "b \<le> length body" "boundary body b"
  shows "a < cutPoint body a b" "cutPoint body a b \<le> b" "cutPoint body a b \<le> a + chunkWindowBytes"
    "boundary body (cutPoint body a b)"
proof -
  have "a < cutPoint body a b \<and> cutPoint body a b \<le> b \<and> cutPoint body a b \<le> a + chunkWindowBytes \<and> boundary body (cutPoint body a b)"
  proof (cases "b - a \<le> chunkWindowBytes")
    case True
    then show ?thesis using assms by (simp add: cutPoint_def)
  next
    case False
    define limit where "limit = back_to_rune body a (a + chunkWindowBytes)"
    have hard: "a + chunkWindowBytes \<le> limit + 3" "boundary body limit" "limit \<le> a + chunkWindowBytes"
      using back_to_rune_valid [OF assms(1), of a "a + chunkWindowBytes"] back_to_rune_props(1) [where body = body and start = a and limit = "a + chunkWindowBytes"]
        False assms(3) by (auto simp: limit_def chunkWindowBytes_def)
    have lim: "limit < length body" "limit < b" "a < limit" using hard False assms(3) by (auto simp: chunkWindowBytes_def)
    define w where "w = slice body a limit"
    have len: "length w = limit - a" using lim by (simp add: w_def)
    define P where "P e \<longleftrightarrow> boundary body e \<and> a < e \<and> e \<le> limit" for e
    have two: "P (a + k + 2)" if "LastIndex w [CHR 0x0A, CHR 0x0A] = Some k" for k
      using cut_after [OF assms(1) lim(1), of "Suc k" a] LastIndex_pair [OF that] len by (auto simp: w_def P_def)
    have any: "P (a + k + 1)" if "LastIndexAny w cs = Some k" "\<forall>c \<in> set cs. byte c < 0x80" for k cs
      using cut_after [OF assms(1) lim(1), of k a] LastIndexAny_Some [OF that(1)] that(2) len by (auto simp: w_def P_def)
    have one: "P (a + k + 1)" if "LastIndexAny w [CHR 0x0A] = Some k" for k by (rule any [OF that]) simp
    have blank: "P (a + k + 1)" if "LastIndexAny w [CHR '' '', CHR 0x09] = Some k" for k by (rule any [OF that]) simp
    have "P limit" using hard lim by (simp add: P_def)
    then have "P (cutPoint body a b)"
      using False two one blank
      by (cases "LastIndex w [CHR 0x0A, CHR 0x0A]"; cases "LastIndexAny w [CHR 0x0A]"; cases "LastIndexAny w [CHR '' '', CHR 0x09]")
        (simp_all add: cutPoint_def Let_def limit_def [symmetric] w_def [symmetric])
    then have "boundary body (cutPoint body a b) \<and> cutPoint body a b \<le> limit \<and> a < cutPoint body a b" by (simp add: P_def)
    then show ?thesis using lim hard by auto
  qed
  then show "a < cutPoint body a b" "cutPoint body a b \<le> b" "cutPoint body a b \<le> a + chunkWindowBytes"
    "boundary body (cutPoint body a b)" by auto
qed

lemma wordStart_props:
  assumes "wordStartWithin body fr limit = Some j"
  shows "fr \<le> j" "j < limit" "0 < j" "isSpaceByte (body ! (j - 1))"
proof -
  define i where "i = advance_while (\<lambda>b. \<not> isSpaceByte b) body fr limit"
  have j: "j = advance_while isSpaceByte body i limit" "j < limit" "fr \<noteq> 0"
    using assms by (auto simp: wordStartWithin_def Let_def i_def split: if_splits)
  have "fr \<le> i" "i \<le> j" unfolding i_def j(1) by (rule advance_while_ge)+
  then have "isSpaceByte (body ! i)"
    using advance_while_props(3) [where P = "\<lambda>b. \<not> isSpaceByte b" and body = body and i = fr and limit = limit] j(2)
    unfolding i_def [symmetric] by auto
  moreover have "\<not> isSpaceByte (body ! j)"
    using advance_while_props(3) [where P = isSpaceByte and body = body and i = i and limit = limit] j(2)
    unfolding j(1) [symmetric] by blast
  ultimately have "i < j" using \<open>i \<le> j\<close> by (metis le_neq_implies_less)
  then have "isSpaceByte (body ! (j - 1))"
    using advance_while_props(2) [where P = isSpaceByte and body = body and i = i and limit = limit and k = "j - 1"]
    unfolding j(1) [symmetric] by simp
  then show "fr \<le> j" "j < limit" "0 < j" "isSpaceByte (body ! (j - 1))" using \<open>fr \<le> i\<close> \<open>i < j\<close> j by auto
qed

lemma space_ascii: "isSpaceByte c \<Longrightarrow> byte c < 0x80"
  by (auto simp: isSpaceByte_def)

lemma nextWindowStart_props:
  assumes "ValidString body" "a < e" "e \<le> length body" "boundary body e"
  shows "nextWindowStart body a e \<le> e" "e \<le> nextWindowStart body a e + chunkOverlapBytes"
    "boundary body (nextWindowStart body a e)"
proof -
  define next1 where "next1 = (if e - chunkOverlapBytes \<le> a then a + 1 else e - chunkOverlapBytes)"
  define next2 where "next2 = advance_while (\<lambda>b. \<not> RuneStart b) body next1 e"
  have eq: "nextWindowStart body a e = (case wordStartWithin body next2 e of Some ws \<Rightarrow> ws | None \<Rightarrow> next2)"
    by (simp only: nextWindowStart_def Let_def next1_def next2_def)
  have n1: "next1 \<le> e" "e \<le> next1 + chunkOverlapBytes" using assms(2) by (auto simp: next1_def)
  have n2: "next1 \<le> next2" "next2 \<le> e"
    unfolding next2_def using advance_while_ge advance_while_props(1) [OF n1(1)] by auto
  have b2: "boundary body next2"
    using n2 assms(3,4) advance_while_props(3) [of "\<lambda>b. \<not> RuneStart b" body next1 e]
    by (cases "next2 = e") (auto simp: next2_def boundary_def)
  have ws: "next2 \<le> j \<and> j \<le> e \<and> boundary body j" if "wordStartWithin body next2 e = Some j" for j
    using wordStart_props [OF that] after_ascii [OF assms(1), of "j - 1"] space_ascii assms(3) by auto
  show "nextWindowStart body a e \<le> e" "e \<le> nextWindowStart body a e + chunkOverlapBytes"
    "boundary body (nextWindowStart body a e)"
    using n1 n2 b2 ws by (auto simp: eq split: option.split)
qed

subsection \<open>Windows\<close>

definition covers :: "span list \<Rightarrow> nat \<Rightarrow> nat \<Rightarrow> bool" where
  "covers sps a b \<longleftrightarrow> (\<forall>p. a \<le> p \<and> p < b \<longrightarrow> (\<exists>sp \<in> set sps. fst sp \<le> p \<and> p < snd sp))"

definition good_span :: "string \<Rightarrow> nat \<Rightarrow> span \<Rightarrow> bool" where
  "good_span body most sp \<longleftrightarrow> fst sp < snd sp \<and> snd sp \<le> length body \<and> snd sp - fst sp \<le> most \<and>
     boundary body (fst sp) \<and> boundary body (snd sp)"

text \<open>Consecutive windows advance, leave no gap and overlap by at most \<open>chunkOverlapBytes\<close>.\<close>

fun chained :: "span list \<Rightarrow> bool" where
  "chained (x # y # zs) = (fst x < fst y \<and> fst y \<le> snd x \<and> snd x \<le> fst y + chunkOverlapBytes \<and> chained (y # zs))"
| "chained _ = True"

lemma windows_props:
  assumes "ValidString body" "b \<le> length body" "boundary body b" "boundary body a"
  shows "(\<forall>sp \<in> set (windows body a b). good_span body chunkWindowBytes sp \<and> a \<le> fst sp \<and> snd sp \<le> b) \<and>
    covers (windows body a b) a b \<and> chained (windows body a b) \<and> (windows body a b = [] \<or> fst (hd (windows body a b)) = a)"
  using assms
proof (induction body a b rule: windows.induct)
  case (1 body a b)
  show ?case
  proof (cases "a < b")
    case False
    then show ?thesis by (simp add: windows.simps [of body a b] covers_def)
  next
    case True
    define e where "e = cutPoint body a b"
    note cut = cutPoint_props [OF "1.prems"(1) True "1.prems"(2,3), folded e_def]
    have good: "good_span body chunkWindowBytes (a, e)" using cut "1.prems"(2,4) by (auto simp: good_span_def)
    show ?thesis
    proof (cases "e \<ge> b")
      case last: True
      then have w: "windows body a b = [(a, e)]" using True by (simp add: windows.simps [of body a b] e_def [symmetric])
      show ?thesis using good cut last by (auto simp: w covers_def)
    next
      case False
      define n where "n = nextWindowStart body a e"
      have w: "windows body a b = (a, e) # windows body n b"
        using True False by (simp add: windows.simps [of body a b] e_def [symmetric] n_def)
      have el: "e \<le> length body" using cut(2) "1.prems"(2) by simp
      note nx = nextWindowStart_props [OF "1.prems"(1) cut(1) el cut(4), folded n_def]
      have an: "a < n" unfolding n_def by (rule nextWindowStart_progress)
      have ih: "(\<forall>sp \<in> set (windows body n b). good_span body chunkWindowBytes sp \<and> n \<le> fst sp \<and> snd sp \<le> b) \<and>
          covers (windows body n b) n b \<and> chained (windows body n b) \<and> (windows body n b = [] \<or> fst (hd (windows body n b)) = n)"
        using "1.IH" [OF True e_def False] "1.prems"(1-3) nx(3) unfolding n_def by blast
      have "\<forall>sp \<in> set (windows body a b). good_span body chunkWindowBytes sp \<and> a \<le> fst sp \<and> snd sp \<le> b"
        using ih good cut(2) an unfolding w by fastforce
      moreover have "covers (windows body a b) a b"
        unfolding covers_def
      proof (intro allI impI)
        fix p
        assume "a \<le> p \<and> p < b"
        then show "\<exists>sp \<in> set (windows body a b). fst sp \<le> p \<and> p < snd sp"
          using ih nx(1) unfolding w covers_def by (cases "p < e") auto
      qed
      moreover have "chained (windows body a b)"
        using ih an nx(1,2) unfolding w by (cases "windows body n b") auto
      ultimately show ?thesis by (simp add: w)
    qed
  qed
qed

subsection \<open>Email sections\<close>

lemma section_starts_step:
  assumes "offset < length body" "line_bounds body offset = (lineEnd, nxt)"
  obtains (skip) sticky' where "section_starts body offset sticky = section_starts body nxt sticky'"
  | (here) sticky' where "section_starts body offset sticky = offset # section_starts body nxt sticky'" "0 < offset"
  using assms by (fastforce simp: section_starts.simps [of body offset sticky] Let_def split: if_splits)

lemma section_starts_props:
  assumes "ValidString body \<longrightarrow> boundary body offset"
  shows "sorted_wrt (<) (section_starts body offset sticky) \<and>
    (\<forall>b \<in> set (section_starts body offset sticky). offset \<le> b \<and> 0 < b \<and> b < length body \<and> (ValidString body \<longrightarrow> boundary body b))"
  using assms
proof (induction "length body - offset" arbitrary: offset sticky rule: less_induct)
  case less
  show ?case
  proof (cases "offset < length body")
    case False
    then show ?thesis by (simp add: section_starts.simps [of body offset sticky])
  next
    case True
    obtain lineEnd nxt where lb: "line_bounds body offset = (lineEnd, nxt)" by fastforce
    note b = line_bounds_props [OF True lb]
    have "ValidString body \<longrightarrow> boundary body nxt"
      using b after_ascii [of body "nxt - 1"] by (auto simp: boundary_def)
    then have ih: "sorted_wrt (<) (section_starts body nxt st) \<and>
        (\<forall>b \<in> set (section_starts body nxt st). nxt \<le> b \<and> 0 < b \<and> b < length body \<and> (ValidString body \<longrightarrow> boundary body b))" for st
      using less.hyps [of nxt st] b True by simp
    from True lb show ?thesis
      by (rule section_starts_step [of offset body lineEnd nxt sticky])
        (use ih b(1) True less.prems in \<open>force+\<close>)
  qed
qed

lemma bounds_to_spans_Cons:
  "bounds_to_spans len [x] = (if x < len then [(x, len)] else [])"
  "x < y \<Longrightarrow> bounds_to_spans len (x # y # zs) = (x, y) # bounds_to_spans len (y # zs)"
  by (simp_all add: bounds_to_spans_def)

lemma bounds_to_spans_props:
  assumes "sorted_wrt (<) (x # xs)" "\<forall>b \<in> set (x # xs). b < length body"
  shows "concat (map (\<lambda>(a, b). slice body a b) (bounds_to_spans (length body) (x # xs))) = drop x body \<and>
    covers (bounds_to_spans (length body) (x # xs)) x (length body) \<and>
    (\<forall>sp \<in> set (bounds_to_spans (length body) (x # xs)). fst sp \<in> set (x # xs) \<and> snd sp \<in> insert (length body) (set xs))"
  using assms
proof (induction xs arbitrary: x)
  case Nil
  then show ?case by (auto simp: bounds_to_spans_Cons slice_def covers_def)
next
  case (Cons y ys)
  then have xy: "x < y" "y < length body" by auto
  note ih = Cons.IH [of y] and eq = bounds_to_spans_Cons(2) [OF xy(1), of "length body" ys]
  have "slice body x y @ drop y body = drop x body"
    using xy by (metis append_take_drop_id drop_drop le_add_diff_inverse2 less_imp_le slice_def)
  moreover have "covers ((x, y) # sps) x (length body)" if "covers sps y (length body)" for sps
    using that unfolding covers_def by (metis fst_conv leI list.set_intros(1,2) snd_conv)
  ultimately show ?case using ih Cons.prems unfolding eq by auto
qed

lemma emailSections_props:
  "concat (map (\<lambda>(a, b). slice body a b) (emailSections body)) = body"
  "covers (emailSections body) 0 (length body)"
  "ValidString body \<Longrightarrow> sp \<in> set (emailSections body) \<Longrightarrow>
     boundary body (fst sp) \<and> boundary body (snd sp) \<and> snd sp \<le> length body"
proof -
  note starts = section_starts_props [of body 0 False]
  have b0: "ValidString body \<longrightarrow> boundary body 0" using boundary_first by blast
  have "concat (map (\<lambda>(a, b). slice body a b) (emailSections body)) = body \<and> covers (emailSections body) 0 (length body) \<and>
    (\<forall>sp \<in> set (emailSections body). ValidString body \<longrightarrow>
      boundary body (fst sp) \<and> boundary body (snd sp) \<and> snd sp \<le> length body)"
  proof (cases "body = []")
    case True
    then show ?thesis by (simp add: emailSections_def section_starts.simps bounds_to_spans_Cons covers_def)
  next
    case False
    have s: "sorted_wrt (<) (0 # section_starts body 0 False)" "\<forall>b \<in> set (0 # section_starts body 0 False). b < length body"
      using starts b0 False by auto
    note sp = bounds_to_spans_props [OF s]
    have "boundary body (length body)" by (simp add: boundary_def)
    moreover have "snd x \<le> length body" if "snd x \<in> insert (length body) (set (section_starts body 0 False))" for x
      using that starts b0 by auto
    ultimately show ?thesis using sp starts b0 unfolding emailSections_def by auto
  qed
  then show "concat (map (\<lambda>(a, b). slice body a b) (emailSections body)) = body" "covers (emailSections body) 0 (length body)"
    "ValidString body \<Longrightarrow> sp \<in> set (emailSections body) \<Longrightarrow>
     boundary body (fst sp) \<and> boundary body (snd sp) \<and> snd sp \<le> length body"
    by blast+
qed

subsection \<open>Documents\<close>

definition single_chunk :: "Document \<Rightarrow> bool" where
  "single_chunk doc \<longleftrightarrow> d_Type doc = CHAT_MESSAGE \<or> d_Type doc = CALENDAR_EVENT"

definition chunk_cap :: "Document \<Rightarrow> nat" where
  "chunk_cap doc = (if single_chunk doc then singleChunkCapBytes else chunkWindowBytes)"

lemma fold_append_windows:
  "fold (\<lambda>sec spans. appendWindowSpans spans body sec) secs acc = acc @ concat (map (\<lambda>sec. windows body (fst sec) (snd sec)) secs)"
  by (induction secs arbitrary: acc) (simp_all add: appendWindowSpans_def)

lemma doc_spans_eq:
  "d_Type doc = EMAIL \<Longrightarrow> doc_spans doc =
     concat (map (\<lambda>sec. windows (d_BodyText doc) (fst sec) (snd sec)) (emailSections (d_BodyText doc)))"
  "single_chunk doc \<Longrightarrow> doc_spans doc = [(0, truncateRuneSafe (d_BodyText doc) singleChunkCapBytes)]"
  "\<not> single_chunk doc \<Longrightarrow> d_Type doc \<noteq> EMAIL \<Longrightarrow> doc_spans doc = windows (d_BodyText doc) 0 (length (d_BodyText doc))"
  by (simp add: doc_spans_def fold_append_windows, (auto simp: doc_spans_def single_chunk_def appendWindowSpans_def Let_def split: DocType.split)+)

lemma truncate_good:
  assumes "ValidString body" "body \<noteq> []"
  shows "good_span body singleChunkCapBytes (0, truncateRuneSafe body singleChunkCapBytes)"
proof (cases "length body \<le> singleChunkCapBytes")
  case True
  then show ?thesis using assms boundary_first by (auto simp: truncateRuneSafe_def good_span_def boundary_def)
next
  case False
  then show ?thesis
    using back_to_rune_valid [OF assms(1), of 0 singleChunkCapBytes] boundary_first [OF assms(1)]
      back_to_rune_props(1) [where body = body and start = 0 and limit = singleChunkCapBytes]
    by (auto simp: truncateRuneSafe_def good_span_def singleChunkCapBytes_def)
qed

lemma doc_spans_good:
  assumes "ValidString (d_BodyText doc)" "d_BodyText doc \<noteq> []" "sp \<in> set (doc_spans doc)"
  shows "good_span (d_BodyText doc) (chunk_cap doc) sp"
proof -
  let ?body = "d_BodyText doc"
  have all: "boundary ?body 0" "boundary ?body (length ?body)" using boundary_first [OF assms(1)] by (auto simp: boundary_def)
  consider (single) "single_chunk doc" | (email) "d_Type doc = EMAIL" "\<not> single_chunk doc"
    | (plain) "\<not> single_chunk doc" "d_Type doc \<noteq> EMAIL" by blast
  then show ?thesis
  proof cases
    case single
    then show ?thesis using truncate_good [OF assms(1,2)] assms(3) by (simp add: doc_spans_eq(2) chunk_cap_def)
  next
    case email
    then obtain sec where sec: "sec \<in> set (emailSections ?body)" "sp \<in> set (windows ?body (fst sec) (snd sec))"
      using assms(3) by (auto simp: doc_spans_eq(1))
    from emailSections_props(3) [OF assms(1) sec(1)] windows_props [OF assms(1), of "snd sec" "fst sec"] sec(2) email
    show ?thesis by (simp add: chunk_cap_def)
  next
    case plain
    then show ?thesis
      using windows_props [OF assms(1) order_refl all(2,1)] assms(3) by (simp add: doc_spans_eq(3) chunk_cap_def)
  qed
qed

lemma doc_spans_cover:
  assumes "ValidString (d_BodyText doc)" "\<not> single_chunk doc"
  shows "covers (doc_spans doc) 0 (length (d_BodyText doc))"
proof (cases "d_Type doc = EMAIL")
  case False
  let ?body = "d_BodyText doc"
  have "boundary ?body 0" "boundary ?body (length ?body)" using boundary_first [OF assms(1)] by (auto simp: boundary_def)
  then show ?thesis using windows_props [OF assms(1) order_refl] False assms(2) by (simp add: doc_spans_eq(3))
next
  case True
  let ?body = "d_BodyText doc"
  have "covers (windows ?body (fst sec) (snd sec)) (fst sec) (snd sec)" if "sec \<in> set (emailSections ?body)" for sec
    using emailSections_props(3) [OF assms(1) that] windows_props [OF assms(1), of "snd sec" "fst sec"] by blast
  note inside = this
  show ?thesis unfolding covers_def
  proof (intro allI impI)
    fix p
    assume "0 \<le> p \<and> p < length ?body"
    then obtain sec where sec: "sec \<in> set (emailSections ?body)" "fst sec \<le> p" "p < snd sec"
      using emailSections_props(2) [of ?body] unfolding covers_def by blast
    with inside [OF sec(1)] obtain sp where "sp \<in> set (windows ?body (fst sec) (snd sec))" "fst sp \<le> p" "p < snd sp"
      unfolding covers_def by blast
    then show "\<exists>sp \<in> set (doc_spans doc). fst sp \<le> p \<and> p < snd sp" using sec(1) by (auto simp: doc_spans_eq(1) [OF True])
  qed
qed

definition chunk_span :: "Chunk \<Rightarrow> nat \<times> nat" where
  "chunk_span c = (nat (ck_CharStart c), nat (ck_CharEnd c))"

lemma buildChunks_eq:
  assumes "d_BodyText doc \<noteq> []"
  shows "buildChunks doc = (map (\<lambda>(i, sp). make_chunk doc i sp) (enumerate 0 (take maxChunksPerDoc (doc_spans doc))),
    length (doc_spans doc) > maxChunksPerDoc)"
  using assms by (simp add: buildChunks_def Let_def)

lemma chunk_nth:
  assumes "buildChunks doc = (cs, tr)" "i < length cs"
  shows "cs ! i = make_chunk doc i (doc_spans doc ! i)" "i < length (doc_spans doc)" "d_BodyText doc \<noteq> []"
proof -
  show ne: "d_BodyText doc \<noteq> []" using assms by (auto simp: buildChunks_def)
  define ids where "ids = enumerate 0 (take maxChunksPerDoc (doc_spans doc))"
  have cs: "cs = map (\<lambda>(i, sp). make_chunk doc i sp) ids" using assms(1) unfolding buildChunks_eq [OF ne] ids_def by simp
  have "length ids \<le> length (doc_spans doc)" "i < length ids" using assms(2) by (simp_all add: cs ids_def)
  then show "i < length (doc_spans doc)" by simp
  have "ids ! i = (i, doc_spans doc ! i)" using \<open>i < length ids\<close> by (simp add: ids_def nth_enumerate_eq)
  then show "cs ! i = make_chunk doc i (doc_spans doc ! i)" using \<open>i < length ids\<close> by (simp add: cs)
qed

text \<open>What the witnesses run on.\<close>

definition sample_doc :: "DocType \<Rightarrow> string \<Rightarrow> Document" where
  "sample_doc ty body = zero_document\<lparr>d_TenantId := ''a'', d_DocId := ''d'', d_Type := ty, d_BodyText := body\<rparr>"

section \<open>Properties\<close>

text \<open>
  C32: every chunk is a faithful piece of the body. For a body of valid UTF-8 there are at most 64
  chunks with distinct identifiers, and each chunk is non-empty, is exactly the text between its byte
  offsets, is valid UTF-8 itself, and is at most 2048 bytes long, or 8192 for chat messages and
  calendar events.
\<close>

theorem chunks_sound:
  assumes "ValidString (d_BodyText doc)" "buildChunks doc = (cs, tr)" "i < length cs"
  shows "length cs \<le> 64 \<and> (\<forall>j < length cs. ck_ChunkId (cs ! i) = ck_ChunkId (cs ! j) \<longrightarrow> i = j) \<and>
    (\<exists>s e. ck_CharStart (cs ! i) = int s \<and> ck_CharEnd (cs ! i) = int e \<and> s < e \<and> e \<le> length (d_BodyText doc) \<and>
       ck_Text (cs ! i) = slice (d_BodyText doc) s e \<and> ValidString (ck_Text (cs ! i)) \<and>
       e - s \<le> (if d_Type doc = CHAT_MESSAGE \<or> d_Type doc = CALENDAR_EVENT then 8192 else 2048))"
proof (intro conjI allI impI)
  note nth = chunk_nth [OF assms(2,3)]
  show "length cs \<le> 64" using assms(2) nth(3) by (auto simp: buildChunks_eq maxChunksPerDoc_def)
  show "i = j" if "j < length cs" "ck_ChunkId (cs ! i) = ck_ChunkId (cs ! j)" for j
    using that(2) Itoa_inj unfolding nth(1) chunk_nth(1) [OF assms(2) that(1)] by (simp add: make_chunk_def)
  have "doc_spans doc ! i \<in> set (doc_spans doc)" using nth(2) by simp
  from doc_spans_good [OF assms(1) nth(3) this]
  have good: "good_span (d_BodyText doc) (chunk_cap doc) (doc_spans doc ! i)" .
  then have "ValidString (ck_Text (cs ! i))"
    using slice_valid [OF assms(1)] by (simp add: nth(1) make_chunk_def good_span_def)
  with good show "\<exists>s e. ck_CharStart (cs ! i) = int s \<and> ck_CharEnd (cs ! i) = int e \<and> s < e \<and> e \<le> length (d_BodyText doc) \<and>
       ck_Text (cs ! i) = slice (d_BodyText doc) s e \<and> ValidString (ck_Text (cs ! i)) \<and>
       e - s \<le> (if d_Type doc = CHAT_MESSAGE \<or> d_Type doc = CALENDAR_EVENT then 8192 else 2048)"
    by (intro exI [of _ "fst (doc_spans doc ! i)"] exI [of _ "snd (doc_spans doc ! i)"])
      (auto simp: nth(1) make_chunk_def good_span_def chunk_cap_def single_chunk_def chunk_consts)
qed

theorem chunks_sound_witness:
  "length (fst (buildChunks (sample_doc FILE ''hello''))) \<le> 64 \<and> ck_Text (fst (buildChunks (sample_doc FILE ''hello'')) ! 0) = ''hello''"
proof -
  have v: "ValidString ''hello''" by code_simp
  have b: "buildChunks (sample_doc FILE ''hello'') = ([make_chunk (sample_doc FILE ''hello'') 0 (0, 5)], False)" by code_simp
  have "ValidString (d_BodyText (sample_doc FILE ''hello''))" using v by (simp add: sample_doc_def)
  note sound = chunks_sound [OF this b, of 0]
  have "ck_Text (make_chunk (sample_doc FILE ''hello'') 0 (0, 5)) = ''hello''" by code_simp
  then show ?thesis using sound unfolding b by simp
qed





end
