(* ===== verification/Ingest_Normalize.thy ===== *)
theory Ingest_Normalize
  imports Go_Sha256 Ingest_Chunker
begin

text \<open>
  Normalization of documents in the ingest stage (\<open>services/ingest/normalize.go\<close>): whitespace of title and
  body, and the derived version etag. Each regular expression of the code is a recursive function on
  bytes; \<open>regexp\<close> leaves the bytes between matches alone.
\<close>

section \<open>The model\<close>

text \<open>\<open>wsRunRe\<close>: each maximal run of \<open>\s+\<close> becomes one space.\<close>

function collapse_ws :: "string \<Rightarrow> string" where
  "collapse_ws [] = []"
| "collapse_ws (c # cs) = (if re_space c then CHR '' '' # collapse_ws (dropWhile re_space cs) else c # collapse_ws cs)"
  by pat_completeness auto
termination
  by (relation "measure length") (auto simp: le_imp_less_Suc length_dropWhile_le)

definition normalizeTitle :: "string \<Rightarrow> string" where
  "normalizeTitle title = TrimSpace (collapse_ws title)"

abbreviation nl :: char where "nl \<equiv> CHR 0x0A"
abbreviation cr :: char where "cr \<equiv> CHR 0x0D"

text \<open>\<open>strings.ReplaceAll\<close> of CR LF by LF, then of CR by LF.\<close>

fun replace_crlf :: "string \<Rightarrow> string" where
  "replace_crlf (c # d # cs) = (if c = cr \<and> d = nl then nl # replace_crlf cs else c # replace_crlf (d # cs))"
| "replace_crlf cs = cs"

definition replace_cr :: "string \<Rightarrow> string" where
  "replace_cr s = map (\<lambda>c. if c = cr then nl else c) s"

definition blank :: "char \<Rightarrow> bool" where
  "blank c = (c = CHR '' '' \<or> c = CHR 0x09)"

text \<open>\<open>trailingWSRe\<close>, \<open>[ \t]+\n\<close>: a maximal run of blanks goes if a newline follows it.\<close>

function strip_trailing :: "string \<Rightarrow> string" where
  "strip_trailing [] = []"
| "strip_trailing (c # cs) =
     (if blank c then
        let run = takeWhile blank cs; rest = dropWhile blank cs
        in (if rest \<noteq> [] \<and> hd rest = nl then strip_trailing rest else c # run @ strip_trailing rest)
      else c # strip_trailing cs)"
  by pat_completeness auto
termination
  by (relation "measure length") (auto simp: le_imp_less_Suc length_dropWhile_le)

text \<open>\<open>blankLinesRunRe\<close>: a maximal run of three or more newlines becomes two.\<close>

function squeeze_nl :: "string \<Rightarrow> string" where
  "squeeze_nl [] = []"
| "squeeze_nl (c # cs) =
     (if c = nl then
        let n = Suc (length (takeWhile (\<lambda>x. x = nl) cs))
        in replicate (if n \<ge> 3 then 2 else n) nl @ squeeze_nl (dropWhile (\<lambda>x. x = nl) cs)
      else c # squeeze_nl cs)"
  by pat_completeness auto
termination
  by (relation "measure length") (auto simp: le_imp_less_Suc length_dropWhile_le)

definition normalizeBody :: "string \<Rightarrow> string" where
  "normalizeBody body =
     (if body = [] then [] else TrimSpace (squeeze_nl (strip_trailing (replace_cr (replace_crlf body)))))"

definition normalizeDocument :: "Document \<Rightarrow> Document" where
  "normalizeDocument doc =
     (let doc1 = doc\<lparr>d_Title := normalizeTitle (d_Title doc), d_BodyText := normalizeBody (d_BodyText doc)\<rparr>
      in if d_VersionEtag doc1 = []
         then doc1\<lparr>d_VersionEtag := hex_EncodeToString (Sum256 (d_Title doc1 @ d_BodyText doc1))\<rparr>
         else doc1)"

section \<open>Facts: normal forms\<close>

text \<open>A normal title holds no whitespace but single spaces; a normal body holds no CR, no blank before a
  newline and no three newlines in a row. Both survive cutting at the ends.\<close>

definition single_spaced :: "string \<Rightarrow> bool" where
  "single_spaced s \<longleftrightarrow> (\<forall>c \<in> set s. re_space c \<longrightarrow> c = CHR '' '') \<and> \<not> sublist [CHR '' '', CHR '' ''] s"

definition clean_lines :: "string \<Rightarrow> bool" where
  "clean_lines s \<longleftrightarrow> cr \<notin> set s \<and> (\<forall>b. blank b \<longrightarrow> \<not> sublist [b, nl] s) \<and> \<not> sublist [nl, nl, nl] s"

lemma sublist_pair_Cons: "sublist [a, b] (c # s) \<longleftrightarrow> (c = a \<and> s \<noteq> [] \<and> hd s = b) \<or> sublist [a, b] s"
  by (cases s) (auto simp: sublist_Cons_right)

lemma TrimSpace_sublist: "sublist (TrimSpace s) s"
  using TrimSpace_infix [of s] unfolding sublist_def by blast

lemma single_spaced_trim: "single_spaced s \<Longrightarrow> single_spaced (TrimSpace s)"
  using TrimSpace_sublist [of s] unfolding single_spaced_def
  by (meson set_mono_sublist sublist_order.order.trans subset_iff)

lemma clean_lines_trim: "clean_lines s \<Longrightarrow> clean_lines (TrimSpace s)"
  using TrimSpace_sublist [of s] unfolding clean_lines_def
  by (meson set_mono_sublist sublist_order.order.trans subset_iff)

subsection \<open>Titles\<close>

lemma collapse_hd: "collapse_ws s \<noteq> [] \<Longrightarrow> hd (collapse_ws s) = CHR '' '' \<longleftrightarrow> re_space (hd s)"
  by (cases s) (auto simp: re_space_def)

lemma collapse_Nil [simp]: "collapse_ws s = [] \<longleftrightarrow> s = []"
  by (cases s) auto

lemma collapse_single: "single_spaced (collapse_ws s)"
proof (induction s rule: collapse_ws.induct)
  case 1
  then show ?case by (simp add: single_spaced_def)
next
  case (2 c cs)
  show ?case
  proof (cases "re_space c")
    case False
    then have "c \<noteq> CHR '' ''" by (auto simp: re_space_def)
    then show ?thesis using 2(2) [OF False] False by (simp add: single_spaced_def sublist_pair_Cons)
  next
    case True
    let ?r = "dropWhile re_space cs"
    have "\<not> (collapse_ws ?r \<noteq> [] \<and> hd (collapse_ws ?r) = CHR '' '')"
      using collapse_hd [of ?r] hd_dropWhile [of re_space cs] by auto
    then show ?thesis using 2(1) [OF True] True by (simp add: single_spaced_def sublist_pair_Cons del: collapse_Nil)
  qed
qed

lemma collapse_id: "single_spaced s \<Longrightarrow> collapse_ws s = s"
proof (induction s)
  case (Cons c s)
  have tail: "single_spaced s" using Cons.prems by (auto simp: single_spaced_def sublist_pair_Cons)
  show ?case
  proof (cases "re_space c")
    case True
    have "s = [] \<or> \<not> re_space (hd s)"
      using Cons.prems True by (cases s) (auto simp: single_spaced_def sublist_pair_Cons)
    then have "dropWhile re_space s = s" by (cases s) auto
    then show ?thesis using Cons.IH [OF tail] Cons.prems True by (simp add: single_spaced_def)
  qed (use Cons.IH [OF tail] in simp)
qed simp

lemma normalizeTitle_idem: "normalizeTitle (normalizeTitle t) = normalizeTitle t"
  unfolding normalizeTitle_def using collapse_id [OF single_spaced_trim [OF collapse_single]] by simp

subsection \<open>Bodies\<close>

lemma replace_cr_free: "cr \<notin> set (replace_cr s)"
  by (auto simp: replace_cr_def)

lemma replace_cr_id: "cr \<notin> set s \<Longrightarrow> replace_cr s = s"
  by (induction s) (auto simp: replace_cr_def)

lemma replace_crlf_id: "cr \<notin> set s \<Longrightarrow> replace_crlf s = s"
  by (induction s rule: replace_crlf.induct) auto

lemma strip_trailing_set: "set (strip_trailing s) \<subseteq> set s"
proof (induction s rule: strip_trailing.induct)
  case (2 c cs)
  let ?run = "takeWhile blank cs" and ?rest = "dropWhile blank cs"
  have run: "set ?run \<subseteq> set cs" by (rule subsetI) (drule set_takeWhileD, simp)
  have rest: "set ?rest \<subseteq> set cs" by (rule subsetI) (erule set_dropWhileD)
  show ?case
  proof (cases "blank c")
    case True
    have "set (strip_trailing ?rest) \<subseteq> set ?rest" using 2(1,2) [OF True refl refl] by blast
    then have sub: "set (strip_trailing ?rest) \<subseteq> set cs" using rest by (rule subset_trans)
    have "strip_trailing (c # cs) = strip_trailing ?rest \<or> strip_trailing (c # cs) = c # ?run @ strip_trailing ?rest"
      using True by (simp only: strip_trailing.simps Let_def if_True split: if_split) blast
    then show ?thesis using run sub by (elim disjE) (simp_all only: list.set set_append Un_subset_iff insert_mono subset_insertI2 Un_least)
  next
    case False
    show ?thesis using 2(3) [OF False] False by (simp only: strip_trailing.simps if_False list.set insert_mono)
  qed
qed simp

lemma set_replicate_append: "set (replicate k x @ xs) \<subseteq> insert x (set xs)"
  by (induction k) auto

lemma squeeze_set: "set (squeeze_nl s) \<subseteq> set s"
proof (induction s rule: squeeze_nl.induct)
  case (2 c cs)
  let ?r = "dropWhile (\<lambda>x. x = nl) cs"
  show ?case
  proof (cases "c = nl")
    case True
    have "set ?r \<subseteq> set cs" using set_dropWhileD by fast
    then have "set (squeeze_nl ?r) \<subseteq> set cs" using 2(1) [OF True refl] by (rule subset_trans [rotated])
    moreover have "set (squeeze_nl (c # cs)) \<subseteq> insert nl (set (squeeze_nl ?r))"
      using True by (simp only: squeeze_nl.simps Let_def refl if_True set_replicate_append)
    ultimately show ?thesis using True unfolding list.set(2) by (meson insert_mono subset_trans)
  next
    case False
    show ?thesis using 2(2) [OF False] False unfolding squeeze_nl.simps list.set(2) by (simp only: if_False list.set(2) insert_mono)
  qed
qed simp

lemma strip_hd: "rest = [] \<or> \<not> blank (hd rest) \<Longrightarrow> strip_trailing rest \<noteq> [] \<Longrightarrow> hd (strip_trailing rest) = hd rest"
  by (cases rest) auto

lemma blanks_before:
  assumes "\<forall>c \<in> set run. blank c" "t = [] \<or> hd t \<noteq> nl" "\<not> sublist [b, nl] t"
  shows "\<not> sublist [b, nl] (run @ t)"
  using assms(1)
proof (induction run)
  case (Cons c run)
  have "\<not> (run @ t \<noteq> [] \<and> hd (run @ t) = nl)"
    using Cons.prems assms(2) by (cases run) (auto simp: blank_def)
  then show ?case using Cons by (simp add: sublist_pair_Cons)
qed (use assms(3) in simp)

lemma strip_trailing_clean: "blank b \<Longrightarrow> \<not> sublist [b, nl] (strip_trailing s)"
proof (induction s rule: strip_trailing.induct)
  case (2 c cs)
  let ?run = "takeWhile blank cs" and ?rest = "dropWhile blank cs"
  have rest: "?rest = [] \<or> \<not> blank (hd ?rest)" using hd_dropWhile [of blank cs] by auto
  show ?case
  proof (cases "blank c")
    case False
    then show ?thesis using 2(3,4) by (auto simp: sublist_pair_Cons)
  next
    case True
    show ?thesis
    proof (cases "?rest \<noteq> [] \<and> hd ?rest = nl")
      case strip: True
      then show ?thesis using 2(1) [OF True refl refl strip 2(4)] True by simp
    next
      case False
      have "strip_trailing ?rest = [] \<or> hd (strip_trailing ?rest) \<noteq> nl"
        using strip_hd [OF rest] False rest strip_trailing.simps(1) by metis
      moreover have "\<not> sublist [b, nl] (strip_trailing ?rest)" using 2(2) [OF True refl refl False 2(4)] .
      moreover have "\<forall>x \<in> set (c # ?run). blank x" using True set_takeWhileD by fastforce
      ultimately have "\<not> sublist [b, nl] ((c # ?run) @ strip_trailing ?rest)" by (intro blanks_before)
      moreover have "strip_trailing (c # cs) = (c # ?run) @ strip_trailing ?rest" using True False by (simp add: Let_def)
      ultimately show ?thesis by simp
    qed
  qed
qed simp

lemma strip_trailing_id: "\<forall>b. blank b \<longrightarrow> \<not> sublist [b, nl] s \<Longrightarrow> strip_trailing s = s"
proof (induction s rule: strip_trailing.induct)
  case (2 c cs)
  let ?run = "takeWhile blank cs" and ?rest = "dropWhile blank cs"
  have split: "cs = ?run @ ?rest" by simp
  have tail: "\<forall>b. blank b \<longrightarrow> \<not> sublist [b, nl] cs" using 2(4) by (simp add: sublist_pair_Cons)
  show ?case
  proof (cases "blank c")
    case False
    then show ?thesis using 2(3) tail by simp
  next
    case True
    have "\<not> (?rest \<noteq> [] \<and> hd ?rest = nl)"
    proof
      assume nl: "?rest \<noteq> [] \<and> hd ?rest = nl"
      define x where "x = last (c # ?run)"
      have "x \<in> set (c # ?run)" unfolding x_def by (rule last_in_set) simp
      then have "blank x" using True set_takeWhileD by fastforce
      have "c # cs = butlast (c # ?run) @ [x, nl] @ tl ?rest"
        using nl append_butlast_last_id [of "c # ?run"] split unfolding x_def
        by (metis append.assoc append_Cons append_Nil list.collapse list.distinct(1))
      then show False using 2(4) \<open>blank x\<close> unfolding sublist_def by metis
    qed
    moreover have "\<forall>b. blank b \<longrightarrow> \<not> sublist [b, nl] ?rest"
      using tail suffix_dropWhile [of blank cs] by (meson suffix_imp_sublist sublist_order.order.trans)
    ultimately have "strip_trailing ?rest = ?rest" "strip_trailing (c # cs) = c # ?run @ strip_trailing ?rest"
      using 2(2) [OF True refl refl] True by (blast, simp only: strip_trailing.simps Let_def if_True if_False)
    then show ?thesis using split by simp
  qed
qed simp

lemma squeeze_hd: "squeeze_nl s \<noteq> [] \<Longrightarrow> hd (squeeze_nl s) = hd s" "squeeze_nl s = [] \<longleftrightarrow> s = []"
  by (cases s; auto simp: Let_def)+

lemma squeeze_blank: "blank b \<Longrightarrow> \<not> sublist [b, nl] s \<Longrightarrow> \<not> sublist [b, nl] (squeeze_nl s)"
proof (induction s rule: squeeze_nl.induct)
  case (2 c cs)
  have b: "b \<noteq> nl" using 2(3) by (auto simp: blank_def)
  show ?case
  proof (cases "c = nl")
    case False
    then show ?thesis using 2 squeeze_hd [of cs] by (auto simp: sublist_pair_Cons)
  next
    case True
    let ?r = "dropWhile (\<lambda>x. x = nl) cs"
    have "\<not> sublist [b, nl] ?r"
      using 2(4) suffix_dropWhile [of "\<lambda>x. x = nl" cs] by (simp add: sublist_pair_Cons) (meson suffix_imp_sublist sublist_order.order.trans)
    then have ih: "\<not> sublist [b, nl] (squeeze_nl ?r)" using 2(1) [OF True refl] 2(3) by simp
    have "\<not> sublist [b, nl] (replicate k nl @ squeeze_nl ?r)" for k
      using ih b by (induction k) (auto simp: sublist_pair_Cons)
    then show ?thesis using True by (simp add: Let_def)
  qed
qed simp

lemma triple_Cons: "sublist [nl, nl, nl] (c # s) \<longleftrightarrow> (c = nl \<and> (\<exists>t. s = nl # nl # t)) \<or> sublist [nl, nl, nl] s"
  by (auto simp: sublist_Cons_right prefix_def)

lemma squeeze_clean: "\<not> sublist [nl, nl, nl] (squeeze_nl s)"
proof (induction s rule: squeeze_nl.induct)
  case (2 c cs)
  show ?case
  proof (cases "c = nl")
    case False
    then show ?thesis using 2(2) by (simp add: triple_Cons)
  next
    case True
    let ?r = "dropWhile (\<lambda>x. x = nl) cs"
    have ih: "\<not> sublist [nl, nl, nl] (squeeze_nl ?r)" using 2(1) [OF True refl] .
    have hd: "squeeze_nl ?r = [] \<or> hd (squeeze_nl ?r) \<noteq> nl"
      using squeeze_hd [of ?r] hd_dropWhile [of "\<lambda>x. x = nl" cs] by metis
    have "\<not> sublist [nl, nl, nl] (replicate k nl @ squeeze_nl ?r)" if "k \<le> 2" for k
      using that ih hd by (cases "squeeze_nl ?r"; cases k; cases "k - 1") (auto simp: triple_Cons)
    then show ?thesis using True by (simp add: Let_def)
  qed
qed simp

lemma nl_run: "takeWhile (\<lambda>x. x = nl) cs = replicate (length (takeWhile (\<lambda>x. x = nl) cs)) nl"
  by (induction cs) simp_all

lemma squeeze_id: "\<not> sublist [nl, nl, nl] s \<Longrightarrow> squeeze_nl s = s"
proof (induction s rule: squeeze_nl.induct)
  case (2 c cs)
  show ?case
  proof (cases "c = nl")
    case False
    then show ?thesis using 2(2,3) by (simp add: triple_Cons)
  next
    case True
    define r where "r = dropWhile (\<lambda>x. x = nl) cs"
    define n where "n = length (takeWhile (\<lambda>x. x = nl) cs)"
    have cs: "cs = replicate n nl @ r" unfolding n_def r_def nl_run [symmetric] by simp
    have "n \<le> 1"
    proof (rule ccontr)
      assume "\<not> n \<le> 1"
      then obtain k where "n = Suc (Suc k)" by (cases n; cases "n - 1") auto
      then show False using 2(3) True cs by (auto simp: triple_Cons)
    qed
    moreover have "sublist r (c # cs)"
      unfolding sublist_def using cs by (metis append.right_neutral append_Cons append.assoc)
    then have "\<not> sublist [nl, nl, nl] r" using 2(3) sublist_order.order.trans by blast
    then have "squeeze_nl r = r" using 2(1) [OF True refl] unfolding r_def by blast
    moreover have "squeeze_nl (c # cs) = replicate (if Suc n \<ge> 3 then 2 else Suc n) nl @ squeeze_nl r"
      unfolding n_def r_def using True by (simp only: squeeze_nl.simps Let_def refl if_True)
    ultimately have "squeeze_nl (c # cs) = replicate (Suc n) nl @ r" by simp
    then show ?thesis using True cs by simp
  qed
qed simp

lemma normalizeBody_clean: "clean_lines (normalizeBody s)"
proof -
  let ?r = "strip_trailing (replace_cr (replace_crlf s))"
  have "cr \<notin> set (squeeze_nl ?r)" using squeeze_set strip_trailing_set replace_cr_free by blast
  then have "clean_lines (squeeze_nl ?r)"
    using squeeze_clean squeeze_blank [OF _ strip_trailing_clean] by (simp add: clean_lines_def)
  then show ?thesis by (simp add: normalizeBody_def clean_lines_trim) (simp add: clean_lines_def)
qed

lemma clean_lines_id: "clean_lines s \<Longrightarrow> TrimSpace s = s \<Longrightarrow> normalizeBody s = s"
  by (simp add: clean_lines_def normalizeBody_def replace_crlf_id replace_cr_id strip_trailing_id squeeze_id)

lemma TrimSpace_Nil [simp]: "TrimSpace [] = []"
  using TrimSpace_length [of "[]"] by simp

lemma normalizeBody_trimmed: "TrimSpace (normalizeBody s) = normalizeBody s"
  by (simp add: normalizeBody_def)

lemma normalizeBody_idem: "normalizeBody (normalizeBody s) = normalizeBody s"
  by (rule clean_lines_id [OF normalizeBody_clean normalizeBody_trimmed])

lemma normalizeDocument_fields:
  "d_TenantId (normalizeDocument d) = d_TenantId d" "d_DocId (normalizeDocument d) = d_DocId d"
  "d_Type (normalizeDocument d) = d_Type d" "d_Original (normalizeDocument d) = d_Original d"
  "d_Tombstone (normalizeDocument d) = d_Tombstone d"
  "d_Title (normalizeDocument d) = normalizeTitle (d_Title d)" "d_BodyText (normalizeDocument d) = normalizeBody (d_BodyText d)"
  by (simp_all add: normalizeDocument_def Let_def)

lemma Sum256_nonempty: "Sum256 m \<noteq> []"
  using Sum256_length [of m] by (metis list.size(3) zero_neq_numeral)

lemma normalizeDocument_etag:
  "d_VersionEtag d \<noteq> [] \<Longrightarrow> d_VersionEtag (normalizeDocument d) = d_VersionEtag d"
  "d_VersionEtag d = [] \<Longrightarrow> d_VersionEtag (normalizeDocument d) =
     hex_EncodeToString (Sum256 (normalizeTitle (d_Title d) @ normalizeBody (d_BodyText d)))"
  by (simp_all add: normalizeDocument_def Let_def)

lemma normalizeDocument_etag_nonempty: "d_VersionEtag (normalizeDocument d) \<noteq> []"
proof (cases "d_VersionEtag d = []")
  case True
  show ?thesis unfolding normalizeDocument_etag(2) [OF True] by (rule hex_nonempty [OF Sum256_nonempty])
next
  case False
  then show ?thesis unfolding normalizeDocument_etag(1) [OF False] .
qed

text \<open>A document that went through once is a fixed point: a handler that gets the document its failed attempt
  left behind works on the same title, body and etag.\<close>

lemma normalizeDocument_idem: "normalizeDocument (normalizeDocument d) = normalizeDocument d"
proof -
  let ?n = "normalizeDocument d"
  have "normalizeDocument ?n = ?n\<lparr>d_Title := normalizeTitle (d_Title ?n), d_BodyText := normalizeBody (d_BodyText ?n)\<rparr>"
    using normalizeDocument_etag_nonempty [of d] unfolding normalizeDocument_def [of ?n] by (simp add: Let_def)
  also have "\<dots> = ?n\<lparr>d_Title := d_Title ?n, d_BodyText := d_BodyText ?n\<rparr>"
    by (simp only: normalizeDocument_fields normalizeTitle_idem normalizeBody_idem)
  finally show ?thesis by simp
qed

end
