(* ===== verification/Kafka.thy ===== *)
theory Kafka
  imports Asker_Document Tenancy
begin

text \<open>
  The document queues between the pipeline's stages (\<open>platform/kafkautil\<close>): the producer, which refuses
  a document outside its tenant's context, and the consumer, which delivers each record to a handler
  with retries, quarantines what cannot be processed and commits an offset only afterwards.

  The Kafka client (franz-go) and the protobuf codec are code of other modules: the fields of a
  parameter. Everything outside the process, including the passing of time and the cancellation of
  the context, is a state \<open>'w\<close> that the client's operations and the handler transform.
\<close>

section \<open>The model\<close>

definition TopicDocsRaw :: string where "TopicDocsRaw = ''docs.raw''"
definition TopicDocsChunked :: string where "TopicDocsChunked = ''docs.chunked''"
definition TopicDocsEnriched :: string where "TopicDocsEnriched = ''docs.enriched''"
definition TopicDocsDeadletter :: string where "TopicDocsDeadletter = ''docs.deadletter''"

definition HeaderTenantID :: string where "HeaderTenantID = ''tenant_id''"
definition HeaderDocID :: string where "HeaderDocID = ''doc_id''"
definition HeaderVersionEtag :: string where "HeaderVersionEtag = ''version_etag''"
definition HeaderError :: string where "HeaderError = ''error''"
definition HeaderOriginTopic :: string where "HeaderOriginTopic = ''origin_topic''"

record kgo_Record =
  kr_Topic :: string
  kr_Partition :: int
  kr_Offset :: int
  kr_Key :: bytes
  kr_Value :: bytes
  kr_Headers :: "(string \<times> bytes) list"

text \<open>What a poll returns: a closed client, or records in order.\<close>

datatype fetches = ClientClosed | Fetched "kgo_Record list"

record 'w kgo_client =
  ProduceSync :: "kgo_Record \<Rightarrow> 'w \<Rightarrow> string option \<times> 'w"
  CommitRecords :: "kgo_Record \<Rightarrow> 'w \<Rightarrow> string option \<times> 'w"
  PollFetches :: "'w \<Rightarrow> fetches \<times> 'w"
  ctx_Err :: "'w \<Rightarrow> string option"
  sleepCtx :: "int \<Rightarrow> 'w \<Rightarrow> string option \<times> 'w"
  proto_Marshal :: "Document \<Rightarrow> string + bytes"
  proto_Unmarshal :: "bytes \<Rightarrow> string + Document"

text \<open>A handler may change the document it is given, and a retry is given the changed one.\<close>

type_synonym 'w doc_handler = "go_ctx \<Rightarrow> Document \<Rightarrow> 'w \<Rightarrow> (string option \<times> Document) \<times> 'w"

subsection \<open>Producer\<close>

definition document_record :: "string \<Rightarrow> Document \<Rightarrow> bytes \<Rightarrow> kgo_Record" where
  "document_record topic doc value = \<lparr>kr_Topic = topic, kr_Partition = 0, kr_Offset = 0, kr_Key = d_TenantId doc,
     kr_Value = value,
     kr_Headers = [(HeaderTenantID, d_TenantId doc), (HeaderDocID, d_DocId doc), (HeaderVersionEtag, d_VersionEtag doc)]\<rparr>"

definition ProduceDocument :: "'w kgo_client \<Rightarrow> go_ctx \<Rightarrow> string \<Rightarrow> Document option \<Rightarrow> 'w \<Rightarrow> string option \<times> 'w" where
  "ProduceDocument cl ctx topic docp w =
     (if topic = [] then (Some ''kafkautil: produce document: empty topic'', w)
      else
        let failed = (\<lambda>why. Some (''kafkautil: produce document to '' @ quoted topic @ '': '' @ why)) in
        case docp of
          None \<Rightarrow> (failed ''nil document'', w)
        | Some doc \<Rightarrow>
            (case FromContext ctx of
               Inl e \<Rightarrow> (failed (tenancy_err_text e), w)
             | Inr tc \<Rightarrow>
                 if tenantID tc \<noteq> d_TenantId doc
                 then (failed (''tenant mismatch: context tenant '' @ quoted (tenantID tc) @ '', document tenant ''
                        @ quoted (d_TenantId doc)), w)
                 else case proto_Marshal cl doc of
                        Inl e \<Rightarrow> (failed (''marshal: '' @ e), w)
                      | Inr value \<Rightarrow>
                          (case ProduceSync cl (document_record topic doc value) w of
                             (Some e, w') \<Rightarrow> (failed e, w')
                           | (None, w') \<Rightarrow> (None, w'))))"

subsection \<open>Consumer\<close>

definition maxHandlerAttempts :: nat where
  "maxHandlerAttempts = 3"

text \<open>In milliseconds.\<close>

definition handlerBackoff :: "int list" where
  "handlerBackoff = [100, 500, 2000]"

definition backoffFor :: "nat \<Rightarrow> int" where
  "backoffFor i = handlerBackoff ! (if i \<ge> length handlerBackoff then length handlerBackoff - 1 else i)"

fun tenant_header :: "(string \<times> bytes) list \<Rightarrow> tenancy_error + tenancy_context" where
  "tenant_header [] = Inl ErrNoTenant"
| "tenant_header ((k, v) # hs) = (if k = HeaderTenantID then FromHeaderValue v else tenant_header hs)"

definition tenantFromRecord :: "kgo_Record \<Rightarrow> tenancy_error + tenancy_context" where
  "tenantFromRecord rec = tenant_header (kr_Headers rec)"

text \<open>A failed commit is logged and ignored.\<close>

definition commit :: "'w kgo_client \<Rightarrow> kgo_Record \<Rightarrow> 'w \<Rightarrow> 'w" where
  "commit cl rec w = snd (CommitRecords cl rec w)"

definition deadletter_record :: "kgo_Record \<Rightarrow> string \<Rightarrow> kgo_Record" where
  "deadletter_record rec cause = \<lparr>kr_Topic = TopicDocsDeadletter, kr_Partition = 0, kr_Offset = 0, kr_Key = kr_Key rec,
     kr_Value = kr_Value rec,
     kr_Headers = kr_Headers rec @ [(HeaderError, cause), (HeaderOriginTopic, kr_Topic rec)]\<rparr>"

definition quarantine :: "'w kgo_client \<Rightarrow> kgo_Record \<Rightarrow> string \<Rightarrow> 'w \<Rightarrow> string option \<times> 'w" where
  "quarantine cl rec cause w =
     (if kr_Topic rec = TopicDocsDeadletter then (None, commit cl rec w)
      else case ProduceSync cl (deadletter_record rec cause) w of
             (Some e, w') \<Rightarrow>
               (Some (''kafkautil: quarantine '' @ kr_Topic rec @ ''['' @ FormatInt (kr_Partition rec) @ '']@''
                  @ FormatInt (kr_Offset rec) @ '' to '' @ TopicDocsDeadletter @ '': '' @ e), w')
           | (None, w') \<Rightarrow> (None, commit cl rec w'))"

text \<open>The attempts loop, with the number of attempts left; \<open>attempt\<close> counts from 1.\<close>

fun attempts ::
  "'w kgo_client \<Rightarrow> kgo_Record \<Rightarrow> 'w doc_handler \<Rightarrow> go_ctx \<Rightarrow> nat \<Rightarrow> nat \<Rightarrow> Document \<Rightarrow> string \<Rightarrow> 'w \<Rightarrow> string option \<times> 'w" where
  "attempts cl rec h hctx 0 attempt doc lastErr w =
     quarantine cl rec (''handler failed after '' @ Itoa maxHandlerAttempts @ '' attempts: '' @ lastErr) w"
| "attempts cl rec h hctx (Suc left) attempt doc lastErr w =
     (case (if attempt > 1 then sleepCtx cl (backoffFor (attempt - 2)) w else (None, w)) of
        (Some e, w1) \<Rightarrow> (Some e, w1)
      | (None, w1) \<Rightarrow>
          (case h hctx doc w1 of
             ((None, doc'), w2) \<Rightarrow> (None, commit cl rec w2)
           | ((Some e, doc'), w2) \<Rightarrow>
               (case ctx_Err cl w2 of
                  Some c \<Rightarrow> (Some c, w2)
                | None \<Rightarrow> attempts cl rec h hctx left (Suc attempt) doc' e w2)))"

definition processRecord :: "'w kgo_client \<Rightarrow> go_ctx \<Rightarrow> kgo_Record \<Rightarrow> 'w doc_handler \<Rightarrow> 'w \<Rightarrow> string option \<times> 'w" where
  "processRecord cl ctx rec h w =
     (case tenantFromRecord rec of
        Inl e \<Rightarrow> quarantine cl rec (''invalid tenant header: '' @ tenancy_err_text e) w
      | Inr tc \<Rightarrow>
          (case proto_Unmarshal cl (kr_Value rec) of
             Inl e \<Rightarrow> quarantine cl rec (''unmarshal document: '' @ e) w
           | Inr doc \<Rightarrow>
               if d_TenantId doc \<noteq> tenantID tc
               then quarantine cl rec (''tenant header '' @ quoted (tenantID tc) @ '' does not match document tenant ''
                      @ quoted (d_TenantId doc)) w
               else attempts cl rec h (WithContext ctx tc) maxHandlerAttempts 1 doc [] w))"

text \<open>One fetch, in order, up to the first record that could be neither handled nor quarantined.\<close>

fun process_fetch :: "'w kgo_client \<Rightarrow> go_ctx \<Rightarrow> kgo_Record list \<Rightarrow> 'w doc_handler \<Rightarrow> 'w \<Rightarrow> string option \<times> 'w" where
  "process_fetch cl ctx [] h w = (None, w)"
| "process_fetch cl ctx (rec # recs) h w =
     (case processRecord cl ctx rec h w of
        (Some e, w') \<Rightarrow> (Some e, w')
      | (None, w') \<Rightarrow> process_fetch cl ctx recs h w')"

text \<open>The loop of \<open>Run\<close>, for a handler that is not nil; it may poll forever, which is \<open>None\<close>.\<close>

partial_function (option) Run ::
  "'w kgo_client \<Rightarrow> go_ctx \<Rightarrow> 'w doc_handler \<Rightarrow> 'w \<Rightarrow> (string option \<times> 'w) option" where
  "Run cl ctx h w =
     (case PollFetches cl w of
        (ClientClosed, w1) \<Rightarrow> Some (None, w1)
      | (Fetched recs, w1) \<Rightarrow>
          if ctx_Err cl w1 \<noteq> None then Some (None, w1)
          else case process_fetch cl ctx recs h w1 of
                 (Some e, w2) \<Rightarrow> Some (if ctx_Err cl w2 \<noteq> None then None else Some e, w2)
               | (None, w2) \<Rightarrow> Run cl ctx h w2)"

section \<open>Facts on delivery\<close>

text \<open>
  What an observer of the consumer sees: the handler's calls with their outcome, the produced records
  with their outcome, and the commits. The traced client and handler behave as the given ones and
  keep this log.
\<close>

datatype kevent = EvHandle go_ctx Document bool | EvProduce kgo_Record bool | EvCommit kgo_Record

definition traced :: "'w kgo_client \<Rightarrow> ('w \<times> kevent list) kgo_client" where
  "traced cl = \<lparr>
     ProduceSync = (\<lambda>r (w, l). let (e, w') = ProduceSync cl r w in (e, (w', l @ [EvProduce r (e = None)]))),
     CommitRecords = (\<lambda>r (w, l). let (e, w') = CommitRecords cl r w in (e, (w', l @ [EvCommit r]))),
     PollFetches = (\<lambda>(w, l). let (f, w') = PollFetches cl w in (f, (w', l))),
     ctx_Err = (\<lambda>(w, l). ctx_Err cl w),
     sleepCtx = (\<lambda>d (w, l). let (e, w') = sleepCtx cl d w in (e, (w', l))),
     proto_Marshal = proto_Marshal cl, proto_Unmarshal = proto_Unmarshal cl\<rparr>"

definition traced_handler :: "'w doc_handler \<Rightarrow> ('w \<times> kevent list) doc_handler" where
  "traced_handler h ctx doc wl =
     (let ((e, doc'), w') = h ctx doc (fst wl) in ((e, doc'), (w', snd wl @ [EvHandle ctx doc (e = None)])))"

definition commits :: "kevent list \<Rightarrow> kgo_Record list" where
  "commits evs = concat (map (\<lambda>e. case e of EvCommit r \<Rightarrow> [r] | _ \<Rightarrow> []) evs)"

definition handled :: "kevent list \<Rightarrow> (go_ctx \<times> Document) list" where
  "handled evs = concat (map (\<lambda>e. case e of EvHandle c d ok \<Rightarrow> [(c, d)] | _ \<Rightarrow> []) evs)"

lemma events_append [simp]:
  "commits [] = []" "handled [] = []"
  "commits (xs @ ys) = commits xs @ commits ys" "handled (xs @ ys) = handled xs @ handled ys"
  "commits (EvHandle c d ok # xs) = commits xs" "commits (EvProduce r ok # xs) = commits xs"
  "commits (EvCommit r # xs) = r # commits xs"
  "handled (EvHandle c d ok # xs) = (c, d) # handled xs" "handled (EvProduce r ok # xs) = handled xs"
  "handled (EvCommit r # xs) = handled xs"
  by (simp_all add: commits_def handled_def)

text \<open>
  What the consumer may leave in the log for one record, which is \<open>finished\<close> or not. \<open>quarantine_log\<close>: one
  production of the record to the dead-letter topic and, if it succeeded, the commit; a record that came
  from that topic is committed only. \<open>attempts_log\<close>, with the number of attempts left: a delivery of the
  document, followed by the commit if the handler succeeded, and otherwise by nothing, if the context has
  ended, or by the attempts that are left, with the document as the handler left it. \<open>record_log\<close>: only a
  record with a usable tenant header and a readable document of that tenant is delivered, in the context
  of that tenant.
\<close>

definition quarantine_log :: "kgo_Record \<Rightarrow> bool \<Rightarrow> kevent list \<Rightarrow> bool" where
  "quarantine_log rec finished evs \<longleftrightarrow>
     (if kr_Topic rec = TopicDocsDeadletter then finished \<and> evs = [EvCommit rec]
      else \<exists>cause. evs = EvProduce (deadletter_record rec cause) finished # (if finished then [EvCommit rec] else []))"

fun attempts_log :: "'w doc_handler \<Rightarrow> kgo_Record \<Rightarrow> go_ctx \<Rightarrow> nat \<Rightarrow> Document \<Rightarrow> bool \<Rightarrow> kevent list \<Rightarrow> bool" where
  "attempts_log h rec hctx 0 doc finished evs = quarantine_log rec finished evs"
| "attempts_log h rec hctx (Suc n) doc finished evs \<longleftrightarrow>
     (\<exists>w e left w'. h hctx doc w = ((e, left), w') \<and>
        (if e = None then finished \<and> evs = [EvHandle hctx doc True, EvCommit rec]
         else \<exists>rest. evs = EvHandle hctx doc False # rest \<and>
                (\<not> finished \<and> rest = [] \<or> attempts_log h rec hctx n left finished rest)))"

definition accepted :: "'w kgo_client \<Rightarrow> kgo_Record \<Rightarrow> (tenancy_context \<times> Document) option" where
  "accepted cl rec =
     (case (tenantFromRecord rec, proto_Unmarshal cl (kr_Value rec)) of
        (Inr tc, Inr doc) \<Rightarrow> if d_TenantId doc = tenantID tc then Some (tc, doc) else None
      | _ \<Rightarrow> None)"

definition record_log :: "'w kgo_client \<Rightarrow> 'w doc_handler \<Rightarrow> go_ctx \<Rightarrow> kgo_Record \<Rightarrow> bool \<Rightarrow> kevent list \<Rightarrow> bool" where
  "record_log cl h ctx rec finished evs \<longleftrightarrow>
     (case accepted cl rec of
        None \<Rightarrow> quarantine_log rec finished evs
      | Some (tc, doc) \<Rightarrow> attempts_log h rec (WithContext ctx tc) 3 doc finished evs)"

text \<open>What such a log has in it.\<close>

lemma quarantine_log_events:
  "quarantine_log rec finished evs \<Longrightarrow> handled evs = [] \<and> commits evs = (if finished then [rec] else [])"
  by (auto simp: quarantine_log_def split: if_splits)

lemma attempts_log_events:
  "attempts_log h rec hctx n doc finished evs \<Longrightarrow> length (handled evs) \<le> n \<and> commits evs = (if finished then [rec] else [])"
proof (induction n arbitrary: doc evs)
  case 0
  then show ?case using quarantine_log_events [of rec finished evs] by simp
next
  case (Suc n)
  then obtain w e left w' where h: "h hctx doc w = ((e, left), w')"
    and log: "if e = None then finished \<and> evs = [EvHandle hctx doc True, EvCommit rec]
         else \<exists>rest. evs = EvHandle hctx doc False # rest \<and> (\<not> finished \<and> rest = [] \<or> attempts_log h rec hctx n left finished rest)"
    by (simp only: attempts_log.simps) blast
  show ?case using log Suc.IH [of left] by (cases e) auto
qed

lemma record_log_events:
  "record_log cl h ctx rec finished evs \<Longrightarrow> length (handled evs) \<le> 3 \<and> commits evs = (if finished then [rec] else [])"
  using quarantine_log_events [of rec finished evs] attempts_log_events [of h rec _ 3 _ finished evs]
  by (auto simp: record_log_def split: option.splits)

lemma attempts_log_delivers:
  assumes "\<And>c d w. d_TenantId (snd (fst (h c d w))) = d_TenantId d"
    and "attempts_log h rec hctx n doc finished evs" "(c, d) \<in> set (handled evs)"
  shows "c = hctx \<and> d_TenantId d = d_TenantId doc"
  using assms(2,3)
proof (induction n arbitrary: doc evs)
  case 0
  then show ?case using quarantine_log_events [of rec finished evs] by simp
next
  case (Suc n)
  then obtain w e left w' where h: "h hctx doc w = ((e, left), w')"
    and log: "if e = None then finished \<and> evs = [EvHandle hctx doc True, EvCommit rec]
         else \<exists>rest. evs = EvHandle hctx doc False # rest \<and> (\<not> finished \<and> rest = [] \<or> attempts_log h rec hctx n left finished rest)"
    by (simp only: attempts_log.simps) blast
  have "d_TenantId left = d_TenantId doc" using assms(1) [of hctx doc w] h by simp
  then show ?case using log Suc.prems(2) Suc.IH [of left] by (cases e) auto
qed

subsection \<open>One record\<close>

lemma commit_traced: "commit (traced cl) rec (w, l) = (commit cl rec w, l @ [EvCommit rec])"
  by (simp add: commit_def traced_def Let_def case_prod_beta)

lemma quarantine_traced:
  "\<exists>evs. snd (snd (quarantine (traced cl) rec cause (w, l))) = l @ evs \<and>
     quarantine_log rec (fst (quarantine (traced cl) rec cause (w, l)) = None) evs"
proof (cases "kr_Topic rec = TopicDocsDeadletter")
  case True
  then show ?thesis by (simp add: quarantine_def commit_traced quarantine_log_def)
next
  case False
  obtain e w' where p: "ProduceSync cl (deadletter_record rec cause) w = (e, w')" by fastforce
  then have t: "ProduceSync (traced cl) (deadletter_record rec cause) (w, l) =
      (e, (w', l @ [EvProduce (deadletter_record rec cause) (e = None)]))"
    by (simp add: traced_def)
  show ?thesis
    using False by (cases e) (auto simp: quarantine_def t commit_traced quarantine_log_def)
qed

text \<open>A retry may end in the wait before it, which leaves nothing in the log.\<close>

lemma attempts_traced:
  "\<exists>evs. snd (snd (attempts (traced cl) rec (traced_handler h) hctx n k doc e (w, l))) = l @ evs \<and>
     (attempts_log h rec hctx n doc (fst (attempts (traced cl) rec (traced_handler h) hctx n k doc e (w, l)) = None) evs \<or>
      k > 1 \<and> evs = [] \<and> fst (attempts (traced cl) rec (traced_handler h) hctx n k doc e (w, l)) \<noteq> None)"
proof (induction n arbitrary: k doc e w l)
  case 0
  obtain evs where "snd (snd (attempts (traced cl) rec (traced_handler h) hctx 0 k doc e (w, l))) = l @ evs"
      "quarantine_log rec (fst (attempts (traced cl) rec (traced_handler h) hctx 0 k doc e (w, l)) = None) evs"
    unfolding attempts.simps using quarantine_traced by metis
  then show ?case by (intro exI [of _ evs]) simp
next
  case (Suc n)
  let ?run = "attempts (traced cl) rec (traced_handler h) hctx (Suc n) k doc e (w, l)"
  obtain se w1 where sl: "(if k > 1 then sleepCtx cl (backoffFor (k - 2)) w else (None, w)) = (se, w1)" by fastforce
  then have slt: "(if k > 1 then sleepCtx (traced cl) (backoffFor (k - 2)) (w, l) else (None, (w, l))) = (se, (w1, l))"
    by (simp add: traced_def split: if_splits)
  obtain he doc' w2 where h: "h hctx doc w1 = ((he, doc'), w2)" by (metis prod.collapse)
  then have ht: "traced_handler h hctx doc (w1, l) = ((he, doc'), (w2, l @ [EvHandle hctx doc (he = None)]))"
    by (simp add: traced_handler_def)
  have ce: "ctx_Err (traced cl) (w2, l') = ctx_Err cl w2" for l' by (simp add: traced_def)
  note run = attempts.simps(2) [of "traced cl" rec "traced_handler h" hctx n k doc e "(w, l)", unfolded slt]
  have log: "attempts_log h rec hctx (Suc n) doc fin evs"
    if "if he = None then fin \<and> evs = [EvHandle hctx doc True, EvCommit rec]
        else \<exists>rest. evs = EvHandle hctx doc False # rest \<and> (\<not> fin \<and> rest = [] \<or> attempts_log h rec hctx n doc' fin rest)" for fin evs
    unfolding attempts_log.simps using h that by blast
  have by_log: ?case if "snd (snd ?run) = l @ evs" "attempts_log h rec hctx (Suc n) doc (fst ?run = None) evs" for evs
    using that by blast
  consider (slept) x where "se = Some x" | (ok) "se = None" "he = None" | (ended) x y where "se = None" "he = Some x" "ctx_Err cl w2 = Some y"
    | (again) x where "se = None" "he = Some x" "ctx_Err cl w2 = None"
    by (cases se; cases he; cases "ctx_Err cl w2") auto
  then show ?case
  proof cases
    case slept
    then have "k > 1" using sl by (auto split: if_splits)
    moreover have "?run = (Some x, (w1, l))" unfolding run by (simp only: slept prod.case option.case)
    ultimately show ?thesis by (intro exI [of _ "[]"]) (simp del: attempts.simps attempts_log.simps)
  next
    case ok
    have "?run = (None, (commit cl rec w2, l @ [EvHandle hctx doc True, EvCommit rec]))"
      unfolding run by (simp only: ok ht prod.case option.case commit_traced append.simps append_assoc simp_thms)
    then show ?thesis using by_log log ok by (simp del: attempts.simps attempts_log.simps)
  next
    case (ended x y)
    have "?run = (Some y, (w2, l @ [EvHandle hctx doc False]))"
      unfolding run by (simp only: ended ht ce prod.case option.case option.distinct)
    then show ?thesis using by_log log ended by (simp del: attempts.simps attempts_log.simps)
  next
    case (again x)
    let ?next = "attempts (traced cl) rec (traced_handler h) hctx n (Suc k) doc' x (w2, l @ [EvHandle hctx doc False])"
    obtain rest where rest: "snd (snd ?next) = (l @ [EvHandle hctx doc False]) @ rest"
        "attempts_log h rec hctx n doc' (fst ?next = None) rest \<or> rest = [] \<and> fst ?next \<noteq> None"
      using Suc.IH [of "Suc k" doc' x w2 "l @ [EvHandle hctx doc False]"] by (elim exE conjE) blast
    have "?run = ?next" unfolding run by (simp only: again ht ce prod.case option.case option.distinct)
    then show ?thesis
      using by_log [of "EvHandle hctx doc False # rest"] log [of "fst ?next = None" "EvHandle hctx doc False # rest"] again(2) rest
      by (simp del: attempts.simps attempts_log.simps) blast
  qed
qed

lemma processRecord_traced:
  "\<exists>evs. snd (snd (processRecord (traced cl) ctx rec (traced_handler h) (w, l))) = l @ evs \<and>
     record_log cl h ctx rec (fst (processRecord (traced cl) ctx rec (traced_handler h) (w, l)) = None) evs"
proof (cases "accepted cl rec")
  case (Some p)
  then obtain tc doc where p: "accepted cl rec = Some (tc, doc)" by (cases p) auto
  then have ok: "tenantFromRecord rec = Inr tc" "proto_Unmarshal (traced cl) (kr_Value rec) = Inr doc" "d_TenantId doc = tenantID tc"
    by (auto simp: accepted_def traced_def split: sum.splits if_splits)
  from attempts_traced [of cl rec h "WithContext ctx tc" 3 1 doc "[]" w l] ok p show ?thesis
    by (auto simp: processRecord_def maxHandlerAttempts_def record_log_def simp del: attempts_log.simps)
next
  case None
  then have "\<exists>cause. processRecord (traced cl) ctx rec (traced_handler h) (w, l) = quarantine (traced cl) rec cause (w, l)"
    unfolding processRecord_def traced_def accepted_def by (auto simp del: append.simps split: sum.splits if_splits)
  then obtain cause where "processRecord (traced cl) ctx rec (traced_handler h) (w, l) = quarantine (traced cl) rec cause (w, l)" ..
  then show ?thesis using quarantine_traced [of cl rec cause w l] None by (simp add: record_log_def)
qed

subsection \<open>One fetch\<close>

text \<open>The log of a fetch is the logs of its records one after the other, all but possibly the last one
  finished.\<close>

definition fetch_log ::
  "'w kgo_client \<Rightarrow> 'w doc_handler \<Rightarrow> go_ctx \<Rightarrow> kgo_Record list \<Rightarrow> bool \<Rightarrow> kevent list list \<Rightarrow> bool" where
  "fetch_log cl h ctx recs finished logs \<longleftrightarrow>
     length logs \<le> length recs \<and> (finished \<longrightarrow> length logs = length recs) \<and> (\<not> finished \<longrightarrow> logs \<noteq> []) \<and>
     (\<forall>i < length logs. record_log cl h ctx (recs ! i) (finished \<or> Suc i < length logs) (logs ! i))"

lemma fetch_log_stop: "record_log cl h ctx rec False evs \<Longrightarrow> fetch_log cl h ctx (rec # recs) False [evs]"
  by (simp add: fetch_log_def)

lemma fetch_log_Cons:
  assumes "record_log cl h ctx rec True evs" "fetch_log cl h ctx recs finished logs"
  shows "fetch_log cl h ctx (rec # recs) finished (evs # logs)"
proof -
  have "record_log cl h ctx ((rec # recs) ! i) (finished \<or> Suc i < length (evs # logs)) ((evs # logs) ! i)"
    if "i < length (evs # logs)" for i
    using that assms by (cases i; cases logs) (auto simp: fetch_log_def)
  then show ?thesis using assms(2) by (simp add: fetch_log_def)
qed

lemma fetch_traced:
  "\<exists>logs. snd (snd (process_fetch (traced cl) ctx recs (traced_handler h) (w, l))) = l @ concat logs \<and>
     fetch_log cl h ctx recs (fst (process_fetch (traced cl) ctx recs (traced_handler h) (w, l)) = None) logs"
proof (induction recs arbitrary: w l)
  case Nil
  then show ?case by (simp add: fetch_log_def)
next
  case (Cons rec recs)
  obtain r w1 l1 where run: "processRecord (traced cl) ctx rec (traced_handler h) (w, l) = (r, (w1, l1))" by (rule prod_cases3)
  obtain evs where one: "l1 = l @ evs" "record_log cl h ctx rec (r = None) evs"
    using processRecord_traced [of cl ctx rec h w l] unfolding run by auto
  show ?case
  proof (cases r)
    case None
    obtain logs where "snd (snd (process_fetch (traced cl) ctx recs (traced_handler h) (w1, l1))) = l1 @ concat logs"
        "fetch_log cl h ctx recs (fst (process_fetch (traced cl) ctx recs (traced_handler h) (w1, l1)) = None) logs"
      using Cons.IH by blast
    then show ?thesis using fetch_log_Cons one run None by (intro exI [of _ "evs # logs"]) simp
  next
    case (Some e)
    then show ?thesis using fetch_log_stop one run by (intro exI [of _ "[evs]"]) simp
  qed
qed

lemma commits_concat: "commits (concat logs) = concat (map commits logs)"
  by (induction logs) simp_all

lemma handled_concat: "handled (concat logs) = concat (map handled logs)"
  by (induction logs) simp_all

lemma attempts_log_produces:
  "attempts_log h rec hctx n doc finished evs \<Longrightarrow> EvProduce q ok \<in> set evs \<Longrightarrow> \<exists>cause. q = deadletter_record rec cause"
proof (induction n arbitrary: doc evs)
  case 0
  then show ?case by (auto simp: quarantine_log_def split: if_splits)
next
  case (Suc n)
  then show ?case by (auto split: if_splits)
qed

lemma record_log_produces:
  "record_log cl h ctx rec finished evs \<Longrightarrow> EvProduce q ok \<in> set evs \<Longrightarrow> \<exists>cause. q = deadletter_record rec cause"
  using attempts_log_produces [of h rec _ 3 _ finished evs q ok]
  by (auto simp: record_log_def quarantine_log_def split: option.splits if_splits)

subsection \<open>Tenancy across the queue\<close>

lemma tenant_header_append: "tenant_header (hs @ hs') = (if \<exists>v. (HeaderTenantID, v) \<in> set hs then tenant_header hs else tenant_header hs')"
  by (induction hs) auto

lemma deadletter_tenant: "tenantFromRecord (deadletter_record rec cause) = tenantFromRecord rec"
proof -
  have "tenant_header hs = Inl ErrNoTenant" if "\<not> (\<exists>v. (HeaderTenantID, v) \<in> set hs)" for hs
    using that by (induction hs) auto
  then show ?thesis
    by (auto simp: tenantFromRecord_def deadletter_record_def tenant_header_append HeaderTenantID_def HeaderError_def
        HeaderOriginTopic_def)
qed

lemma tenantFromRecord_valid: "tenantFromRecord rec = Inr tc \<Longrightarrow> validTenant (tenantID tc)"
proof -
  have "validTenant (tenantID tc)" if "tenant_header hs = Inr tc" for hs
    using that by (induction hs) (auto split: if_splits)
  then show "tenantFromRecord rec = Inr tc \<Longrightarrow> ?thesis" by (simp add: tenantFromRecord_def)
qed

lemma produce_ok:
  assumes "ProduceDocument cl ctx topic (Some doc) w = (None, w')"
  shows "\<exists>tc value. FromContext ctx = Inr tc \<and> tenantID tc = d_TenantId doc \<and> proto_Marshal cl doc = Inr value \<and>
    ProduceSync cl (document_record topic doc value) w = (None, w') \<and> topic \<noteq> []"
  using assms by (auto simp: ProduceDocument_def Let_def split: if_splits sum.splits prod.splits option.splits)

text \<open>What the witnesses run on: a broker that counts its calls and drops the second record's delivery.\<close>

definition sample_record :: "string \<Rightarrow> string \<Rightarrow> kgo_Record" where
  "sample_record t v = \<lparr>kr_Topic = ''docs.raw'', kr_Partition = 0, kr_Offset = 7, kr_Key = t, kr_Value = v,
     kr_Headers = [(''tenant_id'', t)]\<rparr>"

definition sample_client :: "nat kgo_client" where
  "sample_client = \<lparr>ProduceSync = (\<lambda>r n. (None, Suc n)), CommitRecords = (\<lambda>r n. (None, n)),
     PollFetches = (\<lambda>n. (ClientClosed, n)), ctx_Err = (\<lambda>n. None), sleepCtx = (\<lambda>d n. (None, n)),
     proto_Marshal = (\<lambda>d. Inr (d_TenantId d)), proto_Unmarshal = (\<lambda>v. Inr (zero_document\<lparr>d_TenantId := v\<rparr>))\<rparr>"

definition sample_ctx :: go_ctx where
  "sample_ctx = \<lparr>cx_tenant = None, cx_incoming = None, cx_outgoing = []\<rparr>"

definition sample_handler :: "nat doc_handler" where
  "sample_handler ctx doc n = ((if d_TenantId doc = ''b'' then Some ''no'' else None, doc), n)"

lemma sample_tenants: "validTenant ''a''" "validTenant ''b''"
  by (simp_all add: validTenant_def tenantPattern_def tenant_char_def is_alnum_def less_eq_char_def)

section \<open>Properties\<close>

text \<open>
  C5: delivery is at least once and in order. Whatever the broker, the clock and the handler do, the log of
  a fetch is made of one part per record, in the order of the fetch and without a part left out. Each part
  is one that \<open>record_log\<close> allows: the record's own document is handed to the handler at most three times,
  in the context of its tenant; the record is committed right after a success of that handling, or after
  it was written to the dead-letter topic, because it was not fit for delivery or all three attempts
  failed; a record from the dead-letter topic is then committed without being written again. A record
  that is neither handled nor quarantined is not committed and ends the fetch with an error; without an
  error, every record of the fetch is committed.
\<close>

theorem delivery_contract:
  assumes "process_fetch (traced cl) ctx recs (traced_handler h) (w, []) = (r, (w', evs))"
  shows "\<exists>logs. evs = concat logs \<and> length logs \<le> length recs \<and> (if r = None then length logs = length recs else logs \<noteq> []) \<and>
    (\<forall>i < length logs. let finished = (r = None \<or> Suc i < length logs) in
       record_log cl h ctx (recs ! i) finished (logs ! i) \<and> length (handled (logs ! i)) \<le> 3 \<and>
       commits (logs ! i) = (if finished then [recs ! i] else []))"
proof -
  obtain logs where "evs = concat logs" "fetch_log cl h ctx recs (r = None) logs"
    using fetch_traced [of cl ctx recs h w "[]"] unfolding assms by auto
  moreover from this(2) have "length (handled (logs ! i)) \<le> 3 \<and> commits (logs ! i) = (if r = None \<or> Suc i < length logs then [recs ! i] else [])"
    if "i < length logs" for i
    using that record_log_events unfolding fetch_log_def by blast
  ultimately show ?thesis unfolding fetch_log_def Let_def by (intro exI [of _ logs]) simp
qed

theorem delivery_contract_witness:
  "\<exists>r w' evs logs. process_fetch (traced sample_client) sample_ctx [sample_record ''a'' ''a'', sample_record ''b'' ''b'']
      (traced_handler sample_handler) (0, []) = (r, (w', evs)) \<and> w' = 1 \<and> evs = concat logs \<and> length logs = 2 \<and>
      commits (logs ! 1) = [sample_record ''b'' ''b''] \<and> length (handled evs) = 4"
proof -
  define recs where "recs = [sample_record ''a'' ''a'', sample_record ''b'' ''b'']"
  obtain r w' evs where run: "process_fetch (traced sample_client) sample_ctx recs (traced_handler sample_handler) (0, []) = (r, (w', evs))"
    by (rule prod_cases3)
  have "r = None \<and> w' = 1 \<and> length (handled evs) = 4"
    using run sample_tenants unfolding recs_def
    by (simp add: processRecord_def tenantFromRecord_def sample_record_def sample_client_def traced_def traced_handler_def
        sample_handler_def HeaderTenantID_def FromHeaderValue_def maxHandlerAttempts_def numeral_3_eq_3 quarantine_def
        commit_def TopicDocsDeadletter_def) auto
  then have out: "r = None" "w' = 1" "length (handled evs) = 4" by simp_all
  obtain logs where logs: "evs = concat logs" "length logs = length recs" "\<forall>i < length logs. commits (logs ! i) = [recs ! i]"
    using delivery_contract [OF run] unfolding out(1) Let_def by (elim exE conjE) simp
  have "length logs = 2" using logs(2) by (simp add: recs_def)
  moreover have "commits (logs ! 1) = [sample_record ''b'' ''b'']" using logs(3) \<open>length logs = 2\<close> by (simp add: recs_def)
  ultimately show ?thesis unfolding recs_def [symmetric] using run out logs(1) by blast
qed



text \<open>
  C31: a tenant's document arrives as it was sent, under the same tenant. If the producer accepts a
  document, the record it hands to the broker carries the tenant of the producer's context as key and
  header, and a consumer that decodes what was encoded hands that document to its handler in the
  context of that tenant.
\<close>

theorem queue_roundtrip:
  assumes "ProduceDocument cl ctx topic (Some doc) w = (None, w')" "validTenant (d_TenantId doc)"
    and "\<And>value. proto_Marshal cl doc = Inr value \<Longrightarrow> proto_Unmarshal cl value = Inr doc"
  shows "\<exists>rec tc. ProduceSync cl rec w = (None, w') \<and> FromContext ctx = Inr tc \<and> kr_Topic rec = topic \<and>
    kr_Key rec = tenantID tc \<and> tenantID tc = d_TenantId doc \<and>
    (\<forall>ctx' h v. processRecord cl ctx' rec h v =
       attempts cl rec h (WithContext ctx' \<lparr>tenantID = tenantID tc, subject = tenantID tc\<rparr>) maxHandlerAttempts 1 doc [] v)"
proof -
  from produce_ok [OF assms(1)] obtain tc val where ok: "FromContext ctx = Inr tc" "tenantID tc = d_TenantId doc"
      "proto_Marshal cl doc = Inr val" "ProduceSync cl (document_record topic doc val) w = (None, w')" by blast
  let ?rec = "document_record topic doc val"
  have "tenantFromRecord ?rec = Inr \<lparr>tenantID = d_TenantId doc, subject = d_TenantId doc\<rparr>"
    using assms(2) by (simp add: tenantFromRecord_def document_record_def HeaderTenantID_def)
  then have "processRecord cl ctx' ?rec h v =
      attempts cl ?rec h (WithContext ctx' \<lparr>tenantID = tenantID tc, subject = tenantID tc\<rparr>) maxHandlerAttempts 1 doc [] v" for ctx' h v
    using assms(3) [OF ok(3)] ok(2) by (simp add: processRecord_def document_record_def)
  then show ?thesis using ok by (intro exI [of _ ?rec] exI [of _ tc]) (simp add: document_record_def)
qed

theorem queue_roundtrip_witness:
  "\<exists>rec. ProduceSync sample_client rec 0 = (None, 1) \<and> kr_Key rec = ''a'' \<and>
    processRecord sample_client sample_ctx rec sample_handler 5 =
       attempts sample_client rec sample_handler (WithContext sample_ctx \<lparr>tenantID = ''a'', subject = ''a''\<rparr>) maxHandlerAttempts 1
         (zero_document\<lparr>d_TenantId := ''a''\<rparr>) [] 5"
proof -
  let ?doc = "zero_document\<lparr>d_TenantId := ''a''\<rparr>"
  let ?ctx = "sample_ctx\<lparr>cx_tenant := Some \<lparr>tenantID = ''a'', subject = ''u''\<rparr>\<rparr>"
  have "ProduceDocument sample_client ?ctx ''docs.raw'' (Some ?doc) 0 = (None, 1)"
    by (simp add: ProduceDocument_def FromContext_def sample_client_def)
  moreover have "validTenant (d_TenantId ?doc)" using sample_tenants(1) by simp
  moreover have "proto_Unmarshal sample_client v = Inr ?doc" if "proto_Marshal sample_client ?doc = Inr v" for v
    using that by (simp add: sample_client_def)
  ultimately have "\<exists>rec tc. ProduceSync sample_client rec 0 = (None, 1) \<and> FromContext ?ctx = Inr tc \<and> kr_Topic rec = ''docs.raw'' \<and>
    kr_Key rec = tenantID tc \<and> tenantID tc = d_TenantId ?doc \<and>
    (\<forall>ctx' h v. processRecord sample_client ctx' rec h v =
       attempts sample_client rec h (WithContext ctx' \<lparr>tenantID = tenantID tc, subject = tenantID tc\<rparr>) maxHandlerAttempts 1 ?doc [] v)"
    by (rule queue_roundtrip)
  then obtain rec and tc :: tenancy_context where r: "ProduceSync sample_client rec 0 = (None, 1)" "kr_Key rec = tenantID tc" "tenantID tc = d_TenantId ?doc"
      "\<forall>ctx' h v. processRecord sample_client ctx' rec h v =
       attempts sample_client rec h (WithContext ctx' \<lparr>tenantID = tenantID tc, subject = tenantID tc\<rparr>) maxHandlerAttempts 1 ?doc [] v"
    by blast
  have t: "tenantID tc = ''a''" using r(3) by simp
  from r(1,2,4) show ?thesis unfolding t by (intro exI [of _ rec]) simp
qed

end
