(* ===== verification/Ingest_Handler.thy ===== *)
theory Ingest_Handler
  imports Ingest_Normalize Kafka
begin

text \<open>
  The handler of the ingest stage (\<open>services/ingest/handler.go\<close>, \<open>redis.go\<close>): \<open>docs.raw\<close> to
  \<open>docs.chunked\<close> with normalization, deduplication and chunking. Its producer and its dedupe store are
  the fields of a record of operations on a world \<open>'w\<close>; the contract they keep is a locale, which the
  last part interprets on \<open>kafkautil\<close>'s producer and the Redis store over one log and one key space,
  with every call allowed to fail.
\<close>

section \<open>The model\<close>

definition seenKeyPrefix :: string where
  "seenKeyPrefix = ''ingest:seen:''"

text \<open>In nanoseconds.\<close>

definition seenTTL :: int where
  "seenTTL = 48 * 3600 * 1000000000"

text \<open>The interfaces \<open>docProducer\<close> and \<open>seenStore\<close> of a handler.\<close>

record 'w ingest_handler =
  h_ProduceDocument :: "go_ctx \<Rightarrow> string \<Rightarrow> Document option \<Rightarrow> 'w \<Rightarrow> string option \<times> 'w"
  h_Seen :: "string \<Rightarrow> 'w \<Rightarrow> (string + bool) \<times> 'w"
  h_MarkSeen :: "string \<Rightarrow> int \<Rightarrow> 'w \<Rightarrow> string option \<times> 'w"

definition isMediaDoc :: "Document \<Rightarrow> bool" where
  "isMediaDoc doc =
     (if d_Type doc = IMAGE \<or> d_Type doc = VIDEO \<or> d_Type doc = AUDIO then True
      else let ct = get_ContentType doc
           in HasPrefix ct ''image/'' \<or> HasPrefix ct ''audio/'' \<or> HasPrefix ct ''video/'')"

definition dedupe_key :: "Document \<Rightarrow> string" where
  "dedupe_key doc = seenKeyPrefix @ d_DocId doc @ '':'' @ d_VersionEtag doc"

definition route_chunks :: "Document \<Rightarrow> Document" where
  "route_chunks doc = (if isMediaDoc doc then doc else doc\<lparr>d_Chunks := fst (buildChunks doc)\<rparr>)"

definition Handle :: "'w ingest_handler \<Rightarrow> 'w doc_handler" where
  "Handle h ctx doc w =
     (if get_Deleted doc then
        (case h_ProduceDocument h ctx TopicDocsChunked (Some doc) w of
           (Some e, w1) \<Rightarrow> ((Some (''produce tombstone '' @ d_DocId doc @ '': '' @ e), doc), w1)
         | (None, w1) \<Rightarrow> ((None, doc), w1))
      else
        let doc = normalizeDocument doc; key = dedupe_key doc in
        case h_Seen h key w of
          (Inr True, w1) \<Rightarrow> ((None, doc), w1)
        | (_, w1) \<Rightarrow>
            let doc = route_chunks doc in
            (case h_ProduceDocument h ctx TopicDocsChunked (Some doc) w1 of
               (Some e, w2) \<Rightarrow> ((Some (''produce chunked '' @ d_DocId doc @ '': '' @ e), doc), w2)
             | (None, w2) \<Rightarrow> ((None, doc), snd (h_MarkSeen h key seenTTL w2))))"

subsection \<open>The Redis store\<close>

text \<open>The two commands used of the Redis client: \<open>EXISTS\<close> and \<open>SET\<close> with an expiry.\<close>

record 'w redis_client =
  redis_Exists :: "string \<Rightarrow> 'w \<Rightarrow> (string + int) \<times> 'w"
  redis_Set :: "string \<Rightarrow> string \<Rightarrow> int \<Rightarrow> 'w \<Rightarrow> string option \<times> 'w"

definition redisSeen_Seen :: "'w redis_client \<Rightarrow> string \<Rightarrow> 'w \<Rightarrow> (string + bool) \<times> 'w" where
  "redisSeen_Seen r key w =
     (case redis_Exists r key w of
        (Inl e, w') \<Rightarrow> (Inl (''redis exists: '' @ e), w')
      | (Inr n, w') \<Rightarrow> (Inr (n > 0), w'))"

definition redisSeen_MarkSeen :: "'w redis_client \<Rightarrow> string \<Rightarrow> int \<Rightarrow> 'w \<Rightarrow> string option \<times> 'w" where
  "redisSeen_MarkSeen r key ttl w =
     (case redis_Set r key ''1'' ttl w of
        (Some e, w') \<Rightarrow> (Some (''redis set: '' @ e), w')
      | (None, w') \<Rightarrow> (None, w'))"

definition newHandler :: "'w kgo_client \<Rightarrow> 'w redis_client \<Rightarrow> 'w ingest_handler" where
  "newHandler cl r = \<lparr>h_ProduceDocument = ProduceDocument cl, h_Seen = redisSeen_Seen r, h_MarkSeen = redisSeen_MarkSeen r\<rparr>"

section \<open>Facts on documents\<close>

text \<open>What makes two documents the same version for the pipeline.\<close>

definition version_of :: "Document \<Rightarrow> string \<times> string \<times> string" where
  "version_of d = (d_TenantId d, d_DocId d, d_VersionEtag d)"

lemma route_chunks_version [simp]: "version_of (route_chunks d) = version_of d" "dedupe_key (route_chunks d) = dedupe_key d"
  "d_TenantId (route_chunks d) = d_TenantId d" "d_DocId (route_chunks d) = d_DocId d"
  by (simp_all add: route_chunks_def version_of_def dedupe_key_def)

lemma get_Deleted_stable [simp]: "get_Deleted (normalizeDocument d) = get_Deleted d" "get_Deleted (route_chunks d) = get_Deleted d"
  by (simp_all add: get_Deleted_def normalizeDocument_fields route_chunks_def)

lemma normalizeDocument_chunks: "normalizeDocument (d\<lparr>d_Chunks := c\<rparr>) = (normalizeDocument d)\<lparr>d_Chunks := c\<rparr>"
  by (simp add: normalizeDocument_def Let_def)

lemma version_normal: "version_of (normalizeDocument (route_chunks (normalizeDocument d))) = version_of (normalizeDocument d)"
  by (simp add: route_chunks_def normalizeDocument_chunks normalizeDocument_idem) (simp add: version_of_def)

lemma dedupe_key_inj:
  assumes "dedupe_key a = dedupe_key b" "CHR '':'' \<notin> set (d_DocId a)" "CHR '':'' \<notin> set (d_DocId b)"
  shows "d_DocId a = d_DocId b \<and> d_VersionEtag a = d_VersionEtag b"
  using assms sep_append_inj [OF assms(2,3), of "d_VersionEtag a" "d_VersionEtag b"] by (simp add: dedupe_key_def)

text \<open>The version under which the stage files a document.\<close>

definition filed_version :: "Document \<Rightarrow> string \<times> string \<times> string" where
  "filed_version d = (if get_Deleted d then version_of d else version_of (normalizeDocument d))"

text \<open>Identifiers as the connectors make them: without a colon, and each belonging to one tenant.\<close>

definition identified :: "(string \<Rightarrow> string) \<Rightarrow> Document \<Rightarrow> bool" where
  "identified owner d \<longleftrightarrow> CHR '':'' \<notin> set (d_DocId d) \<and> d_TenantId d = owner (d_DocId d)"

lemma identified_stable [simp]:
  "identified owner (normalizeDocument d) = identified owner d" "identified owner (route_chunks d) = identified owner d"
  by (simp_all add: identified_def normalizeDocument_fields)

lemma same_version:
  assumes "dedupe_key a = dedupe_key b" "identified owner a" "identified owner b"
  shows "version_of a = version_of b"
  using dedupe_key_inj [OF assms(1)] assms(2,3) by (auto simp: identified_def version_of_def)

section \<open>The contract of the handler's dependencies\<close>

text \<open>\<open>keys\<close> are the recorded dedupe keys, \<open>chunked\<close> the documents that reached \<open>docs.chunked\<close>. A key may
  expire at any time, and a call that reports an error may have taken effect or not.\<close>

locale dedupe_pipeline =
  fixes h :: "'w ingest_handler" and keys :: "'w \<Rightarrow> string set" and chunked :: "'w \<Rightarrow> Document set"
  assumes seen_law: "h_Seen h k w = (r, w') \<Longrightarrow> keys w' \<subseteq> keys w \<and> chunked w' = chunked w \<and> (r = Inr True \<longrightarrow> k \<in> keys w)"
    and mark_law: "h_MarkSeen h k ttl w = (e, w') \<Longrightarrow> keys w' \<subseteq> insert k (keys w) \<and> chunked w' = chunked w"
    and produce_law: "h_ProduceDocument h ctx TopicDocsChunked (Some d) w = (e, w') \<Longrightarrow>
      keys w' \<subseteq> keys w \<and> chunked w \<subseteq> chunked w' \<and> (\<forall>x \<in> chunked w'. x \<in> chunked w \<or> version_of x = version_of d) \<and>
      (e = None \<longrightarrow> d \<in> chunked w')"
begin

text \<open>Every recorded key is the key of a document on \<open>docs.chunked\<close>, and those documents are identified.\<close>

definition accounted :: "(string \<Rightarrow> string) \<Rightarrow> 'w \<Rightarrow> bool" where
  "accounted owner w \<longleftrightarrow> keys w \<subseteq> dedupe_key ` chunked w \<and> (\<forall>d \<in> chunked w. identified owner d)"

lemma accounted_mono:
  assumes "accounted owner w" "keys w' \<subseteq> keys w" "chunked w \<subseteq> chunked w'" "identified owner d"
    "\<forall>x \<in> chunked w'. x \<in> chunked w \<or> version_of x = version_of d"
  shows "accounted owner w'"
proof -
  have "identified owner x" if "version_of x = version_of d" for x
    using that assms(4) by (simp add: identified_def version_of_def)
  then show ?thesis using assms unfolding accounted_def by blast
qed

lemma accounted_read: "accounted owner w \<Longrightarrow> keys w' \<subseteq> keys w \<Longrightarrow> chunked w' = chunked w \<Longrightarrow> accounted owner w'"
  unfolding accounted_def by blast

lemma produce_accounted:
  "accounted owner w \<Longrightarrow> identified owner d \<Longrightarrow> h_ProduceDocument h ctx TopicDocsChunked (Some d) w = (e, w') \<Longrightarrow>
   accounted owner w' \<and> chunked w \<subseteq> chunked w' \<and> (e = None \<longrightarrow> d \<in> chunked w')"
  using produce_law [of ctx d w e w'] accounted_mono [of owner w w' d] by blast

lemma mark_accounted:
  "accounted owner w \<Longrightarrow> d \<in> chunked w \<Longrightarrow> h_MarkSeen h (dedupe_key d) ttl w = (e, w') \<Longrightarrow>
   accounted owner w' \<and> chunked w' = chunked w"
  using mark_law [of "dedupe_key d" ttl w e w'] unfolding accounted_def by blast

text \<open>What one call of the handler leaves behind.\<close>

definition handled_ok :: "(string \<Rightarrow> string) \<Rightarrow> Document \<Rightarrow> 'w \<Rightarrow> (string option \<times> Document) \<times> 'w \<Rightarrow> bool" where
  "handled_ok owner doc w res \<longleftrightarrow>
     (let ((e, doc'), w') = res in
      accounted owner w' \<and> chunked w \<subseteq> chunked w' \<and> filed_version doc' = filed_version doc \<and> identified owner doc' \<and>
      (e = None \<longrightarrow> filed_version doc \<in> version_of ` chunked w'))"

lemma Handle_tombstone:
  assumes "accounted owner w" "identified owner doc" "get_Deleted doc"
  shows "handled_ok owner doc w (Handle h ctx doc w)"
proof -
  obtain e w1 where p: "h_ProduceDocument h ctx TopicDocsChunked (Some doc) w = (e, w1)" by fastforce
  show ?thesis using produce_accounted [OF assms(1,2) p] assms
    by (cases e) (auto simp: Handle_def p handled_ok_def filed_version_def)
qed

lemma Handle_fresh:
  assumes inv: "accounted owner w1" and id: "identified owner doc" and live: "\<not> get_Deleted doc"
    and s: "h_Seen h (dedupe_key (normalizeDocument doc)) w = (sr, w1)" "sr \<noteq> Inr True" "chunked w1 = chunked w"
  shows "handled_ok owner doc w (Handle h ctx doc w)"
proof -
  let ?r = "route_chunks (normalizeDocument doc)"
  have fv: "filed_version doc = version_of ?r" "filed_version ?r = version_of ?r"
    using live by (simp_all add: filed_version_def version_normal)
  have idr: "identified owner ?r" using id by simp
  obtain pe w2 where p: "h_ProduceDocument h ctx TopicDocsChunked (Some ?r) w1 = (pe, w2)" by fastforce
  have run: "Handle h ctx doc w = (case pe of
      Some x \<Rightarrow> ((Some (''produce chunked '' @ d_DocId ?r @ '': '' @ x), ?r), w2)
    | None \<Rightarrow> ((None, ?r), snd (h_MarkSeen h (dedupe_key ?r) seenTTL w2)))"
    using live s p by (auto simp: Handle_def Let_def split: sum.split bool.split option.split)
  note pa = produce_accounted [OF inv idr p]
  show ?thesis
  proof (cases pe)
    case (Some x)
    then show ?thesis using pa fv idr s(3) by (simp add: run handled_ok_def)
  next
    case None
    obtain me w3 where m: "h_MarkSeen h (dedupe_key ?r) seenTTL w2 = (me, w3)" by fastforce
    then have w3: "snd (h_MarkSeen h (dedupe_key ?r) seenTTL w2) = w3" by simp
    have "accounted owner w3 \<and> chunked w3 = chunked w2" using mark_accounted [OF _ _ m] pa None by blast
    moreover have "version_of (normalizeDocument doc) \<in> version_of ` chunked w2"
      using pa None imageI [of ?r "chunked w2" version_of] by simp
    ultimately show ?thesis unfolding run w3 using None pa fv idr s(3) by (simp add: handled_ok_def)
  qed
qed

lemma Handle_accounted:
  assumes inv: "accounted owner w" and id: "identified owner doc"
  shows "handled_ok owner doc w (Handle h ctx doc w)"
proof (cases "get_Deleted doc")
  case False
  let ?n = "normalizeDocument doc"
  obtain sr w1 where s: "h_Seen h (dedupe_key ?n) w = (sr, w1)" by fastforce
  note sl = seen_law [OF s]
  have inv1: "accounted owner w1" using accounted_read [OF inv] sl by blast
  show ?thesis
  proof (cases "sr = Inr True")
    case True
    then have run: "Handle h ctx doc w = ((None, ?n), w1)" using s False by (simp add: Handle_def Let_def)
    obtain d where d: "d \<in> chunked w" "dedupe_key ?n = dedupe_key d" "identified owner d"
      using inv sl True unfolding accounted_def by blast
    have "version_of ?n = version_of d" using same_version [OF d(2) _ d(3)] id by simp
    then show ?thesis using d(1) inv1 id sl False
      by (auto simp: run handled_ok_def filed_version_def normalizeDocument_idem)
  qed (use Handle_fresh [OF inv1 id False s] sl in blast)
qed (use Handle_tombstone assms in blast)

end

subsection \<open>Under the consumer\<close>

text \<open>The client that runs the stage: \<open>sent\<close> are the records on the broker, \<open>committed\<close> those whose offset
  is committed. Nothing it does without the handler touches keys or \<open>docs.chunked\<close>.\<close>

locale ingest_stage = dedupe_pipeline h keys chunked
  for h :: "'w ingest_handler" and keys :: "'w \<Rightarrow> string set" and chunked :: "'w \<Rightarrow> Document set" +
  fixes cl :: "'w kgo_client" and sent :: "'w \<Rightarrow> kgo_Record set" and committed :: "'w \<Rightarrow> kgo_Record set"
  assumes deadletter_law: "kr_Topic r = TopicDocsDeadletter \<Longrightarrow> ProduceSync cl r w = (e, w') \<Longrightarrow>
      keys w' = keys w \<and> chunked w' = chunked w \<and> committed w' = committed w \<and> sent w \<subseteq> sent w' \<and> (e = None \<longrightarrow> r \<in> sent w')"
    and commit_law: "CommitRecords cl r w = (e, w') \<Longrightarrow>
      keys w' = keys w \<and> chunked w' = chunked w \<and> committed w' \<subseteq> insert r (committed w) \<and> sent w' = sent w"
    and sleep_law: "sleepCtx cl d w = (e, w') \<Longrightarrow>
      keys w' = keys w \<and> chunked w' = chunked w \<and> committed w' = committed w \<and> sent w' = sent w"
    and handler_law: "Handle h ctx doc w = (res, w') \<Longrightarrow> committed w' = committed w \<and> sent w \<subseteq> sent w'"
begin

text \<open>A record is settled if it is quarantined, or its document is on \<open>docs.chunked\<close> in that version.\<close>

definition record_settled :: "'w \<Rightarrow> kgo_Record \<Rightarrow> bool" where
  "record_settled w rec \<longleftrightarrow> kr_Topic rec = TopicDocsDeadletter \<or> (\<exists>cause. deadletter_record rec cause \<in> sent w) \<or>
     (\<exists>doc. proto_Unmarshal cl (kr_Value rec) = Inr doc \<and> filed_version doc \<in> version_of ` chunked w)"

definition stage_ok :: "(string \<Rightarrow> string) \<Rightarrow> 'w \<Rightarrow> bool" where
  "stage_ok owner w \<longleftrightarrow> accounted owner w \<and> (\<forall>rec \<in> committed w. record_settled w rec)"

lemma record_settled_mono:
  "record_settled w rec \<Longrightarrow> chunked w \<subseteq> chunked w' \<Longrightarrow> sent w \<subseteq> sent w' \<Longrightarrow> record_settled w' rec"
  unfolding record_settled_def by blast

lemma stage_ok_keep:
  assumes "stage_ok owner w" "accounted owner w'" "chunked w \<subseteq> chunked w'" "sent w \<subseteq> sent w'" "committed w' \<subseteq> committed w"
  shows "stage_ok owner w'"
  using assms record_settled_mono [OF _ assms(3,4)] unfolding stage_ok_def by blast

lemma commit_ok: "stage_ok owner w \<Longrightarrow> record_settled w rec \<Longrightarrow> stage_ok owner (commit cl rec w)"
proof -
  assume ok: "stage_ok owner w" "record_settled w rec"
  obtain e w' where c: "CommitRecords cl rec w = (e, w')" by fastforce
  note cw = commit_law [OF c]
  have "record_settled w' rec" using ok(2) cw unfolding record_settled_def by simp
  moreover have "accounted owner w'" using ok(1) cw accounted_read [of owner w w'] unfolding stage_ok_def by blast
  moreover have "record_settled w' r" if "r \<in> committed w" for r
    using record_settled_mono [of w r w'] that ok(1) cw unfolding stage_ok_def by blast
  ultimately have "stage_ok owner w'" using cw unfolding stage_ok_def by blast
  then show ?thesis using c by (simp add: commit_def)
qed

lemma quarantine_ok: "stage_ok owner w \<Longrightarrow> stage_ok owner (snd (quarantine cl rec cause w))"
proof (cases "kr_Topic rec = TopicDocsDeadletter")
  case True
  then show "stage_ok owner w \<Longrightarrow> ?thesis" by (simp add: quarantine_def commit_ok record_settled_def)
next
  case False
  assume ok: "stage_ok owner w"
  obtain e w' where p: "ProduceSync cl (deadletter_record rec cause) w = (e, w')" by fastforce
  have pw: "keys w' = keys w \<and> chunked w' = chunked w \<and> committed w' = committed w \<and> sent w \<subseteq> sent w' \<and>
      (e = None \<longrightarrow> deadletter_record rec cause \<in> sent w')"
    by (rule deadletter_law [OF _ p]) (simp add: deadletter_record_def)
  have "accounted owner w'" using ok pw accounted_read [of owner w w'] unfolding stage_ok_def by blast
  then have ok': "stage_ok owner w'" using stage_ok_keep [OF ok, of w'] pw by blast
  show ?thesis
  proof (cases e)
    case None
    then have "record_settled w' rec" using pw unfolding record_settled_def by blast
    then show ?thesis using False None p commit_ok [OF ok'] by (simp add: quarantine_def)
  qed (use False p ok' in \<open>simp add: quarantine_def\<close>)
qed

lemma handle_ok:
  assumes ok: "stage_ok owner w" and id: "identified owner doc" and run: "Handle h ctx doc w = ((e, doc'), w')"
  shows "stage_ok owner w' \<and> filed_version doc' = filed_version doc \<and> identified owner doc' \<and>
    (e = None \<longrightarrow> filed_version doc \<in> version_of ` chunked w')"
proof -
  have hk: "handled_ok owner doc w ((e, doc'), w')" using Handle_accounted [OF _ id, of w ctx] ok run unfolding stage_ok_def by metis
  then have "stage_ok owner w'" using stage_ok_keep [OF ok, of w'] handler_law [OF run] unfolding handled_ok_def by simp
  then show ?thesis using hk unfolding handled_ok_def by simp
qed

lemma attempts_ok:
  assumes "stage_ok owner w" "identified owner doc" "proto_Unmarshal cl (kr_Value rec) = Inr raw" "filed_version doc = filed_version raw"
  shows "stage_ok owner (snd (attempts cl rec (Handle h) hctx n k doc err w))"
  using assms
proof (induction n arbitrary: k doc err w)
  case 0
  then show ?case by (simp add: quarantine_ok)
next
  case (Suc n)
  define sl where "sl = (if k > 1 then sleepCtx cl (backoffFor (k - 2)) w else (None, w))"
  obtain se w1 where sl1: "sl = (se, w1)" by fastforce
  have "keys w1 = keys w \<and> chunked w1 = chunked w \<and> committed w1 = committed w \<and> sent w1 = sent w"
    using sl1 sleep_law unfolding sl_def by (auto split: if_splits)
  then have ok1: "stage_ok owner w1"
    using Suc.prems(1) accounted_read [of owner w w1] unfolding stage_ok_def record_settled_def by simp
  obtain he doc' w2 where hd: "Handle h hctx doc w1 = ((he, doc'), w2)" by (metis prod.collapse)
  note hk = handle_ok [OF ok1 Suc.prems(2) hd]
  have unf: "attempts cl rec (Handle h) hctx (Suc n) k doc err w =
      (case (se, w1) of (Some e, w1) \<Rightarrow> (Some e, w1) | (None, w1) \<Rightarrow>
        (case Handle h hctx doc w1 of
           ((None, doc'), w2) \<Rightarrow> (None, commit cl rec w2)
         | ((Some e, doc'), w2) \<Rightarrow> (case ctx_Err cl w2 of Some c \<Rightarrow> (Some c, w2)
             | None \<Rightarrow> attempts cl rec (Handle h) hctx n (Suc k) doc' e w2)))"
    unfolding attempts.simps sl1 [symmetric] sl_def by (rule refl)
  have settled: "record_settled w2 rec" if "he = None"
    using that hk Suc.prems(3,4) unfolding record_settled_def by metis
  show ?case unfolding unf hd
    using ok1 hk commit_ok [OF _ settled] Suc.IH [of w2 doc'] Suc.prems(3,4)
    by (cases se; cases he; cases "ctx_Err cl w2") (simp_all add: hd)
qed

definition raw_identified :: "(string \<Rightarrow> string) \<Rightarrow> kgo_Record \<Rightarrow> bool" where
  "raw_identified owner rec \<longleftrightarrow> (case proto_Unmarshal cl (kr_Value rec) of Inl e \<Rightarrow> True | Inr doc \<Rightarrow> identified owner doc)"

lemma processRecord_ok:
  "stage_ok owner w \<Longrightarrow> raw_identified owner rec \<Longrightarrow> stage_ok owner (snd (processRecord cl ctx rec (Handle h) w))"
  using attempts_ok [of owner w _ rec]
  by (auto simp: processRecord_def raw_identified_def quarantine_ok simp del: append.simps split: sum.split)

lemma process_fetch_ok:
  "stage_ok owner w \<Longrightarrow> \<forall>rec \<in> set recs. raw_identified owner rec \<Longrightarrow>
   stage_ok owner (snd (process_fetch cl ctx recs (Handle h) w))"
proof (induction recs arbitrary: w)
  case (Cons rec recs)
  then have "stage_ok owner (snd (processRecord cl ctx rec (Handle h) w))" by (simp add: processRecord_ok)
  then show ?case using Cons by (auto split: prod.split option.split)
qed simp

end

section \<open>The stage on one broker and one Redis\<close>

text \<open>
  The world behind the two clients: the broker's log, the committed records, the keys Redis holds, and
  a counter of calls. Call number \<open>n\<close> may fail, with or without having taken effect, keys may have
  expired by then, and the context may be cancelled: all of it an arbitrary environment, together
  with the codec.
\<close>

record pipe_world =
  pw_step :: nat
  pw_log :: "kgo_Record list"
  pw_commits :: "kgo_Record list"
  pw_keys :: "string list"

record pipe_env =
  pe_fault :: "nat \<Rightarrow> (string \<times> bool) option"
  pe_expired :: "nat \<Rightarrow> string \<Rightarrow> bool"
  pe_cancelled :: "nat \<Rightarrow> string option"
  pe_fetch :: "nat \<Rightarrow> kgo_Record list"
  pe_Marshal :: "Document \<Rightarrow> string + bytes"
  pe_Unmarshal :: "bytes \<Rightarrow> string + Document"

definition pipe_call :: "pipe_env \<Rightarrow> (pipe_world \<Rightarrow> pipe_world) \<Rightarrow> pipe_world \<Rightarrow> string option \<times> pipe_world" where
  "pipe_call E act w0 =
     (let w = w0\<lparr>pw_step := Suc (pw_step w0)\<rparr> in
      case pe_fault E (pw_step w0) of
        None \<Rightarrow> (None, act w)
      | Some (e, took_effect) \<Rightarrow> (Some e, if took_effect then act w else w))"

definition pipe_client :: "pipe_env \<Rightarrow> pipe_world kgo_client" where
  "pipe_client E = \<lparr>
     ProduceSync = (\<lambda>r. pipe_call E (\<lambda>w. w\<lparr>pw_log := pw_log w @ [r]\<rparr>)),
     CommitRecords = (\<lambda>r. pipe_call E (\<lambda>w. w\<lparr>pw_commits := pw_commits w @ [r]\<rparr>)),
     PollFetches = (\<lambda>w. (Fetched (pe_fetch E (pw_step w)), w\<lparr>pw_step := Suc (pw_step w)\<rparr>)),
     ctx_Err = (\<lambda>w. pe_cancelled E (pw_step w)),
     sleepCtx = (\<lambda>d. pipe_call E id),
     proto_Marshal = pe_Marshal E, proto_Unmarshal = pe_Unmarshal E\<rparr>"

definition pipe_redis :: "pipe_env \<Rightarrow> pipe_world redis_client" where
  "pipe_redis E = \<lparr>
     redis_Exists = (\<lambda>k w0.
       let w = w0\<lparr>pw_step := Suc (pw_step w0), pw_keys := filter (\<lambda>k. \<not> pe_expired E (pw_step w0) k) (pw_keys w0)\<rparr> in
       (case pe_fault E (pw_step w0) of Some (e, _) \<Rightarrow> Inl e | None \<Rightarrow> Inr (if k \<in> set (pw_keys w) then 1 else 0), w)),
     redis_Set = (\<lambda>k v ttl. pipe_call E (\<lambda>w. w\<lparr>pw_keys := k # pw_keys w\<rparr>))\<rparr>"

definition pipe_handler :: "pipe_env \<Rightarrow> pipe_world ingest_handler" where
  "pipe_handler E = newHandler (pipe_client E) (pipe_redis E)"

text \<open>The documents on \<open>docs.chunked\<close>: those with a record as the producer makes it.\<close>

definition chunked_docs :: "pipe_env \<Rightarrow> pipe_world \<Rightarrow> Document set" where
  "chunked_docs E w = {d. \<exists>v. pe_Marshal E d = Inr v \<and> document_record TopicDocsChunked d v \<in> set (pw_log w)}"

lemma chunked_docs_log: "pw_log w' = pw_log w \<Longrightarrow> chunked_docs E w' = chunked_docs E w"
  by (simp add: chunked_docs_def)

lemma document_record_version: "document_record t a v = document_record t' b v' \<Longrightarrow> version_of a = version_of b"
  by (simp add: document_record_def version_of_def)

lemma pipe_call_cases:
  assumes "pipe_call E act w = (e, w')"
  shows "(w' = act (w\<lparr>pw_step := Suc (pw_step w)\<rparr>) \<or> e \<noteq> None \<and> w' = w\<lparr>pw_step := Suc (pw_step w)\<rparr>)"
  using assms by (auto simp: pipe_call_def Let_def split: option.splits if_splits)

lemma pipe_produce:
  assumes "ProduceDocument (pipe_client E) ctx t (Some d) w = (e, w')"
  shows "pw_keys w' = pw_keys w \<and> pw_commits w' = pw_commits w \<and>
    ((\<exists>v. pe_Marshal E d = Inr v \<and> pw_log w' = pw_log w @ [document_record t d v]) \<or> e \<noteq> None \<and> pw_log w' = pw_log w)"
proof (cases "w' = w \<and> e \<noteq> None")
  case False
  then obtain v e' where v: "pe_Marshal E d = Inr v" "ProduceSync (pipe_client E) (document_record t d v) w = (e', w')" "e' = None \<longleftrightarrow> e = None"
    using assms by (auto simp: ProduceDocument_def Let_def pipe_client_def split: if_splits sum.splits prod.splits option.splits)
  then have "pipe_call E (\<lambda>w. w\<lparr>pw_log := pw_log w @ [document_record t d v]\<rparr>) w = (e', w')" by (simp add: pipe_client_def)
  from pipe_call_cases [OF this] show ?thesis using v by auto
qed auto

lemma pipe_seen:
  assumes "h_Seen (pipe_handler E) k w = (r, w')"
  shows "set (pw_keys w') \<subseteq> set (pw_keys w) \<and> pw_log w' = pw_log w \<and> pw_commits w' = pw_commits w \<and> (r = Inr True \<longrightarrow> k \<in> set (pw_keys w))"
  using assms by (auto simp: pipe_handler_def newHandler_def redisSeen_Seen_def pipe_redis_def Let_def split: option.splits if_splits)

lemma pipe_mark:
  assumes "h_MarkSeen (pipe_handler E) k ttl w = (e, w')"
  shows "set (pw_keys w') \<subseteq> insert k (set (pw_keys w)) \<and> pw_log w' = pw_log w \<and> pw_commits w' = pw_commits w"
proof -
  obtain e' where "pipe_call E (\<lambda>w. w\<lparr>pw_keys := k # pw_keys w\<rparr>) w = (e', w')"
    using assms by (auto simp: pipe_handler_def newHandler_def redisSeen_MarkSeen_def pipe_redis_def split: prod.splits option.splits)
  from pipe_call_cases [OF this] show ?thesis by auto
qed

definition log_grows :: "pipe_world \<Rightarrow> pipe_world \<Rightarrow> bool" where
  "log_grows w w' \<longleftrightarrow> pw_commits w' = pw_commits w \<and> set (pw_log w) \<subseteq> set (pw_log w')"

lemma log_grows_trans: "log_grows a b \<Longrightarrow> log_grows b c \<Longrightarrow> log_grows a c"
  by (auto simp: log_grows_def)

lemma pipe_log_grows:
  "h_ProduceDocument (pipe_handler E) ctx t (Some d) w = (e, w') \<Longrightarrow> log_grows w w'"
  "h_Seen (pipe_handler E) k w = (r, w') \<Longrightarrow> log_grows w w'"
  "h_MarkSeen (pipe_handler E) k ttl w = (e, w') \<Longrightarrow> log_grows w w'"
  using pipe_produce [of E ctx t d w e w'] pipe_seen [of E k w r w'] pipe_mark [of E k ttl w e w']
  by (auto simp: log_grows_def pipe_handler_def newHandler_def)

lemma pipe_handle:
  assumes "Handle (pipe_handler E) ctx doc w = (res, w')"
  shows "log_grows w w'"
proof (cases "get_Deleted doc")
  case True
  obtain e w1 where p: "h_ProduceDocument (pipe_handler E) ctx TopicDocsChunked (Some doc) w = (e, w1)" by fastforce
  have "w' = w1" using assms True p by (cases e) (simp_all add: Handle_def)
  then show ?thesis using pipe_log_grows(1) [OF p] by simp
next
  case False
  let ?n = "normalizeDocument doc"
  obtain sr w1 where s: "h_Seen (pipe_handler E) (dedupe_key ?n) w = (sr, w1)" by fastforce
  obtain e w2 where p: "h_ProduceDocument (pipe_handler E) ctx TopicDocsChunked (Some (route_chunks ?n)) w1 = (e, w2)" by fastforce
  obtain me w3 where m: "h_MarkSeen (pipe_handler E) (dedupe_key ?n) seenTTL w2 = (me, w3)" by fastforce
  have "w' = (if sr = Inr True then w1 else if e = None then w3 else w2)"
    using assms False by (simp add: Handle_def Let_def s p m split: sum.splits bool.splits option.splits)
  then show ?thesis
    using pipe_log_grows(2) [OF s] pipe_log_grows(1) [OF p] pipe_log_grows(3) [OF m] log_grows_trans [of w w1 w2] log_grows_trans [of w w2 w3]
    by (simp only: simp_thms split: if_split)
qed

interpretation dp: dedupe_pipeline "pipe_handler E" "\<lambda>w. set (pw_keys w)" "chunked_docs E" for E
proof
  fix k w r w'
  assume "h_Seen (pipe_handler E) k w = (r, w')"
  from pipe_seen [OF this] show "set (pw_keys w') \<subseteq> set (pw_keys w) \<and> chunked_docs E w' = chunked_docs E w \<and> (r = Inr True \<longrightarrow> k \<in> set (pw_keys w))"
    using chunked_docs_log [of w' w E] by blast
next
  fix k ttl w e w'
  assume "h_MarkSeen (pipe_handler E) k ttl w = (e, w')"
  from pipe_mark [OF this] show "set (pw_keys w') \<subseteq> insert k (set (pw_keys w)) \<and> chunked_docs E w' = chunked_docs E w"
    using chunked_docs_log [of w' w E] by blast
next
  fix ctx d w e w'
  assume "h_ProduceDocument (pipe_handler E) ctx TopicDocsChunked (Some d) w = (e, w')"
  then have "ProduceDocument (pipe_client E) ctx TopicDocsChunked (Some d) w = (e, w')" by (simp add: pipe_handler_def newHandler_def)
  from pipe_produce [OF this] show "set (pw_keys w') \<subseteq> set (pw_keys w) \<and> chunked_docs E w \<subseteq> chunked_docs E w' \<and>
      (\<forall>x \<in> chunked_docs E w'. x \<in> chunked_docs E w \<or> version_of x = version_of d) \<and> (e = None \<longrightarrow> d \<in> chunked_docs E w')"
    unfolding chunked_docs_def by (auto dest: document_record_version)
qed

interpretation st: ingest_stage "pipe_handler E" "\<lambda>w. set (pw_keys w)" "chunked_docs E" "pipe_client E"
    "\<lambda>w. set (pw_log w)" "\<lambda>w. set (pw_commits w)" for E
proof
  fix r w e w'
  assume t: "kr_Topic r = TopicDocsDeadletter" and p: "ProduceSync (pipe_client E) r w = (e, w')"
  have "pipe_call E (\<lambda>w. w\<lparr>pw_log := pw_log w @ [r]\<rparr>) w = (e, w')" using p by (simp add: pipe_client_def)
  moreover have ne: "document_record TopicDocsChunked d v \<noteq> r" for d v
    using t by (auto simp: document_record_def TopicDocsChunked_def TopicDocsDeadletter_def)
  ultimately show "set (pw_keys w') = set (pw_keys w) \<and> chunked_docs E w' = chunked_docs E w \<and> set (pw_commits w') = set (pw_commits w) \<and>
      set (pw_log w) \<subseteq> set (pw_log w') \<and> (e = None \<longrightarrow> r \<in> set (pw_log w'))"
    by (auto dest!: pipe_call_cases simp: chunked_docs_def ne)
next
  fix r w e w'
  assume "CommitRecords (pipe_client E) r w = (e, w')"
  then have "pipe_call E (\<lambda>w. w\<lparr>pw_commits := pw_commits w @ [r]\<rparr>) w = (e, w')" by (simp add: pipe_client_def)
  from pipe_call_cases [OF this] show "set (pw_keys w') = set (pw_keys w) \<and> chunked_docs E w' = chunked_docs E w \<and>
      set (pw_commits w') \<subseteq> insert r (set (pw_commits w)) \<and> set (pw_log w') = set (pw_log w)"
    using chunked_docs_log [of w' w E] by auto
next
  fix d w e w'
  assume "sleepCtx (pipe_client E) d w = (e, w')"
  then have "pipe_call E id w = (e, w')" by (simp add: pipe_client_def)
  from pipe_call_cases [OF this] show "set (pw_keys w') = set (pw_keys w) \<and> chunked_docs E w' = chunked_docs E w \<and>
      set (pw_commits w') = set (pw_commits w) \<and> set (pw_log w') = set (pw_log w)"
    using chunked_docs_log [of w' w E] by auto
next
  fix ctx doc w res w'
  assume "Handle (pipe_handler E) ctx doc w = (res, w')"
  from pipe_handle [OF this] show "set (pw_commits w') = set (pw_commits w) \<and> set (pw_log w) \<subseteq> set (pw_log w')" by (simp add: log_grows_def)
qed

subsection \<open>Sessions of the consumer\<close>

text \<open>Any sequence of fetches, also after one that ended in an error: a restarted consumer is handed again
  what was not committed.\<close>

fun run_fetches :: "pipe_env \<Rightarrow> go_ctx \<Rightarrow> kgo_Record list list \<Rightarrow> pipe_world \<Rightarrow> pipe_world" where
  "run_fetches E ctx [] w = w"
| "run_fetches E ctx (recs # fetches) w =
     run_fetches E ctx fetches (snd (process_fetch (pipe_client E) ctx recs (Handle (pipe_handler E)) w))"

lemma run_fetches_ok:
  assumes "st.stage_ok E owner w" "\<forall>recs \<in> set fetches. \<forall>rec \<in> set recs. st.raw_identified E owner rec"
  shows "st.stage_ok E owner (run_fetches E ctx fetches w)"
  using assms
proof (induction fetches arbitrary: w)
  case (Cons recs fetches)
  then show ?case by (simp add: st.process_fetch_ok)
qed simp

lemma stage_ok_start: "pw_keys w = [] \<Longrightarrow> pw_commits w = [] \<Longrightarrow> pw_log w = [] \<Longrightarrow> st.stage_ok E owner w"
  by (simp add: st.stage_ok_def dp.accounted_def chunked_docs_def)

text \<open>What the witnesses run on: an environment without faults in which every payload is one image.\<close>

definition picture :: "string \<Rightarrow> Document" where
  "picture tenant = zero_document\<lparr>d_TenantId := tenant, d_DocId := ''d'', d_Type := IMAGE, d_VersionEtag := ''v1''\<rparr>"

definition calm_env :: pipe_env where
  "calm_env = \<lparr>pe_fault = (\<lambda>n. None), pe_expired = (\<lambda>n k. False), pe_cancelled = (\<lambda>n. None), pe_fetch = (\<lambda>n. []),
     pe_Marshal = (\<lambda>d. Inr (d_TenantId d)), pe_Unmarshal = (\<lambda>v. Inr (picture v))\<rparr>"

definition fresh_world :: pipe_world where
  "fresh_world = \<lparr>pw_step = 0, pw_log = [], pw_commits = [], pw_keys = []\<rparr>"

definition tenant_ctx :: "string \<Rightarrow> go_ctx" where
  "tenant_ctx t = WithContext sample_ctx \<lparr>tenantID = t, subject = t\<rparr>"

lemma picture_facts [simp]: "d_TenantId (picture t) = t" "d_DocId (picture t) = ''d''" "d_VersionEtag (picture t) = ''v1''"
  "get_Deleted (picture t) = False" "isMediaDoc (picture t)"
  by (simp_all add: picture_def zero_document_def get_Deleted_def isMediaDoc_def)

lemma picture_normal [simp]: "normalizeDocument (picture t) = picture t"
  by (simp add: normalizeDocument_def picture_def zero_document_def normalizeTitle_def normalizeBody_def)

lemma picture_routed [simp]: "route_chunks (picture t) = picture t"
  by (simp add: route_chunks_def)

lemma produce_calm:
  "t \<noteq> [] \<Longrightarrow> ProduceDocument (pipe_client calm_env) (tenant_ctx t) TopicDocsChunked (Some (picture t)) w =
     (None, w\<lparr>pw_step := Suc (pw_step w), pw_log := pw_log w @ [document_record TopicDocsChunked (picture t) t]\<rparr>)"
  by (simp add: ProduceDocument_def TopicDocsChunked_def tenant_ctx_def WithContext_def FromContext_def pipe_client_def
      calm_env_def pipe_call_def)

lemma handle_calm:
  assumes "t \<noteq> []"
  shows "Handle (pipe_handler calm_env) (tenant_ctx t) (picture t) w =
    ((None, picture t),
     if dedupe_key (picture t) \<in> set (pw_keys w) then w\<lparr>pw_step := Suc (pw_step w)\<rparr>
     else w\<lparr>pw_step := Suc (Suc (Suc (pw_step w))), pw_log := pw_log w @ [document_record TopicDocsChunked (picture t) t],
       pw_keys := dedupe_key (picture t) # pw_keys w\<rparr>)"
  using assms
  by (simp add: Handle_def pipe_handler_def newHandler_def redisSeen_Seen_def redisSeen_MarkSeen_def pipe_redis_def Let_def
      produce_calm pipe_call_def calm_env_def [THEN arg_cong [of _ _ pe_fault]] calm_env_def [THEN arg_cong [of _ _ pe_expired]])

section \<open>Properties\<close>

text \<open>
  C1: ingest loses no document. Start from an empty broker and an empty Redis, let every call fail in
  any way, keys expire, contexts be cancelled and consumers restart, and let each document identifier
  belong to one tenant and hold no colon: then every raw record whose offset was ever committed is in
  quarantine, or a document of the same tenant, identifier and version etag is on \<open>docs.chunked\<close>.
\<close>

theorem ingest_no_loss:
  assumes "pw_keys w = []" "pw_commits w = []" "pw_log w = []"
    and "\<And>recs rec doc. recs \<in> set fetches \<Longrightarrow> rec \<in> set recs \<Longrightarrow> pe_Unmarshal E (kr_Value rec) = Inr doc \<Longrightarrow> identified owner doc"
    and "w' = run_fetches E ctx fetches w" "rec \<in> set (pw_commits w')"
  shows "kr_Topic rec = TopicDocsDeadletter \<or> (\<exists>cause. deadletter_record rec cause \<in> set (pw_log w')) \<or>
    (\<exists>doc. \<exists>d \<in> chunked_docs E w'. pe_Unmarshal E (kr_Value rec) = Inr doc \<and> version_of d = filed_version doc)"
proof -
  have "proto_Unmarshal (pipe_client E) = pe_Unmarshal E" by (simp add: pipe_client_def)
  then have "\<forall>recs \<in> set fetches. \<forall>rec \<in> set recs. st.raw_identified E owner rec"
    using assms(4) by (auto simp: st.raw_identified_def split: sum.split)
  then have "st.record_settled E w' rec"
    using run_fetches_ok [OF stage_ok_start [OF assms(1-3)]] assms(5,6) unfolding st.stage_ok_def by blast
  then show ?thesis unfolding st.record_settled_def \<open>proto_Unmarshal (pipe_client E) = pe_Unmarshal E\<close> by (auto simp: image_iff)
qed

lemma calm_commit:
  "pw_commits (run_fetches calm_env sample_ctx [[sample_record ''a'' ''a'']] fresh_world) = [sample_record ''a'' ''a'']"
proof -
  have ctx: "WithContext sample_ctx \<lparr>tenantID = ''a'', subject = ''a''\<rparr> = tenant_ctx ''a''" by (simp add: tenant_ctx_def)
  have "tenantFromRecord (sample_record ''a'' ''a'') = Inr \<lparr>tenantID = ''a'', subject = ''a''\<rparr>"
    using sample_tenants by (simp add: tenantFromRecord_def sample_record_def HeaderTenantID_def FromHeaderValue_def)
  moreover have "proto_Unmarshal (pipe_client calm_env) (kr_Value (sample_record ''a'' ''a'')) = Inr (picture ''a'')"
    by (simp add: pipe_client_def calm_env_def sample_record_def)
  moreover have "CommitRecords (pipe_client calm_env) r w = (None, w\<lparr>pw_step := Suc (pw_step w), pw_commits := pw_commits w @ [r]\<rparr>)" for r w
    by (simp add: pipe_client_def calm_env_def pipe_call_def)
  ultimately show ?thesis
    by (simp add: processRecord_def maxHandlerAttempts_def numeral_3_eq_3 ctx handle_calm commit_def fresh_world_def)
qed

theorem ingest_no_loss_witness:
  "let w' = run_fetches calm_env sample_ctx [[sample_record ''a'' ''a'']] fresh_world in
     (\<exists>cause. deadletter_record (sample_record ''a'' ''a'') cause \<in> set (pw_log w')) \<or>
     (\<exists>d \<in> chunked_docs calm_env w'. version_of d = (''a'', ''d'', ''v1''))"
proof -
  let ?w = "run_fetches calm_env sample_ctx [[sample_record ''a'' ''a'']] fresh_world"
  have um: "pe_Unmarshal calm_env v = Inr (picture v)" for v by (simp add: calm_env_def)
  have start: "pw_keys fresh_world = []" "pw_commits fresh_world = []" "pw_log fresh_world = []" by (simp_all add: fresh_world_def)
  have id: "identified (\<lambda>d. ''a'') doc"
    if "recs \<in> set [[sample_record ''a'' ''a'']]" "rec \<in> set recs" "pe_Unmarshal calm_env (kr_Value rec) = Inr doc" for recs rec doc
    using that by (auto simp: um identified_def sample_record_def)
  have com: "sample_record ''a'' ''a'' \<in> set (pw_commits ?w)" by (simp add: calm_commit del: run_fetches.simps)
  have fv: "filed_version (picture ''a'') = (''a'', ''d'', ''v1'')" by (simp add: filed_version_def version_of_def)
  have "kr_Topic (sample_record ''a'' ''a'') \<noteq> TopicDocsDeadletter" "kr_Value (sample_record ''a'' ''a'') = ''a''"
    by (simp_all add: sample_record_def TopicDocsDeadletter_def)
  then show ?thesis using ingest_no_loss [OF start id refl com] fv unfolding um Let_def by auto
qed

text \<open>
  C34: normalization reaches a normal form and stays there. The title has no whitespace but single
  spaces inside, the body no carriage return, no blank before a newline and no three newlines in a
  row, neither has whitespace at its ends, the version etag is set, tenant and identifier are
  untouched, and normalizing again, as a retry with the changed document does, changes nothing.
\<close>

theorem normalize_normal_form:
  "let n = normalizeDocument d in
   single_spaced (d_Title n) \<and> TrimSpace (d_Title n) = d_Title n \<and> clean_lines (d_BodyText n) \<and> TrimSpace (d_BodyText n) = d_BodyText n \<and>
   d_VersionEtag n \<noteq> [] \<and> d_TenantId n = d_TenantId d \<and> d_DocId n = d_DocId d \<and> normalizeDocument n = n"
  using single_spaced_trim [OF collapse_single, of "d_Title d"]
  by (simp only: Let_def normalizeDocument_fields normalizeDocument_etag_nonempty normalizeDocument_idem normalizeBody_clean
      normalizeBody_trimmed normalizeTitle_def TrimSpace_idem simp_thms)

section \<open>Tenants in the dedupe key\<close>


end
