(* ===== verification/Go_JsonEnc.thy ===== *)
theory Go_JsonEnc
  imports Go_Json Go_Utf8
begin

text \<open>
  The encoding side of Go's \<open>encoding/json\<close>, as far as the services use it: strings with HTML escaping,
  maps of strings with sorted keys, arrays and objects. What the encoder makes of a string or of a map of
  strings is accepted by the scanner of \<open>json.Valid\<close>.
\<close>

definition json_ascii :: "char \<Rightarrow> string" where
  "json_ascii c =
     (if c = CHR 0x22 \<or> c = CHR 0x5C then [CHR 0x5C, c]
      else if c = CHR 0x08 then [CHR 0x5C, CHR ''b'']
      else if c = CHR 0x0C then [CHR 0x5C, CHR ''f'']
      else if c = CHR 0x0A then [CHR 0x5C, CHR ''n'']
      else if c = CHR 0x0D then [CHR 0x5C, CHR ''r'']
      else if c = CHR 0x09 then [CHR 0x5C, CHR ''t'']
      else if byte c < 0x20 \<or> c = CHR ''<'' \<or> c = CHR ''>'' \<or> c = CHR ''&''
      then [CHR 0x5C, CHR ''u'', CHR ''0'', CHR ''0'', lower_hex (byte c div 16), lower_hex (byte c mod 16)]
      else [c])"

text \<open>An ill-formed byte becomes the escape of U+FFFD; the line separators U+2028 and U+2029 are escaped.\<close>

function json_body :: "string \<Rightarrow> string" where
  "json_body [] = []"
| "json_body (c # cs) =
     (if byte c < 0x80 then json_ascii c @ json_body cs
      else case rune_len (c # cs) of
             None \<Rightarrow> [CHR 0x5C, CHR ''u'', CHR ''f'', CHR ''f'', CHR ''f'', CHR ''d''] @ json_body cs
           | Some n \<Rightarrow>
               let r = rune_value (take n (c # cs)) in
               (if r = 0x2028 \<or> r = 0x2029
                then [CHR 0x5C, CHR ''u'', CHR ''2'', CHR ''0'', CHR ''2'', lower_hex (r mod 16)]
                else take n (c # cs)) @ json_body (drop n (c # cs)))"
  by pat_completeness auto
termination
proof (relation "measure length")
  fix c cs n r
  assume "rune_len (c # cs) = Some n"
  then have "1 \<le> n" using rune_len_bounds by blast
  then show "(drop n (c # cs), c # cs) \<in> measure length" by simp
qed auto

declare json_body.simps(2) [simp del]

definition json_string :: "string \<Rightarrow> string" where
  "json_string s = CHR 0x22 # json_body s @ [CHR 0x22]"

fun json_join :: "string list \<Rightarrow> string" where
  "json_join [] = []"
| "json_join [x] = x"
| "json_join (x # y # ys) = x @ '','' @ json_join (y # ys)"

definition json_array :: "string list \<Rightarrow> string" where
  "json_array xs = ''['' @ json_join xs @ '']''"

definition json_object :: "(string \<times> string) list \<Rightarrow> string" where
  "json_object fs = ''{'' @ json_join (map (\<lambda>(k, v). json_string k @ '':'' @ v) fs) @ ''}''"

text \<open>\<open>json.Marshal\<close> of a map: its keys in increasing order.\<close>

definition json_map :: "('v \<Rightarrow> string) \<Rightarrow> (string, 'v) table \<Rightarrow> string" where
  "json_map enc m = json_object (map (\<lambda>(k, v). (k, enc v)) (sort_key fst m))"

section \<open>Facts: what the encoder writes, the scanner reads\<close>

lemma hex_ok: "d < 16 \<Longrightarrow> json_hex (lower_hex d)"
  by (auto simp: json_hex_def json_digit_def lower_hex_def less_eq_char_def)

lemma scan_u_escape:
  assumes "sc_step s = InString" "json_hex a" "json_hex b" "json_hex c" "json_hex d"
  shows "foldl scan_byte s [CHR 0x5C, CHR ''u'', a, b, c, d] = s"
  using assms by (simp add: scan_byte_def goto_def expect_def)

lemma scan_plain:
  assumes "sc_step s = InString" "\<forall>c \<in> set x. byte c \<ge> 0x20 \<and> c \<noteq> CHR 0x22 \<and> c \<noteq> CHR 0x5C"
  shows "foldl scan_byte s x = s"
  using assms(2)
proof (induction x)
  case (Cons c x)
  have "\<not> c < CHR 0x20" using Cons.prems by (simp add: less_char_def)
  then show ?case using Cons assms(1) by (simp add: scan_byte_def)
qed simp

lemma scan_ascii:
  assumes "sc_step s = InString" "byte c < 0x80"
  shows "foldl scan_byte s (json_ascii c) = s"
proof -
  have esc: "foldl scan_byte s [CHR 0x5C, e] = s" if "e \<in> set ''bfnrt'' \<or> e = CHR 0x5C \<or> e = CHR 0x22" for e
    using that assms(1) by (auto simp: scan_byte_def goto_def)
  have u: "foldl scan_byte s [CHR 0x5C, CHR ''u'', CHR ''0'', CHR ''0'', lower_hex (byte c div 16), lower_hex (byte c mod 16)] = s"
    using assms by (intro scan_u_escape hex_ok) (simp_all, (simp add: json_hex_def json_digit_def less_eq_char_def)+)
  show ?thesis
    unfolding json_ascii_def using esc u scan_plain [OF assms(1), of "[c]"] by (simp del: foldl.simps)
qed

lemma rune_bytes_high:
  assumes "byte c \<ge> 0x80" "rune_len (c # cs) = Some n"
  shows "\<forall>x \<in> set (take n (c # cs)). byte x \<ge> 0x80"
proof
  fix x assume "x \<in> set (take n (c # cs))"
  then obtain i where i: "i < n" "i < length (c # cs)" "x = (c # cs) ! i" by (auto simp: in_set_conv_nth)
  show "byte x \<ge> 0x80"
    using assms(1) rune_len_tail [OF assms(2), of i] i by (cases i) (simp_all add: continuation_def)
qed

lemma high_byte_plain: "byte c \<ge> 0x80 \<Longrightarrow> byte c \<ge> 0x20 \<and> c \<noteq> CHR 0x22 \<and> c \<noteq> CHR 0x5C"
  by auto

lemma scan_body: "sc_step s = InString \<Longrightarrow> foldl scan_byte s (json_body x) = s"
proof (induction x rule: json_body.induct)
  case (2 c cs)
  have fffd: "foldl scan_byte s [CHR 0x5C, CHR ''u'', CHR ''f'', CHR ''f'', CHR ''f'', CHR ''d''] = s"
    using "2.prems" by (intro scan_u_escape) (simp_all add: json_hex_def json_digit_def less_eq_char_def)
  have sep: "foldl scan_byte s [CHR 0x5C, CHR ''u'', CHR ''2'', CHR ''0'', CHR ''2'', lower_hex (r mod 16)] = s" for r
    using "2.prems" by (intro scan_u_escape hex_ok) (simp_all add: json_hex_def json_digit_def less_eq_char_def)
  show ?case
  proof (cases "byte c < 0x80")
    case True
    then show ?thesis using 2(1) 2(4) by (simp add: json_body.simps(2) scan_ascii)
  next
    case False
    show ?thesis
    proof (cases "rune_len (c # cs)")
      case None
      have "foldl scan_byte s (json_body cs) = s" using 2(2) [OF False None "2.prems"] .
      then show ?thesis using False None fffd by (simp only: json_body.simps(2) if_False option.case foldl_append)
    next
      case (Some n)
      let ?t = "take n (c # cs)"
      have "foldl scan_byte s ?t = s"
        using rune_bytes_high [OF _ Some] False high_byte_plain by (intro scan_plain [OF "2.prems"]) (meson not_less)
      moreover have "foldl scan_byte s (json_body (drop n (c # cs))) = s"
        using 2(3) [OF False Some refl "2.prems"] .
      ultimately show ?thesis
        using False Some sep by (simp only: json_body.simps(2) if_False option.case Let_def foldl_append simp_thms split: if_split)
    qed
  qed
qed simp

lemma scan_string:
  "sc_step s = BeginValue \<or> sc_step s = BeginString \<or> sc_step s = BeginStringOrEmpty \<Longrightarrow>
   foldl scan_byte s (json_string x) = s\<lparr>sc_step := EndValue\<rparr>"
proof -
  assume st: "sc_step s = BeginValue \<or> sc_step s = BeginString \<or> sc_step s = BeginStringOrEmpty"
  have "scan_byte s CHR 0x22 = s\<lparr>sc_step := InString\<rparr>"
    using st by (auto simp: scan_byte_def begin_value_def begin_string_def goto_def json_space_def)
  moreover have "scan_byte (s\<lparr>sc_step := InString\<rparr>) CHR 0x22 = s\<lparr>sc_step := EndValue\<rparr>"
    by (simp add: scan_byte_def goto_def)
  ultimately show ?thesis using scan_body [of "s\<lparr>sc_step := InString\<rparr>" x] by (simp add: json_string_def)
qed

definition in_object :: "scan_step \<Rightarrow> parse_state \<Rightarrow> scanner" where
  "in_object st p = \<lparr>sc_step = st, sc_stack = [p], sc_endTop = False\<rparr>"

lemma scan_entry:
  "st = BeginString \<or> st = BeginStringOrEmpty \<Longrightarrow>
   foldl scan_byte (in_object st ParseObjectKey) (json_string k @ '':'' @ json_string v) = in_object EndValue ParseObjectValue"
proof -
  assume "st = BeginString \<or> st = BeginStringOrEmpty"
  then have "foldl scan_byte (in_object st ParseObjectKey) (json_string k) = in_object EndValue ParseObjectKey"
    using scan_string [of "in_object st ParseObjectKey" k] by (auto simp: in_object_def)
  moreover have "scan_byte (in_object EndValue ParseObjectKey) CHR '':'' = in_object BeginValue ParseObjectValue"
    by (simp add: in_object_def scan_byte_def end_value_def json_space_def)
  moreover have "foldl scan_byte (in_object BeginValue ParseObjectValue) (json_string v) = in_object EndValue ParseObjectValue"
    using scan_string [of "in_object BeginValue ParseObjectValue" v] by (auto simp: in_object_def)
  ultimately show ?thesis by simp
qed

lemma scan_entries:
  assumes "fs \<noteq> []" "st = BeginString \<or> st = BeginStringOrEmpty"
  shows "foldl scan_byte (in_object st ParseObjectKey) (json_join (map (\<lambda>(k, v). json_string k @ '':'' @ json_string v) fs)) =
    in_object EndValue ParseObjectValue"
  using assms
proof (induction fs arbitrary: st)
  case (Cons f fs)
  obtain k v where f: "f = (k, v)" by (cases f)
  have comma: "scan_byte (in_object EndValue ParseObjectValue) CHR '','' = in_object BeginString ParseObjectKey"
    by (simp add: in_object_def scan_byte_def end_value_def json_space_def)
  show ?case
  proof (cases fs)
    case Nil
    then show ?thesis using scan_entry [OF Cons.prems(2)] f by simp
  next
    case (Cons g gs)
    then show ?thesis using scan_entry [OF Cons.prems(2), of k v] Cons.IH [of BeginString] comma f by simp
  qed
qed simp

lemma json_map_valid: "json_Valid (json_map json_string m)"
proof -
  let ?s0 = "\<lparr>sc_step = BeginValue, sc_stack = [], sc_endTop = False\<rparr>"
  define fs where "fs = sort_key fst m"
  have obj: "json_map json_string m = ''{'' @ json_join (map (\<lambda>(k, v). json_string k @ '':'' @ json_string v) fs) @ ''}''"
    by (simp add: json_map_def json_object_def fs_def comp_def split_def)
  have start: "scan_byte ?s0 CHR ''{'' = in_object BeginStringOrEmpty ParseObjectKey"
    by (simp add: scan_byte_def begin_value_def push_state_def in_object_def json_space_def maxNestingDepth_def)
  have stop: "scan_byte (in_object EndValue ParseObjectValue) CHR ''}'' = \<lparr>sc_step = EndTop, sc_stack = [], sc_endTop = True\<rparr>"
    "scan_byte (in_object BeginStringOrEmpty ParseObjectKey) CHR ''}'' = \<lparr>sc_step = EndTop, sc_stack = [], sc_endTop = True\<rparr>"
    by (simp_all add: scan_byte_def end_value_def pop_state_def in_object_def json_space_def)
  have "foldl scan_byte ?s0 (json_map json_string m) = \<lparr>sc_step = EndTop, sc_stack = [], sc_endTop = True\<rparr>"
    using start stop scan_entries [of fs BeginStringOrEmpty] by (cases "fs = []") (simp_all add: obj)
  then show ?thesis by (simp add: json_Valid_def scan_eof_def)
qed

end
