(* ===== verification/Go_Time.thy ===== *)
theory Go_Time
  imports Go_Lib
begin

text \<open>
  \<open>time.Parse\<close> for layouts made of numeric date and time elements, \<open>Time.Unix\<close>, and \<open>strconv.ParseInt\<close>.
  Parsed fractions of a second are accepted and dropped: the services only read whole seconds.
\<close>

section \<open>The model\<close>

definition isDigit :: "char \<Rightarrow> bool" where
  "isDigit c = (CHR ''0'' \<le> c \<and> c \<le> CHR ''9'')"

definition digit_val :: "char \<Rightarrow> nat" where
  "digit_val c = of_char c - 48"

fun digits_val :: "nat \<Rightarrow> string \<Rightarrow> nat" where
  "digits_val acc [] = acc"
| "digits_val acc (c # cs) = digits_val (10 * acc + digit_val c) cs"

text \<open>\<open>getnum\<close>: two digits, or one unless the field is fixed.\<close>

fun getnum :: "bool \<Rightarrow> string \<Rightarrow> (nat \<times> string) option" where
  "getnum fixed [] = None"
| "getnum fixed (c # cs) =
     (if \<not> isDigit c then None
      else case cs of
             d # ds \<Rightarrow> if isDigit d then Some (10 * digit_val c + digit_val d, ds)
                      else if fixed then None else Some (digit_val c, cs)
           | [] \<Rightarrow> if fixed then None else Some (digit_val c, cs))"

text \<open>The elements of the layouts in use: \<open>2006\<close>, \<open>01\<close>, \<open>02\<close>, \<open>15\<close>, \<open>04\<close>, \<open>05\<close>, \<open>Z07:00\<close> and literal bytes.\<close>

datatype std_chunk = Lit char | LongYear | ZeroMonth | ZeroDay | Hour | ZeroMinute | ZeroSecond | ISO8601ColonTZ

record parsed_time =
  pt_year :: nat
  pt_month :: nat
  pt_day :: nat
  pt_hour :: nat
  pt_min :: nat
  pt_sec :: nat
  pt_offset :: int

definition ranged :: "nat \<Rightarrow> nat \<Rightarrow> (nat \<times> string) option \<Rightarrow> (nat \<times> string) option" where
  "ranged lo hi r = (case r of Some (n, v) \<Rightarrow> if lo \<le> n \<and> n \<le> hi then Some (n, v) else None | None \<Rightarrow> None)"

definition skip_fraction :: "string \<Rightarrow> string" where
  "skip_fraction v =
     (case v of
        c # d # ds \<Rightarrow> if (c = CHR ''.'' \<or> c = CHR '','') \<and> isDigit d then dropWhile isDigit ds else v
      | _ \<Rightarrow> v)"

text \<open>An offset: \<open>Z\<close>, or a sign, two digits, a colon and two digits, up to 24 hours and 60 minutes.\<close>

definition parse_zone :: "string \<Rightarrow> (int \<times> string) option" where
  "parse_zone v =
     (if v \<noteq> [] \<and> hd v = CHR ''Z'' then Some (0, tl v)
      else if length v < 6 \<or> v ! 3 \<noteq> CHR '':'' then None
      else case (getnum True (take 2 (drop 1 v)), getnum True (take 2 (drop 4 v))) of
             (Some (hr, _), Some (mm, _)) \<Rightarrow>
               if hr > 24 \<or> mm > 60 then None
               else let offset = int ((hr * 60 + mm) * 60) in
                    if hd v = CHR ''+'' then Some (offset, drop 6 v)
                    else if hd v = CHR ''-'' then Some (- offset, drop 6 v)
                    else None
           | _ \<Rightarrow> None)"

fun parse_std :: "std_chunk \<Rightarrow> string \<Rightarrow> parsed_time \<Rightarrow> (string \<times> parsed_time) option" where
  "parse_std (Lit c) v p = (if v \<noteq> [] \<and> hd v = c then Some (tl v, p) else None)"
| "parse_std LongYear v p =
     (if length v \<ge> 4 \<and> list_all isDigit (take 4 v) then Some (drop 4 v, p\<lparr>pt_year := digits_val 0 (take 4 v)\<rparr>) else None)"
| "parse_std ZeroMonth v p = map_option (\<lambda>(n, v'). (v', p\<lparr>pt_month := n\<rparr>)) (ranged 1 12 (getnum True v))"
| "parse_std ZeroDay v p = map_option (\<lambda>(n, v'). (v', p\<lparr>pt_day := n\<rparr>)) (getnum True v)"
| "parse_std Hour v p = map_option (\<lambda>(n, v'). (v', p\<lparr>pt_hour := n\<rparr>)) (ranged 0 23 (getnum False v))"
| "parse_std ZeroMinute v p = map_option (\<lambda>(n, v'). (v', p\<lparr>pt_min := n\<rparr>)) (ranged 0 59 (getnum True v))"
| "parse_std ZeroSecond v p = map_option (\<lambda>(n, v'). (skip_fraction v', p\<lparr>pt_sec := n\<rparr>)) (ranged 0 59 (getnum True v))"
| "parse_std ISO8601ColonTZ v p = map_option (\<lambda>(off, v'). (v', p\<lparr>pt_offset := off\<rparr>)) (parse_zone v)"

fun parse_layout :: "std_chunk list \<Rightarrow> string \<Rightarrow> parsed_time \<Rightarrow> parsed_time option" where
  "parse_layout [] v p = (if v = [] then Some p else None)"
| "parse_layout (c # cs) v p = (case parse_std c v p of None \<Rightarrow> None | Some (v', p') \<Rightarrow> parse_layout cs v' p')"

definition isLeap :: "nat \<Rightarrow> bool" where
  "isLeap y = (y mod 4 = 0 \<and> (y mod 100 \<noteq> 0 \<or> y mod 400 = 0))"

definition month_lengths :: "nat list" where
  "month_lengths = [31, 28, 31, 30, 31, 30, 31, 31, 30, 31, 30, 31]"

definition daysIn :: "nat \<Rightarrow> nat \<Rightarrow> nat" where
  "daysIn m y = (if m = 2 \<and> isLeap y then 29 else month_lengths ! (m - 1))"

text \<open>The number of leap days before a year, and the days from 1 January 1970 to a date.\<close>

definition leap_days :: "int \<Rightarrow> int" where
  "leap_days y = (y - 1) div 4 - (y - 1) div 100 + (y - 1) div 400"

definition unix_days :: "nat \<Rightarrow> nat \<Rightarrow> nat \<Rightarrow> int" where
  "unix_days y m d =
     365 * (int y - 1970) + leap_days (int y) - leap_days 1970
     + int (sum_list (take (m - 1) month_lengths)) + (if isLeap y \<and> m > 2 then 1 else 0) + int d - 1"

definition Unix :: "parsed_time \<Rightarrow> int" where
  "Unix p = 86400 * unix_days (pt_year p) (pt_month p) (pt_day p) + 3600 * int (pt_hour p) + 60 * int (pt_min p)
     + int (pt_sec p) - pt_offset p"

definition time_Parse :: "std_chunk list \<Rightarrow> string \<Rightarrow> int option" where
  "time_Parse layout v =
     (case parse_layout layout v \<lparr>pt_year = 0, pt_month = 1, pt_day = 1, pt_hour = 0, pt_min = 0, pt_sec = 0, pt_offset = 0\<rparr> of
        None \<Rightarrow> None
      | Some p \<Rightarrow> if pt_day p < 1 \<or> pt_day p > daysIn (pt_month p) (pt_year p) then None else Some (Unix p))"

definition DateOnly :: "std_chunk list" where
  "DateOnly = [LongYear, Lit CHR ''-'', ZeroMonth, Lit CHR ''-'', ZeroDay]"

definition DateTimeT :: "std_chunk list" where
  "DateTimeT = DateOnly @ [Lit CHR ''T'', Hour, Lit CHR '':'', ZeroMinute, Lit CHR '':'', ZeroSecond]"

definition RFC3339 :: "std_chunk list" where
  "RFC3339 = DateTimeT @ [ISO8601ColonTZ]"

text \<open>\<open>strconv.ParseInt(s, 10, 64)\<close>.\<close>

definition ParseInt64 :: "string \<Rightarrow> int option" where
  "ParseInt64 s =
     (let neg = (s \<noteq> [] \<and> hd s = CHR ''-''); ds = (if s \<noteq> [] \<and> (hd s = CHR ''+'' \<or> hd s = CHR ''-'') then tl s else s) in
      if ds = [] \<or> \<not> list_all isDigit ds then None
      else let n = int (digits_val 0 ds) in
           if \<not> neg \<and> n \<ge> 2 ^ 63 \<or> neg \<and> n > 2 ^ 63 then None else Some (if neg then - n else n))"

section \<open>Facts on dates\<close>

text \<open>The days are numbered from 1970-01-01 on, and each date is one day after the one before it.\<close>

lemma unix_epoch: "unix_days 1970 1 1 = 0"
  by (simp add: unix_days_def isLeap_def)

lemma unix_days_day: "unix_days y m (Suc d) = unix_days y m d + 1"
  by (simp add: unix_days_def)

lemma unix_days_month:
  assumes "1 \<le> m" "m < 12"
  shows "unix_days y (Suc m) 1 = unix_days y m (daysIn m y) + 1"
proof -
  have "m \<in> {1, 2, 3, 4, 5, 6, 7, 8, 9, 10, 11}" using assms by (simp, presburger)
  then show ?thesis by (auto simp: unix_days_def daysIn_def month_lengths_def)
qed

lemma leap_sum:
  fixes a b c :: int
  assumes "a' = a + (if P then 1 else 0)" "b' = b + (if Q then 1 else 0)" "c' = c + (if R then 1 else 0)" "Q \<Longrightarrow> P" "R \<Longrightarrow> Q"
  shows "a' - b' + c' = a - b + c + (if P \<and> (\<not> Q \<or> R) then 1 else 0)"
  unfolding assms(1-3) using assms(4,5) by (cases P; cases Q; cases R) simp_all

lemma div_pred:
  assumes "k > 1"
  shows "int y div int k = (int y - 1) div int k + (if y mod k = 0 then 1 else 0)"
proof -
  define q r where "q = y div k" and "r = y mod k"
  have "y = k * q + r" "r < k" using assms by (simp_all add: q_def r_def)
  then have "int y = int (k * q + r)" by simp
  then have y: "int y = int k * int q + int r" unfolding of_nat_add of_nat_mult .
  have yq: "int y div int k = int q" unfolding q_def by (rule zdiv_int [symmetric])
  have "(int y - 1) div int k = (if r = 0 then int q - 1 else int q)"
  proof (cases "r = 0")
    case True
    then show ?thesis using assms y int_div_pos_eq [of "int y - 1" "int k" "int q - 1" "int k - 1"] by (simp add: algebra_simps)
  next
    case False
    then show ?thesis using y \<open>r < k\<close> int_div_pos_eq [of "int y - 1" "int k" "int q" "int r - 1"] by simp
  qed
  then show ?thesis using yq by (simp add: r_def)
qed

lemma leap_days_next: "leap_days (int y + 1) = leap_days (int y) + (if isLeap y then 1 else 0)"
proof -
  have c: "y mod 100 mod 4 = y mod 4" "y mod 400 mod 100 = y mod 100" by (rule mod_mod_cancel, simp)+
  have sub: "y mod 4 = 0" if "y mod 100 = 0" using c(1) unfolding that by simp
  have sub': "y mod 100 = 0" if "y mod 400 = 0" using c(2) unfolding that by simp
  have divs: "int y div 4 = (int y - 1) div 4 + (if y mod 4 = 0 then 1 else 0)"
    "int y div 100 = (int y - 1) div 100 + (if y mod 100 = 0 then 1 else 0)"
    "int y div 400 = (int y - 1) div 400 + (if y mod 400 = 0 then 1 else 0)"
    by (rule div_pred [of 4 y, unfolded of_nat_numeral] div_pred [of 100 y, unfolded of_nat_numeral]
        div_pred [of 400 y, unfolded of_nat_numeral], simp)+
  show ?thesis
    unfolding leap_days_def isLeap_def add_diff_cancel_right' by (rule leap_sum [OF divs sub sub'])
qed

lemma unix_days_year: "unix_days (Suc y) 1 1 = unix_days y 12 31 + 1"
  using leap_days_next [of y] by (simp add: unix_days_def month_lengths_def algebra_simps)

end
