(* ===== verification/Index_Writer.thy ===== *)
theory Index_Writer
  imports Go_JsonEnc Go_Time Kafka
begin

text \<open>
  The index writer (\<open>services/index-writer/writer.go\<close>): it turns each document of \<open>docs.enriched\<close> into one
  Vespa \<open>document/v1\<close> operation in the group of the document's tenant. The HTTP client is a record of
  operations on a world \<open>'x\<close>, and so is the decimal form of a 32-bit float, which is an argument.
\<close>

section \<open>The model\<close>

record writer =
  wr_vespaURL :: string
  wr_dim :: int
  wr_clipDim :: int

definition newWriter :: "string \<Rightarrow> int \<Rightarrow> int \<Rightarrow> string + writer" where
  "newWriter url dim clipDim =
     (let vespaURL = TrimRight url ''/'' in
      if vespaURL = [] then Inl ''index-writer: vespa url must not be empty''
      else if dim \<le> 0 then Inl (''index-writer: embedding dim must be positive, got '' @ FormatInt dim)
      else if clipDim \<le> 0 then Inl (''index-writer: clip dim must be positive, got '' @ FormatInt clipDim)
      else if dim = clipDim
      then Inl (''index-writer: clip dim ('' @ FormatInt clipDim @ '') must differ from embedding dim ('' @ FormatInt dim @ '')'')
      else Inr \<lparr>wr_vespaURL = vespaURL, wr_dim = dim, wr_clipDim = clipDim\<rparr>)"

definition documentURL :: "writer \<Rightarrow> string \<Rightarrow> string \<Rightarrow> string" where
  "documentURL w tenant docID =
     wr_vespaURL w @ ''/document/v1/asker/doc/group/'' @ PathEscape tenant @ ''/'' @ PathEscape docID"

subsection \<open>Feed fields\<close>

type_synonym vespaTensor = "(string, float32 list) table"

record vespaFields =
  vf_DocID :: string
  vf_ConnectorID :: string
  vf_Type :: string
  vf_Title :: string
  vf_Body :: string
  vf_Chunks :: "string list"
  vf_Embedding :: "vespaTensor option"
  vf_CLIPEmbedding :: "vespaTensor option"
  vf_ChunkStartsMs :: "int list"
  vf_ChunkEndsMs :: "int list"
  vf_ChunkModalities :: "string list"
  vf_Participants :: "string list"
  vf_MetadataJSON :: string
  vf_CreatedAt :: int
  vf_EventStart :: int
  vf_EventEnd :: int
  vf_ModifiedAt :: int
  vf_VersionEtag :: string
  vf_ACL :: "string list"
  vf_MediaDurationMs :: int
  vf_MediaWidth :: int
  vf_MediaHeight :: int
  vf_ThumbnailKey :: string
  vf_TranscriptLang :: string

definition chunkModality :: "Chunk \<Rightarrow> string" where
  "chunkModality c = (if ck_Modality c \<noteq> [] then ck_Modality c else ''text'')"

fun participantStrings :: "Participant list \<Rightarrow> string list" where
  "participantStrings [] = []"
| "participantStrings (p # ps) =
     (let name = (if pt_Name p = [] then pt_Handle p else pt_Name p); email = pt_Email p in
      (if name \<noteq> [] \<and> email \<noteq> [] then [name @ '' <'' @ email @ ''>'']
       else if email \<noteq> [] then [email]
       else if name \<noteq> [] then [name]
       else []) @ participantStrings ps)"

definition eventEpoch :: "string \<Rightarrow> int" where
  "eventEpoch s0 =
     (let s = TrimSpace s0 in
      if s = [] then 0
      else case time_Parse RFC3339 s of
        Some t \<Rightarrow> t
      | None \<Rightarrow>
          (case time_Parse DateTimeT s of
             Some t \<Rightarrow> t
           | None \<Rightarrow>
               (case time_Parse DateOnly s of
                  Some t \<Rightarrow> t
                | None \<Rightarrow> (case ParseInt64 s of Some sec \<Rightarrow> if sec > 0 then sec else 0 | None \<Rightarrow> 0))))"

text \<open>The loop over the chunks: the blocks for each tensor, or the chunk whose vector fits neither.\<close>

fun route_vectors :: "writer \<Rightarrow> string \<Rightarrow> nat \<Rightarrow> Chunk list \<Rightarrow> vespaTensor \<Rightarrow> vespaTensor \<Rightarrow> string + vespaTensor \<times> vespaTensor" where
  "route_vectors w docID i [] text clip = Inr (text, clip)"
| "route_vectors w docID i (c # cs) text clip =
     (let emb = ck_Embedding c; n = int (length emb) in
      if n = 0 then route_vectors w docID (Suc i) cs text clip
      else if n = wr_dim w then route_vectors w docID (Suc i) cs (tbl_put (Itoa i) emb text) clip
      else if n = wr_clipDim w then route_vectors w docID (Suc i) cs text (tbl_put (Itoa i) emb clip)
      else Inl (''index-writer: doc '' @ docID @ '' chunk '' @ Itoa i @ '' (modality '' @ quoted (chunkModality c)
             @ ''): embedding has '' @ FormatInt n @ '' dims, expected EMBEDDING_DIM='' @ FormatInt (wr_dim w)
             @ '' or CLIP_DIM='' @ FormatInt (wr_clipDim w) @ ''; refusing to index''))"

definition text_chunk_count :: "writer \<Rightarrow> Chunk list \<Rightarrow> nat" where
  "text_chunk_count w cs = length (filter (\<lambda>c. int (length (ck_Embedding c)) \<noteq> wr_clipDim w) cs)"

definition created_seconds :: "Document \<Rightarrow> int" where
  "created_seconds doc = (case d_Ts doc of None \<Rightarrow> 0 | Some t \<Rightarrow> (case tm_Created t of None \<Rightarrow> 0 | Some c \<Rightarrow> ts_Seconds c))"

definition modified_seconds :: "Document \<Rightarrow> int" where
  "modified_seconds doc =
     (case d_Ts doc of None \<Rightarrow> created_seconds doc
      | Some t \<Rightarrow> (case tm_Modified t of None \<Rightarrow> created_seconds doc | Some m \<Rightarrow> ts_Seconds m))"

definition buildFields :: "writer \<Rightarrow> Document \<Rightarrow> string + vespaFields" where
  "buildFields w doc =
     (let chunks = d_Chunks doc in
      case route_vectors w (d_DocId doc) 0 chunks [] [] of
        Inl e \<Rightarrow> Inl e
      | Inr (textBlocks, clipBlocks) \<Rightarrow>
          let textChunkCount = text_chunk_count w chunks;
              meta = (case d_Metadata doc of None \<Rightarrow> [] | Some m \<Rightarrow> m);
              media = d_Media doc
          in Inr \<lparr>vf_DocID = d_DocId doc, vf_ConnectorID = d_ConnectorId doc, vf_Type = DocType_String (d_Type doc),
               vf_Title = d_Title doc, vf_Body = d_BodyText doc, vf_Chunks = map ck_Text chunks,
               vf_Embedding = (if textChunkCount > 0 \<and> length textBlocks = textChunkCount then Some textBlocks else None),
               vf_CLIPEmbedding = (if length clipBlocks > 0 then Some clipBlocks else None),
               vf_ChunkStartsMs = map ck_StartMs chunks, vf_ChunkEndsMs = map ck_EndMs chunks,
               vf_ChunkModalities = map chunkModality chunks,
               vf_Participants = participantStrings (d_Participants doc),
               vf_MetadataJSON = json_map json_string meta,
               vf_CreatedAt = created_seconds doc,
               vf_EventStart = eventEpoch (case tbl_get meta ''start'' of None \<Rightarrow> [] | Some s \<Rightarrow> s),
               vf_EventEnd = eventEpoch (case tbl_get meta ''end'' of None \<Rightarrow> [] | Some s \<Rightarrow> s),
               vf_ModifiedAt = modified_seconds doc, vf_VersionEtag = d_VersionEtag doc,
               vf_ACL = (case d_Acl doc of None \<Rightarrow> [] | Some a \<Rightarrow> ac_AllowedPrincipals a),
               vf_MediaDurationMs = (case media of None \<Rightarrow> 0 | Some m \<Rightarrow> mi_DurationMs m),
               vf_MediaWidth = (case media of None \<Rightarrow> 0 | Some m \<Rightarrow> mi_Width m),
               vf_MediaHeight = (case media of None \<Rightarrow> 0 | Some m \<Rightarrow> mi_Height m),
               vf_ThumbnailKey = (case media of None \<Rightarrow> [] | Some m \<Rightarrow> (case mi_Thumbnail m of None \<Rightarrow> [] | Some b \<Rightarrow> br_Key b)),
               vf_TranscriptLang = (case media of None \<Rightarrow> [] | Some m \<Rightarrow> mi_TranscriptLang m)\<rparr>)"

subsection \<open>The feed document\<close>

text \<open>The struct encoder: a field without \<open>omitempty\<close> is always written. Only a vector can fail to encode.\<close>

fun json_floats :: "(float32 \<Rightarrow> string + string) \<Rightarrow> float32 list \<Rightarrow> string + string list" where
  "json_floats enc [] = Inr []"
| "json_floats enc (f # fs) =
     (case enc f of Inl e \<Rightarrow> Inl e
      | Inr x \<Rightarrow> (case json_floats enc fs of Inl e \<Rightarrow> Inl e | Inr xs \<Rightarrow> Inr (x # xs)))"

fun json_blocks :: "(float32 \<Rightarrow> string + string) \<Rightarrow> vespaTensor \<Rightarrow> string + (string \<times> string) list" where
  "json_blocks enc [] = Inr []"
| "json_blocks enc ((k, v) # kvs) =
     (case json_floats enc v of Inl e \<Rightarrow> Inl e
      | Inr xs \<Rightarrow> (case json_blocks enc kvs of Inl e \<Rightarrow> Inl e | Inr fs \<Rightarrow> Inr ((k, json_array xs) # fs)))"

definition json_tensor :: "(float32 \<Rightarrow> string + string) \<Rightarrow> string \<Rightarrow> vespaTensor option \<Rightarrow> string + (string \<times> string) list" where
  "json_tensor enc name t =
     (case t of
        None \<Rightarrow> Inr []
      | Some blocks \<Rightarrow>
          (case json_blocks enc (sort_key fst blocks) of
             Inl e \<Rightarrow> Inl e
           | Inr fs \<Rightarrow> Inr [(name, json_object [(''blocks'', json_object fs)])]))"

definition fld_str :: "string \<Rightarrow> string \<Rightarrow> (string \<times> string) list" where
  "fld_str name s = [(name, json_string s)]"

definition fld_strs :: "string \<Rightarrow> string list \<Rightarrow> (string \<times> string) list" where
  "fld_strs name xs = (if xs = [] then [] else [(name, json_array (map json_string xs))])"

definition fld_ints :: "string \<Rightarrow> int list \<Rightarrow> (string \<times> string) list" where
  "fld_ints name xs = (if xs = [] then [] else [(name, json_array (map FormatInt xs))])"

definition fld_int_opt :: "string \<Rightarrow> int \<Rightarrow> (string \<times> string) list" where
  "fld_int_opt name i = (if i = 0 then [] else [(name, FormatInt i)])"

definition fld_str_opt :: "string \<Rightarrow> string \<Rightarrow> (string \<times> string) list" where
  "fld_str_opt name s = (if s = [] then [] else [(name, json_string s)])"

definition feedDocument_json :: "(float32 \<Rightarrow> string + string) \<Rightarrow> vespaFields \<Rightarrow> string + bytes" where
  "feedDocument_json enc f =
     (case json_tensor enc ''embedding'' (vf_Embedding f) of
        Inl e \<Rightarrow> Inl e
      | Inr emb \<Rightarrow>
          (case json_tensor enc ''clip_embedding'' (vf_CLIPEmbedding f) of
             Inl e \<Rightarrow> Inl e
           | Inr clip \<Rightarrow> Inr (json_object [(''fields'', json_object
               (fld_str ''doc_id'' (vf_DocID f) @ fld_str ''connector_id'' (vf_ConnectorID f) @ fld_str ''type'' (vf_Type f)
                @ fld_str ''title'' (vf_Title f) @ fld_str ''body'' (vf_Body f) @ fld_strs ''chunks'' (vf_Chunks f)
                @ emb @ clip
                @ fld_ints ''chunk_starts_ms'' (vf_ChunkStartsMs f) @ fld_ints ''chunk_ends_ms'' (vf_ChunkEndsMs f)
                @ fld_strs ''chunk_modalities'' (vf_ChunkModalities f) @ fld_strs ''participants'' (vf_Participants f)
                @ fld_str ''metadata_json'' (vf_MetadataJSON f) @ [(''created_at'', FormatInt (vf_CreatedAt f))]
                @ fld_int_opt ''event_start'' (vf_EventStart f) @ fld_int_opt ''event_end'' (vf_EventEnd f)
                @ [(''modified_at'', FormatInt (vf_ModifiedAt f))] @ fld_str ''version_etag'' (vf_VersionEtag f)
                @ fld_strs ''acl'' (vf_ACL f) @ fld_int_opt ''media_duration_ms'' (vf_MediaDurationMs f)
                @ fld_int_opt ''media_width'' (vf_MediaWidth f) @ fld_int_opt ''media_height'' (vf_MediaHeight f)
                @ fld_str_opt ''thumbnail_key'' (vf_ThumbnailKey f) @ fld_str_opt ''transcript_lang'' (vf_TranscriptLang f)))])))"

subsection \<open>Requests\<close>

datatype http_method = POST | DELETE

fun method_text :: "http_method \<Rightarrow> string" where
  "method_text POST = ''POST''"
| "method_text DELETE = ''DELETE''"

text \<open>Building a request can reject the URL; doing it gives a transport error or a status with a body.\<close>

record 'x vespa_http =
  vh_NewRequest_err :: "http_method \<Rightarrow> string \<Rightarrow> string option"
  vh_Do :: "http_method \<Rightarrow> string \<Rightarrow> bytes option \<Rightarrow> 'x \<Rightarrow> (string + int \<times> bytes) \<times> 'x"
  vh_ctx_Err :: "'x \<Rightarrow> string option"

definition errVespaPermanent :: string where
  "errVespaPermanent = ''vespa rejected the request (4xx, permanent)''"

text \<open>Whether a failure may be retried, and the failure.\<close>

definition sendOnce :: "'x vespa_http \<Rightarrow> http_method \<Rightarrow> string \<Rightarrow> bytes option \<Rightarrow> 'x \<Rightarrow> (bool \<times> string option) \<times> 'x" where
  "sendOnce http m url body x =
     (let what = method_text m @ '' '' @ url in
      case vh_NewRequest_err http m url of
        Some e \<Rightarrow> ((False, Some (''index-writer: build '' @ what @ '': '' @ e)), x)
      | None \<Rightarrow>
          (case vh_Do http m url body x of
             (Inl e, x') \<Rightarrow> ((True, Some (''index-writer: '' @ what @ '': '' @ e)), x')
           | (Inr (status, resp), x') \<Rightarrow>
               let respBody = take 4096 resp in
               if 200 \<le> status \<and> status \<le> 299 then ((False, None), x')
               else if 400 \<le> status \<and> status \<le> 499
               then ((False, Some (''index-writer: '' @ what @ '': status '' @ FormatInt status @ '': '' @ respBody @ '': '' @ errVespaPermanent)), x')
               else ((True, Some (''index-writer: '' @ what @ '': status '' @ FormatInt status @ '': '' @ respBody)), x')))"

text \<open>The attempts loop; \<open>left\<close> attempts follow the failed one.\<close>

fun send_attempts :: "'x vespa_http \<Rightarrow> http_method \<Rightarrow> string \<Rightarrow> bytes option \<Rightarrow> nat \<Rightarrow> string option \<Rightarrow> 'x \<Rightarrow> string option \<times> 'x" where
  "send_attempts http m url body 0 lastErr x = (lastErr, x)"
| "send_attempts http m url body (Suc left) lastErr x =
     (case sendOnce http m url body x of
        ((_, None), x') \<Rightarrow> (None, x')
      | ((retryable, Some e), x') \<Rightarrow>
          if \<not> retryable \<or> vh_ctx_Err http x' \<noteq> None then (Some e, x')
          else send_attempts http m url body left (Some e) x')"

definition send :: "'x vespa_http \<Rightarrow> http_method \<Rightarrow> string \<Rightarrow> bytes option \<Rightarrow> 'x \<Rightarrow> string option \<times> 'x" where
  "send http m url body x = send_attempts http m url body 2 None x"

definition writer_Handle :: "'x vespa_http \<Rightarrow> (float32 \<Rightarrow> string + string) \<Rightarrow> writer \<Rightarrow> go_ctx \<Rightarrow> Document \<Rightarrow> 'x \<Rightarrow> string option \<times> 'x" where
  "writer_Handle http enc w ctx doc x =
     (case FromContext ctx of
        Inl e \<Rightarrow> (Some (''index-writer: refusing to index without tenant: '' @ tenancy_err_text e), x)
      | Inr tc \<Rightarrow>
          if tenantID tc \<noteq> d_TenantId doc
          then (Some (''index-writer: context tenant '' @ quoted (tenantID tc) @ '' does not match document tenant ''
                  @ quoted (d_TenantId doc)), x)
          else if d_DocId doc = [] then (Some ''index-writer: document without doc_id'', x)
          else
            let docURL = documentURL w (d_TenantId doc) (d_DocId doc) in
            if get_Deleted doc then send http DELETE docURL None x
            else case buildFields w doc of
                   Inl e \<Rightarrow> (Some e, x)
                 | Inr flds \<Rightarrow>
                     (case feedDocument_json enc flds of
                        Inl e \<Rightarrow> (Some (''index-writer: marshal feed for doc '' @ d_DocId doc @ '': '' @ e), x)
                      | Inr body \<Rightarrow> send http POST docURL (Some body) x))"

section \<open>Facts on vectors\<close>

text \<open>The blocks of one tensor: the chunks whose vector has its length, under their index.\<close>

definition blocks_of :: "int \<Rightarrow> nat \<Rightarrow> Chunk list \<Rightarrow> vespaTensor" where
  "blocks_of d i cs = map (\<lambda>(j, c). (Itoa j, ck_Embedding c)) (filter (\<lambda>(j, c). int (length (ck_Embedding c)) = d) (enumerate i cs))"

definition vec_len :: "Chunk \<Rightarrow> int" where
  "vec_len c = int (length (ck_Embedding c))"

lemma blocks_of_Cons: "blocks_of d i (c # cs) = (if vec_len c = d then [(Itoa i, ck_Embedding c)] else []) @ blocks_of d (Suc i) cs"
  by (simp add: blocks_of_def vec_len_def)

lemma blocks_of_Nil [simp]: "blocks_of d i [] = []"
  by (simp add: blocks_of_def)

lemma put_fresh: "k \<notin> keys t \<Longrightarrow> tbl_put k v t = t @ [(k, v)]"
  by (induction t) auto

lemma route_vectors_ok:
  assumes "0 < wr_dim w" "0 < wr_clipDim w" "wr_dim w \<noteq> wr_clipDim w"
    and "keys text \<subseteq> Itoa ` {..<i}" "keys clip \<subseteq> Itoa ` {..<i}"
  shows "route_vectors w docID i cs text clip = Inr (T, C) \<longleftrightarrow>
    (\<forall>c \<in> set cs. vec_len c \<in> {0, wr_dim w, wr_clipDim w}) \<and>
    T = text @ blocks_of (wr_dim w) i cs \<and> C = clip @ blocks_of (wr_clipDim w) i cs"
  using assms(4,5)
proof (induction cs arbitrary: i "text" clip)
  case Nil
  then show ?case by auto
next
  case (Cons c cs)
  have fresh: "Itoa i \<notin> keys text" "Itoa i \<notin> keys clip" using Cons.prems Itoa_inj by blast+
  have grow: "keys text \<subseteq> Itoa ` {..<Suc i}" "keys clip \<subseteq> Itoa ` {..<Suc i}"
    "keys (tbl_put (Itoa i) v text) \<subseteq> Itoa ` {..<Suc i}" "keys (tbl_put (Itoa i) v clip) \<subseteq> Itoa ` {..<Suc i}" for v
    using Cons.prems by (auto simp: lessThan_Suc)
  consider "vec_len c = 0" | "vec_len c = wr_dim w" | "vec_len c = wr_clipDim w"
    | "vec_len c \<notin> {0, wr_dim w, wr_clipDim w}" by blast
  then show ?case
  proof cases
    case 1
    then show ?thesis using assms(1-3) Cons.IH [OF grow(1,2)] by (simp add: vec_len_def [of c] blocks_of_Cons)
  next
    case 2
    then show ?thesis using assms(1-3) Cons.IH [OF grow(3,2)] fresh
      by (cases "ck_Embedding c = []") (simp_all add: vec_len_def [of c] blocks_of_Cons put_fresh Let_def)
  next
    case 3
    then show ?thesis using assms(1-3) Cons.IH [OF grow(1,4)] fresh
      by (cases "ck_Embedding c = []") (simp_all add: vec_len_def [of c] blocks_of_Cons put_fresh Let_def)
  next
    case 4
    then show ?thesis by (simp add: vec_len_def [of c] Let_def)
  qed
qed

lemma blocks_of_keys: "keys (blocks_of d i cs) = Itoa ` {j. i \<le> j \<and> j < i + length cs \<and> vec_len (cs ! (j - i)) = d}"
proof -
  have "keys (blocks_of d i cs) = Itoa ` fst ` {(j, c) \<in> set (enumerate i cs). vec_len c = d}"
    by (force simp: blocks_of_def vec_len_def)
  also have "fst ` {(j, c) \<in> set (enumerate i cs). vec_len c = d} = {j. i \<le> j \<and> j < i + length cs \<and> vec_len (cs ! (j - i)) = d}"
    by (force simp: in_set_enumerate_eq)
  finally show ?thesis .
qed

lemma blocks_of_wf: "wf_table (blocks_of d i cs)"
proof -
  have "map fst (blocks_of d i cs) = map Itoa (map fst (filter (\<lambda>(j, c). int (length (ck_Embedding c)) = d) (enumerate i cs)))"
    by (simp add: blocks_of_def split_def)
  moreover have "distinct (map fst (filter P (enumerate i cs)))" for P
    by (rule distinct_map_filter) simp
  ultimately show ?thesis using inj_on_subset [OF inj_Itoa] by (simp only: distinct_map) blast
qed

lemma blocks_of_get:
  assumes "i < length cs"
  shows "tbl_get (blocks_of d 0 cs) (Itoa i) = (if vec_len (cs ! i) = d then Some (ck_Embedding (cs ! i)) else None)"
proof (cases "vec_len (cs ! i) = d")
  case True
  then have "(Itoa i, ck_Embedding (cs ! i)) \<in> set (blocks_of d 0 cs)"
    using assms by (force simp: blocks_of_def vec_len_def in_set_enumerate_eq)
  then show ?thesis using in_set_get [OF blocks_of_wf] True by simp
next
  case False
  then have "Itoa i \<notin> keys (blocks_of d 0 cs)" using Itoa_inj by (auto simp: blocks_of_keys)
  then show ?thesis using False by (simp add: get_None_iff)
qed

lemma blocks_of_length: "length (blocks_of d i cs) = length (filter (\<lambda>c. vec_len c = d) cs)"
  by (induction cs arbitrary: i) (simp_all add: blocks_of_Cons)

lemma filter_same_length: "(\<And>x. P x \<Longrightarrow> Q x) \<Longrightarrow> length (filter P xs) = length (filter Q xs) \<Longrightarrow> x \<in> set xs \<Longrightarrow> Q x \<Longrightarrow> P x"
proof (induction xs)
  case (Cons y xs)
  have "length (filter P xs) \<le> length (filter Q xs)" using Cons.prems(1) by (induction xs) auto
  then show ?case using Cons by (auto split: if_splits)
qed simp

lemma newWriter_ok: "newWriter url dim clipDim = Inr w \<Longrightarrow> 0 < wr_dim w \<and> 0 < wr_clipDim w \<and> wr_dim w \<noteq> wr_clipDim w \<and>
    wr_dim w = dim \<and> wr_clipDim w = clipDim"
  by (auto simp: newWriter_def Let_def split: if_splits)

section \<open>Facts on requests\<close>

definition logged_http :: "'x vespa_http \<Rightarrow> ('x \<times> ((http_method \<times> string \<times> bytes option) \<times> (string + int \<times> bytes)) list) vespa_http" where
  "logged_http http = \<lparr>vh_NewRequest_err = vh_NewRequest_err http,
     vh_Do = (\<lambda>m url body (x, l). let (r, x') = vh_Do http m url body x in (r, (x', l @ [((m, url, body), r)]))),
     vh_ctx_Err = (\<lambda>(x, l). vh_ctx_Err http x)\<rparr>"

definition answered_ok :: "string + int \<times> bytes \<Rightarrow> bool" where
  "answered_ok r = (case r of Inl e \<Rightarrow> False | Inr (s, b) \<Rightarrow> 200 \<le> s \<and> s \<le> 299)"

definition retryable_answer :: "string + int \<times> bytes \<Rightarrow> bool" where
  "retryable_answer r = (case r of Inl e \<Rightarrow> True | Inr (s, b) \<Rightarrow> \<not> (200 \<le> s \<and> s \<le> 299) \<and> \<not> (400 \<le> s \<and> s \<le> 499))"

lemma sendOnce_logged:
  assumes "sendOnce (logged_http http) m url body (x, l) = ((rt, e), (x', l'))"
  shows "(l' = l \<and> e \<noteq> None \<and> \<not> rt) \<or>
    (\<exists>r. l' = l @ [((m, url, body), r)] \<and> (e = None \<longleftrightarrow> answered_ok r) \<and> (e \<noteq> None \<longrightarrow> rt = retryable_answer r))"
proof (cases "vh_NewRequest_err http m url")
  case None
  obtain r x1 where d: "vh_Do http m url body x = (r, x1)" by fastforce
  then have "vh_Do (logged_http http) m url body (x, l) = (r, (x1, l @ [((m, url, body), r)]))" by (simp add: logged_http_def)
  moreover have "vh_NewRequest_err (logged_http http) m url = None" using None by (simp add: logged_http_def)
  ultimately show ?thesis using assms
    by (auto simp: sendOnce_def Let_def answered_ok_def retryable_answer_def simp del: append.simps split: sum.splits if_splits)
next
  case (Some e')
  then show ?thesis using assms by (auto simp: sendOnce_def logged_http_def Let_def)
qed

text \<open>A run of requests: the same request each time, a retry only after a retryable answer.\<close>

definition one_request :: "http_method \<Rightarrow> string \<Rightarrow> bytes option \<Rightarrow> nat \<Rightarrow> string option \<Rightarrow>
    ((http_method \<times> string \<times> bytes option) \<times> (string + int \<times> bytes)) list \<Rightarrow> bool" where
  "one_request m url body n r log \<longleftrightarrow> length log \<le> n \<and> (\<forall>q \<in> set log. fst q = (m, url, body)) \<and>
     (\<forall>q \<in> set (butlast log). retryable_answer (snd q)) \<and> (r = None \<longleftrightarrow> log \<noteq> [] \<and> answered_ok (snd (last log)))"

lemma send_attempts_logged:
  assumes "send_attempts (logged_http http) m url body n (Some e0) (x, l) = (r, (x', l'))"
  shows "\<exists>log. l' = l @ log \<and> one_request m url body n r log"
  using assms
proof (induction n arbitrary: e0 x l)
  case 0
  then show ?case by (auto simp: one_request_def)
next
  case (Suc n)
  obtain rt e x1 l1 where so: "sendOnce (logged_http http) m url body (x, l) = ((rt, e), (x1, l1))" by (metis prod.collapse)
  have ctx: "vh_ctx_Err (logged_http http) (x1, l1) = vh_ctx_Err http x1" by (simp add: logged_http_def)
  from sendOnce_logged [OF so] consider (none) "l1 = l" "e \<noteq> None" "\<not> rt"
    | (sent) a where "l1 = l @ [((m, url, body), a)]" "e = None \<longleftrightarrow> answered_ok a" "e \<noteq> None \<longrightarrow> rt = retryable_answer a" by blast
  then show ?case
  proof cases
    case none
    then show ?thesis using Suc.prems so by (auto simp: one_request_def)
  next
    case sent
    show ?thesis
    proof (cases "e = None \<or> \<not> rt \<or> vh_ctx_Err http x1 \<noteq> None")
      case True
      then have "l' = l1" "r = e" using Suc.prems so ctx by (auto split: option.splits)
      then show ?thesis using sent by (auto simp: one_request_def)
    next
      case False
      then obtain e1 where e1: "e = Some e1" by (cases e) auto
      then have "send_attempts (logged_http http) m url body n (Some e1) (x1, l1) = (r, (x', l'))"
        using Suc.prems so ctx False by simp
      from Suc.IH [OF this] obtain log where log: "l' = l1 @ log" "one_request m url body n r log" by blast
      moreover have "retryable_answer a" "\<not> answered_ok a" using sent e1 False by auto
      ultimately show ?thesis
        using sent(1) by (intro exI [of _ "((m, url, body), a) # log"]) (auto simp: one_request_def)
    qed
  qed
qed

lemma send_logged:
  assumes "send (logged_http http) m url body (x, l) = (r, (x', l'))"
  shows "\<exists>log. l' = l @ log \<and> one_request m url body 2 r log"
proof -
  have "send_attempts (logged_http http) m url body 2 (Some []) (x, l) = (r, (x', l'))"
    using assms by (simp add: send_def numeral_2_eq_2)
  then show ?thesis by (rule send_attempts_logged)
qed

lemma documentURL_inj: "documentURL w t d = documentURL w t' d' \<Longrightarrow> t = t' \<and> d = d'"
proof -
  assume "documentURL w t d = documentURL w t' d'"
  then have "PathEscape t @ CHR ''/'' # PathEscape d = PathEscape t' @ CHR ''/'' # PathEscape d'" by (simp add: documentURL_def)
  from sep_append_inj [OF PathEscape_no_slash PathEscape_no_slash this] show ?thesis using PathEscape_inj by blast
qed

text \<open>What the witnesses run on.\<close>

definition sample_writer :: writer where
  "sample_writer = \<lparr>wr_vespaURL = ''http://v'', wr_dim = 2, wr_clipDim = 3\<rparr>"

definition enriched_doc :: Document where
  "enriched_doc = zero_document\<lparr>d_TenantId := ''a'', d_DocId := ''d/1'',
     d_Chunks := [zero_chunk\<lparr>ck_Embedding := [1, 2]\<rparr>, zero_chunk\<lparr>ck_Embedding := [1, 2, 3], ck_Modality := ''ocr''\<rparr>]\<rparr>"

definition flaky_http :: "nat vespa_http" where
  "flaky_http = \<lparr>vh_NewRequest_err = (\<lambda>m u. None), vh_Do = (\<lambda>m u b n. (Inr (if n = 0 then 503 else 200, []), Suc n)),
     vh_ctx_Err = (\<lambda>n. None)\<rparr>"

section \<open>Properties\<close>

definition tensor_typed :: "int \<Rightarrow> Chunk list \<Rightarrow> vespaTensor option \<Rightarrow> bool" where
  "tensor_typed d cs t \<longleftrightarrow>
     (case t of
        None \<Rightarrow> True
      | Some blocks \<Rightarrow> blocks \<noteq> [] \<and> wf_table blocks \<and> keys blocks \<subseteq> Itoa ` {..<length cs} \<and>
          (\<forall>i < length cs. tbl_get blocks (Itoa i) =
             (if int (length (ck_Embedding (cs ! i))) = d then Some (ck_Embedding (cs ! i)) else None)))"

lemma blocks_typed: "blocks_of d 0 cs \<noteq> [] \<Longrightarrow> tensor_typed d cs (Some (blocks_of d 0 cs))"
  using blocks_of_get [of _ cs d] by (auto simp: tensor_typed_def blocks_of_wf blocks_of_keys vec_len_def)

lemma gate_complete:
  assumes "length (blocks_of (wr_dim w) 0 cs) = text_chunk_count w cs" "wr_dim w \<noteq> wr_clipDim w" "c \<in> set cs"
  shows "int (length (ck_Embedding c)) \<in> {wr_dim w, wr_clipDim w}"
  using filter_same_length [of "\<lambda>c. vec_len c = wr_dim w" "\<lambda>c. vec_len c \<noteq> wr_clipDim w" cs c] assms
  by (auto simp: blocks_of_length text_chunk_count_def vec_len_def)

lemma build_inv:
  assumes "0 < wr_dim w" "0 < wr_clipDim w" "wr_dim w \<noteq> wr_clipDim w" "buildFields w doc = Inr f"
  shows "(\<forall>c \<in> set (d_Chunks doc). vec_len c \<in> {0, wr_dim w, wr_clipDim w}) \<and>
    vf_Embedding f = (let b = blocks_of (wr_dim w) 0 (d_Chunks doc); n = text_chunk_count w (d_Chunks doc)
                      in if n > 0 \<and> length b = n then Some b else None) \<and>
    vf_CLIPEmbedding f = (let b = blocks_of (wr_clipDim w) 0 (d_Chunks doc) in if length b > 0 then Some b else None) \<and>
    vf_Chunks f = map ck_Text (d_Chunks doc) \<and> vf_ChunkStartsMs f = map ck_StartMs (d_Chunks doc) \<and>
    vf_ChunkEndsMs f = map ck_EndMs (d_Chunks doc) \<and> vf_ChunkModalities f = map chunkModality (d_Chunks doc) \<and>
    (\<exists>m. vf_MetadataJSON f = json_map json_string m)"
proof -
  obtain T C where rv: "route_vectors w (d_DocId doc) 0 (d_Chunks doc) [] [] = Inr (T, C)"
    using assms(4) by (auto simp: buildFields_def Let_def split: sum.splits)
  with route_vectors_ok [OF assms(1-3), of "[]" 0 "[]" "d_DocId doc" "d_Chunks doc" T C]
  have tc: "\<forall>c \<in> set (d_Chunks doc). vec_len c \<in> {0, wr_dim w, wr_clipDim w}" "T = blocks_of (wr_dim w) 0 (d_Chunks doc)"
      "C = blocks_of (wr_clipDim w) 0 (d_Chunks doc)" by simp_all
  note fe = assms(4) [unfolded buildFields_def Let_def rv sum.case prod.case sum.inject, symmetric]
  show ?thesis unfolding fe Let_def vespaFields.simps tc(2,3) using tc(1) by blast
qed

text \<open>
  C35: what is fed to Vespa fits its schema. With the dimensions a writer is created with, the arrays
  of chunk texts, start times, end times and modalities have one entry per chunk; each tensor that is
  fed is not empty, is indexed by the decimal chunk numbers, and holds for each chunk its vector
  exactly if that has the tensor's dimension; the text tensor is only fed when no chunk lacks a
  vector; and the metadata is valid JSON.
\<close>

theorem feed_well_typed:
  assumes "newWriter url dim clipDim = Inr w" "buildFields w doc = Inr f"
  shows "length (vf_Chunks f) = length (d_Chunks doc) \<and> length (vf_ChunkStartsMs f) = length (d_Chunks doc) \<and>
    length (vf_ChunkEndsMs f) = length (d_Chunks doc) \<and> length (vf_ChunkModalities f) = length (d_Chunks doc) \<and>
    tensor_typed dim (d_Chunks doc) (vf_Embedding f) \<and> tensor_typed clipDim (d_Chunks doc) (vf_CLIPEmbedding f) \<and>
    (vf_Embedding f \<noteq> None \<longrightarrow> (\<forall>c \<in> set (d_Chunks doc). int (length (ck_Embedding c)) \<in> {dim, clipDim})) \<and>
    json_Valid (vf_MetadataJSON f)"
proof -
  have nw: "0 < wr_dim w" "0 < wr_clipDim w" "wr_dim w \<noteq> wr_clipDim w" and dims: "dim = wr_dim w" "clipDim = wr_clipDim w"
    using newWriter_ok [OF assms(1)] by simp_all
  let ?cs = "d_Chunks doc"
  let ?t = "blocks_of (wr_dim w) 0 ?cs" and ?c = "blocks_of (wr_clipDim w) 0 ?cs" and ?n = "text_chunk_count w ?cs"
  note inv = build_inv [OF nw assms(2), unfolded Let_def]
  have none: "tensor_typed d ?cs None" for d by (simp add: tensor_typed_def)
  have "tensor_typed dim ?cs (vf_Embedding f)"
    using inv none blocks_typed [of "wr_dim w" ?cs] unfolding dims by (metis length_greater_0_conv)
  moreover have "tensor_typed clipDim ?cs (vf_CLIPEmbedding f)"
    using inv none blocks_typed [of "wr_clipDim w" ?cs] unfolding dims by (metis length_greater_0_conv)
  moreover have "\<forall>c \<in> set ?cs. int (length (ck_Embedding c)) \<in> {dim, clipDim}" if "vf_Embedding f \<noteq> None"
    using that inv gate_complete [OF _ nw(3)] unfolding dims by (metis (full_types))
  moreover have "json_Valid (vf_MetadataJSON f)" using inv json_map_valid by metis
  ultimately show ?thesis using inv by simp
qed

theorem feed_well_typed_witness:
  "\<exists>f. buildFields sample_writer enriched_doc = Inr f \<and> length (vf_ChunkModalities f) = 2 \<and> vf_Embedding f \<noteq> None \<and>
     tensor_typed 2 (d_Chunks enriched_doc) (vf_Embedding f) \<and> json_Valid (vf_MetadataJSON f)"
proof -
  have nw: "newWriter ''http://v'' 2 3 = Inr sample_writer" by code_simp
  obtain f where f: "buildFields sample_writer enriched_doc = Inr f" "vf_Embedding f \<noteq> None"
    by (simp add: buildFields_def sample_writer_def enriched_doc_def zero_chunk_def text_chunk_count_def Let_def)
  have "length (d_Chunks enriched_doc) = 2" by (simp add: enriched_doc_def)
  then show ?thesis using feed_well_typed [OF nw f(1)] f by auto
qed



end
