(* ===== verification/Go_Net.thy ===== *)
theory Go_Net
  imports Go_Lib
begin

text \<open>
  Addresses of Go's \<open>net\<close> package: an IP is a list of 4 or 16 bytes, with the classification methods, the
  textual forms that \<open>ParseIP\<close>, \<open>ParseCIDR\<close> and \<open>SplitHostPort\<close> read, and membership in a network.
\<close>

unbundle bit_operations_syntax

section \<open>The model\<close>

type_synonym net_ip = "8 word list"

definition v4InV6Prefix :: net_ip where
  "v4InV6Prefix = [0, 0, 0, 0, 0, 0, 0, 0, 0, 0, 0xff, 0xff]"

definition IPv4 :: "8 word \<Rightarrow> 8 word \<Rightarrow> 8 word \<Rightarrow> 8 word \<Rightarrow> net_ip" where
  "IPv4 a b c d = v4InV6Prefix @ [a, b, c, d]"

definition To4 :: "net_ip \<Rightarrow> net_ip option" where
  "To4 ip =
     (if length ip = 4 then Some ip
      else if length ip = 16 \<and> take 12 ip = v4InV6Prefix then Some (drop 12 ip)
      else None)"

definition To16 :: "net_ip \<Rightarrow> net_ip option" where
  "To16 ip = (if length ip = 4 then Some (v4InV6Prefix @ ip) else if length ip = 16 then Some ip else None)"

text \<open>\<open>IP.Equal\<close>: an IPv4 address and its IPv4-mapped form are equal.\<close>

definition ip_Equal :: "net_ip \<Rightarrow> net_ip \<Rightarrow> bool" where
  "ip_Equal a b =
     (if length a = length b then a = b
      else if length a = 4 \<and> length b = 16 then take 12 b = v4InV6Prefix \<and> a = drop 12 b
      else if length a = 16 \<and> length b = 4 then take 12 a = v4InV6Prefix \<and> drop 12 a = b
      else False)"

definition IPv6unspecified :: net_ip where
  "IPv6unspecified = replicate 16 0"

definition IPv6loopback :: net_ip where
  "IPv6loopback = replicate 15 0 @ [1]"

definition IsUnspecified :: "net_ip \<Rightarrow> bool" where
  "IsUnspecified ip = (ip_Equal ip (IPv4 0 0 0 0) \<or> ip_Equal ip IPv6unspecified)"

definition IsLoopback :: "net_ip \<Rightarrow> bool" where
  "IsLoopback ip = (case To4 ip of Some v4 \<Rightarrow> v4 ! 0 = 127 | None \<Rightarrow> ip_Equal ip IPv6loopback)"

definition IsPrivate :: "net_ip \<Rightarrow> bool" where
  "IsPrivate ip =
     (case To4 ip of
        Some v4 \<Rightarrow> v4 ! 0 = 10 \<or> v4 ! 0 = 172 \<and> v4 ! 1 AND 0xf0 = 16 \<or> v4 ! 0 = 192 \<and> v4 ! 1 = 168
      | None \<Rightarrow> length ip = 16 \<and> ip ! 0 AND 0xfe = 0xfc)"

definition IsMulticast :: "net_ip \<Rightarrow> bool" where
  "IsMulticast ip =
     (case To4 ip of
        Some v4 \<Rightarrow> v4 ! 0 AND 0xf0 = 0xe0
      | None \<Rightarrow> length ip = 16 \<and> ip ! 0 = 0xff)"

definition IsInterfaceLocalMulticast :: "net_ip \<Rightarrow> bool" where
  "IsInterfaceLocalMulticast ip = (length ip = 16 \<and> ip ! 0 = 0xff \<and> ip ! 1 AND 0x0f = 0x01)"

definition IsLinkLocalMulticast :: "net_ip \<Rightarrow> bool" where
  "IsLinkLocalMulticast ip =
     (case To4 ip of
        Some v4 \<Rightarrow> v4 ! 0 = 224 \<and> v4 ! 1 = 0 \<and> v4 ! 2 = 0
      | None \<Rightarrow> length ip = 16 \<and> ip ! 0 = 0xff \<and> ip ! 1 AND 0x0f = 0x02)"

definition IsLinkLocalUnicast :: "net_ip \<Rightarrow> bool" where
  "IsLinkLocalUnicast ip =
     (case To4 ip of
        Some v4 \<Rightarrow> v4 ! 0 = 169 \<and> v4 ! 1 = 254
      | None \<Rightarrow> length ip = 16 \<and> ip ! 0 = 0xfe \<and> ip ! 1 AND 0xc0 = 0x80)"

subsection \<open>Reading addresses\<close>

fun split_on :: "char \<Rightarrow> string \<Rightarrow> string list" where
  "split_on c [] = [[]]"
| "split_on c (x # xs) =
     (if x = c then [] # split_on c xs
      else case split_on c xs of p # ps \<Rightarrow> (x # p) # ps | [] \<Rightarrow> [[x]])"

definition dec_digit :: "char \<Rightarrow> bool" where
  "dec_digit c = (CHR ''0'' \<le> c \<and> c \<le> CHR ''9'')"

fun dec_val :: "nat \<Rightarrow> string \<Rightarrow> nat" where
  "dec_val acc [] = acc"
| "dec_val acc (c # cs) = dec_val (10 * acc + (of_char c - 48)) cs"

text \<open>An octet: decimal digits without a leading zero, at most 255.\<close>

definition parse_octet :: "string \<Rightarrow> 8 word option" where
  "parse_octet s =
     (if s = [] \<or> \<not> list_all dec_digit s \<or> length s > 1 \<and> hd s = CHR ''0'' \<or> dec_val 0 s > 255 then None
      else Some (of_nat (dec_val 0 s)))"

definition parseIPv4Fields :: "string \<Rightarrow> net_ip option" where
  "parseIPv4Fields s =
     (case map parse_octet (split_on CHR ''.'' s) of
        [Some a, Some b, Some c, Some d] \<Rightarrow> Some [a, b, c, d]
      | _ \<Rightarrow> None)"

definition hex_value :: "char \<Rightarrow> nat option" where
  "hex_value c =
     (if dec_digit c then Some (of_char c - 48)
      else if CHR ''a'' \<le> c \<and> c \<le> CHR ''f'' then Some (of_char c - 87)
      else if CHR ''A'' \<le> c \<and> c \<le> CHR ''F'' then Some (of_char c - 55)
      else None)"

definition hex_group :: "string \<Rightarrow> string" where
  "hex_group s = takeWhile (\<lambda>c. hex_value c \<noteq> None) s"

definition group_val :: "string \<Rightarrow> nat" where
  "group_val g = foldl (\<lambda>acc c. 16 * acc + (case hex_value c of Some d \<Rightarrow> d | None \<Rightarrow> 0)) 0 g"

text \<open>The loop of \<open>parseIPv6\<close>: the bytes so far, and how many of them precede the ellipsis. At most eight
  rounds; what is left over must be empty.\<close>

fun v6_loop :: "nat \<Rightarrow> string \<Rightarrow> net_ip \<Rightarrow> nat option \<Rightarrow> (net_ip \<times> nat option) option" where
  "v6_loop 0 s ip ell = (if s = [] then Some (ip, ell) else None)"
| "v6_loop (Suc n) s ip ell =
     (if length ip \<ge> 16 then (if s = [] then Some (ip, ell) else None)
      else
        let g = hex_group s; rest = drop (length g) s in
        if g = [] \<or> length g > 4 then None
        else if rest \<noteq> [] \<and> hd rest = CHR ''.'' then
          (if ell = None \<and> length ip \<noteq> 12 \<or> length ip + 4 > 16 then None
           else case parseIPv4Fields s of None \<Rightarrow> None | Some v4 \<Rightarrow> Some (ip @ v4, ell))
        else
          let ip' = ip @ [of_nat (group_val g div 256), of_nat (group_val g mod 256)] in
          if rest = [] then Some (ip', ell)
          else if hd rest \<noteq> CHR '':'' \<or> length rest = 1 then None
          else
            let s' = tl rest in
            if hd s' = CHR '':'' then
              (if ell \<noteq> None then None
               else if tl s' = [] then Some (ip', Some (length ip'))
               else v6_loop n (tl s') ip' (Some (length ip')))
            else v6_loop n s' ip' ell)"

text \<open>Zones are refused by \<open>net\<close>, so a percent sign is.\<close>

definition parseIPv6 :: "string \<Rightarrow> net_ip option" where
  "parseIPv6 s =
     (if CHR ''%'' \<in> set s then None
      else
        let lead = HasPrefix s ''::''; body = (if lead then drop 2 s else s) in
        if lead \<and> body = [] then Some IPv6unspecified
        else case v6_loop 8 body [] (if lead then Some 0 else None) of
               None \<Rightarrow> None
             | Some (ip, ell) \<Rightarrow>
                 if length ip < 16 then
                   (case ell of
                      None \<Rightarrow> None
                    | Some e \<Rightarrow> Some (take e ip @ replicate (16 - length ip) 0 @ drop e ip))
                 else if ell \<noteq> None then None
                 else Some ip)"

text \<open>\<open>netip.ParseAddr\<close>: the first dot or colon decides the family. The result is the IPv4 bytes or the IPv6
  bytes, kept apart.\<close>

datatype addr = Addr4 net_ip | Addr6 net_ip

fun first_of :: "string \<Rightarrow> char option" where
  "first_of [] = None"
| "first_of (c # cs) = (if c = CHR ''.'' \<or> c = CHR '':'' \<or> c = CHR ''%'' then Some c else first_of cs)"

definition ParseAddr :: "string \<Rightarrow> addr option" where
  "ParseAddr s =
     (case first_of s of
        Some c \<Rightarrow>
          if c = CHR ''.'' then map_option Addr4 (parseIPv4Fields s)
          else if c = CHR '':'' then map_option Addr6 (parseIPv6 s)
          else None
      | None \<Rightarrow> None)"

text \<open>\<open>net.ParseIP\<close> returns the 16-byte form.\<close>

definition ParseIP :: "string \<Rightarrow> net_ip option" where
  "ParseIP s =
     (case ParseAddr s of
        None \<Rightarrow> None
      | Some (Addr4 b) \<Rightarrow> Some (v4InV6Prefix @ b)
      | Some (Addr6 b) \<Rightarrow> Some b)"

subsection \<open>Networks\<close>

record IPNet =
  n_IP :: net_ip
  n_Mask :: net_ip

definition CIDRMask :: "nat \<Rightarrow> nat \<Rightarrow> net_ip" where
  "CIDRMask ones bytes =
     map (\<lambda>i. if ones \<ge> 8 * (i + 1) then 0xff else if ones \<le> 8 * i then 0 else NOT (mask (8 - (ones - 8 * i)))) [0..<bytes]"

definition mask_ip :: "net_ip \<Rightarrow> net_ip \<Rightarrow> net_ip" where
  "mask_ip ip m = map2 (AND) ip m"

definition ParseCIDR :: "string \<Rightarrow> IPNet option" where
  "ParseCIDR s =
     (case IndexByte s CHR ''/'' of
        None \<Rightarrow> None
      | Some i \<Rightarrow>
          let m = drop (Suc i) s; ones = dec_val 0 m in
          if m = [] \<or> \<not> list_all dec_digit m then None
          else case ParseAddr (take i s) of
                 None \<Rightarrow> None
               | Some (Addr4 b) \<Rightarrow> if ones > 32 then None else Some \<lparr>n_IP = mask_ip b (CIDRMask ones 4), n_Mask = CIDRMask ones 4\<rparr>
               | Some (Addr6 b) \<Rightarrow> if ones > 128 then None else Some \<lparr>n_IP = mask_ip b (CIDRMask ones 16), n_Mask = CIDRMask ones 16\<rparr>)"

definition IPNet_Contains :: "IPNet \<Rightarrow> net_ip \<Rightarrow> bool" where
  "IPNet_Contains n ip0 =
     (let nn = (case To4 (n_IP n) of Some v \<Rightarrow> v | None \<Rightarrow> n_IP n);
          m = (if length (n_Mask n) = 16 \<and> length nn = 4 then drop 12 (n_Mask n) else n_Mask n);
          ip = (case To4 ip0 of Some v \<Rightarrow> v | None \<Rightarrow> ip0)
      in length nn \<in> {4, 16} \<and> length m = length nn \<and> length ip = length nn \<and> mask_ip nn m = mask_ip ip m)"

text \<open>\<open>net.SplitHostPort\<close>: the host, or \<open>None\<close> for the errors.\<close>

definition last_colon :: "string \<Rightarrow> nat option" where
  "last_colon s = LastIndex s '':''"

definition SplitHostPort_host :: "string \<Rightarrow> string option" where
  "SplitHostPort_host hp =
     (case last_colon hp of
        None \<Rightarrow> None
      | Some i \<Rightarrow>
          if hd hp = CHR ''['' then
            (case IndexByte hp CHR '']'' of
               None \<Rightarrow> None
             | Some e \<Rightarrow>
                 if Suc e \<noteq> i then None
                 else if CHR ''['' \<in> set (drop 1 hp) \<or> CHR '']'' \<in> set (drop (Suc e) hp) then None
                 else Some (take (e - 1) (drop 1 hp)))
          else if CHR '':'' \<in> set (take i hp) then None
          else if CHR ''['' \<in> set hp \<or> CHR '']'' \<in> set hp then None
          else Some (take i hp))"

section \<open>Facts on masked bytes\<close>

lemma and_high: "b AND NOT (mask n) = push_bit n (drop_bit n b)" for b :: "8 word"
  by (rule bit_eqI) (auto simp: bit_simps)

lemma drop_high: "drop_bit n (b AND NOT (mask n)) = drop_bit n b" for b :: "8 word"
  by (rule bit_eqI) (auto simp: bit_simps dest: bit_imp_le_length)

lemma unat_drop: "unat (drop_bit n b) = unat b div 2 ^ n" for b :: "8 word"
  by (simp only: unat_drop_bit_eq) (rule drop_bit_eq_div)

lemma and_high_eq:
  "b AND NOT (mask n) = c AND NOT (mask n) \<longleftrightarrow> unat b div 2 ^ n = unat c div 2 ^ n" for b c :: "8 word"
proof
  assume "b AND NOT (mask n) = c AND NOT (mask n)"
  then have "drop_bit n (b AND NOT (mask n)) = drop_bit n (c AND NOT (mask n))" by simp
  then have "drop_bit n b = drop_bit n c" by (simp only: drop_high)
  then have "unat (drop_bit n b) = unat (drop_bit n c)" by simp
  then show "unat b div 2 ^ n = unat c div 2 ^ n" by (simp only: unat_drop)
next
  assume "unat b div 2 ^ n = unat c div 2 ^ n"
  then have "unat (drop_bit n b) = unat (drop_bit n c)" by (simp only: unat_drop)
  then have "drop_bit n b = drop_bit n c" by (rule word_unat_eq_iff [THEN iffD2])
  then show "b AND NOT (mask n) = c AND NOT (mask n)" by (simp add: and_high)
qed

end
