(* ===== verification/Safe_Http.thy ===== *)
theory Safe_Http
  imports Go_Net
begin

text \<open>
  The guarded HTTP client for tenant-supplied URLs (\<open>platform/safehttp\<close>): options, the guard's decisions
  on addresses, hosts and redirects, and the client that applies them on every request and every dial.
  The process environment, the resolver, the network and the servers are arguments.
\<close>

section \<open>The model\<close>

definition defaultDialTimeout :: int where "defaultDialTimeout = 10 * 1000000000"
definition defaultTimeout :: int where "defaultTimeout = 30 * 1000000000"
definition defaultMaxRedirects :: int where "defaultMaxRedirects = 5"
definition DefaultMaxResponseBytes :: int where "DefaultMaxResponseBytes = 64 * 2 ^ 20"

definition envAllowPrivate :: string where "envAllowPrivate = ''ASKER_SAFEHTTP_ALLOW_PRIVATE''"
definition envExtraDenyCIDR :: string where "envExtraDenyCIDR = ''ASKER_SAFEHTTP_EXTRA_DENY_CIDRS''"
definition envAllowHosts :: string where "envAllowHosts = ''ASKER_SAFEHTTP_ALLOW_HOSTS''"

text \<open>The reasons to refuse; all but the last five wrap \<open>ErrBlockedAddress\<close>.\<close>

datatype safe_error =
    NilIP | MetadataIP net_ip | UnspecifiedIP net_ip | ReservedIP net_ip | DeniedCIDR net_ip | LoopbackIP net_ip
  | LinkLocalIP net_ip | LinkLocalMulticastIP net_ip | InterfaceLocalIP net_ip | MulticastIP net_ip | PrivateIP net_ip
  | UniqueLocalIP net_ip | HostNotAllowed string | Unresolved string | GuardUnavailable
  | BlockedScheme string | TooManyRedirects int | ErrUseLastResponse | UnsupportedScheme string | DialFailed

definition metadataIP :: net_ip where
  "metadataIP = IPv4 169 254 169 254"

definition nat64Prefix :: net_ip where
  "nat64Prefix = [0x00, 0x64, 0xff, 0x9b, 0, 0, 0, 0, 0, 0, 0, 0]"

text \<open>\<open>None\<close> is the panic at package initialization.\<close>

fun mustParseCIDRs :: "string list \<Rightarrow> IPNet list option" where
  "mustParseCIDRs [] = Some []"
| "mustParseCIDRs (c # cs) =
     (case ParseCIDR c of
        None \<Rightarrow> None
      | Some n \<Rightarrow> map_option ((#) n) (mustParseCIDRs cs))"

definition builtinDeniedCIDRs :: "IPNet list" where
  "builtinDeniedCIDRs =
     (case mustParseCIDRs [''100.64.0.0/10'', ''192.0.0.0/24'', ''198.18.0.0/15'', ''240.0.0.0/4''] of Some ns \<Rightarrow> ns | None \<Rightarrow> [])"

subsection \<open>Options\<close>

record Options =
  o_AllowPrivate :: bool
  o_ExtraDenyCIDRs :: "string list"
  o_AllowHosts :: "string list"
  o_Timeout :: int
  o_DialTimeout :: int
  o_MaxRedirects :: int
  o_allowAllForTest :: bool

definition zero_options :: Options where
  "zero_options = \<lparr>o_AllowPrivate = False, o_ExtraDenyCIDRs = [], o_AllowHosts = [], o_Timeout = 0, o_DialTimeout = 0,
     o_MaxRedirects = 0, o_allowAllForTest = False\<rparr>"

type_synonym Option = "Options \<Rightarrow> Options"

definition WithAllowPrivate :: "bool \<Rightarrow> Option" where "WithAllowPrivate allow po = po\<lparr>o_AllowPrivate := allow\<rparr>"
definition WithExtraDenyCIDRs :: "string list \<Rightarrow> Option" where
  "WithExtraDenyCIDRs cidrs po = po\<lparr>o_ExtraDenyCIDRs := o_ExtraDenyCIDRs po @ cidrs\<rparr>"
definition WithAllowHosts :: "string list \<Rightarrow> Option" where
  "WithAllowHosts hosts po = po\<lparr>o_AllowHosts := o_AllowHosts po @ hosts\<rparr>"
definition WithTimeout :: "int \<Rightarrow> Option" where "WithTimeout d po = po\<lparr>o_Timeout := d\<rparr>"
definition WithDialTimeout :: "int \<Rightarrow> Option" where "WithDialTimeout d po = po\<lparr>o_DialTimeout := d\<rparr>"
definition WithMaxRedirects :: "int \<Rightarrow> Option" where "WithMaxRedirects n po = po\<lparr>o_MaxRedirects := n\<rparr>"

text \<open>\<open>strings.ToLower\<close> on ASCII; the bytes of other runes are kept, as host names on the wire are ASCII.\<close>

definition lower_byte :: "char \<Rightarrow> char" where
  "lower_byte c = (if CHR ''A'' \<le> c \<and> c \<le> CHR ''Z'' then char_of (of_char c + 32 :: nat) else c)"

definition ToLower :: "string \<Rightarrow> string" where
  "ToLower s = map lower_byte s"

definition envTrue :: "string \<Rightarrow> bool" where
  "envTrue v = (ToLower (TrimSpace v) \<in> {''1'', ''true'', ''yes'', ''on''})"

definition splitlist :: "string \<Rightarrow> string list" where
  "splitlist s = filter (\<lambda>p. p \<noteq> []) (map TrimSpace (split_on CHR '','' s))"

definition resolveOptions :: "(string \<Rightarrow> string) \<Rightarrow> Options \<Rightarrow> Options" where
  "resolveOptions getenv o0 =
     (let o1 = (if \<not> o_AllowPrivate o0 \<and> envTrue (getenv envAllowPrivate) then o0\<lparr>o_AllowPrivate := True\<rparr> else o0);
          deny = TrimSpace (getenv envExtraDenyCIDR);
          o2 = (if deny \<noteq> [] then o1\<lparr>o_ExtraDenyCIDRs := o_ExtraDenyCIDRs o1 @ splitlist deny\<rparr> else o1);
          hosts = TrimSpace (getenv envAllowHosts);
          o3 = (if hosts \<noteq> [] then o2\<lparr>o_AllowHosts := o_AllowHosts o2 @ splitlist hosts\<rparr> else o2);
          o4 = (if o_Timeout o3 = 0 then o3\<lparr>o_Timeout := defaultTimeout\<rparr> else o3);
          o5 = (if o_DialTimeout o4 = 0 then o4\<lparr>o_DialTimeout := defaultDialTimeout\<rparr> else o4)
      in if o_MaxRedirects o5 = 0 then o5\<lparr>o_MaxRedirects := defaultMaxRedirects\<rparr> else o5)"

text \<open>The process: its environment, and whether it is a test binary that opted in to loopback.\<close>

record process =
  pr_Getenv :: "string \<Rightarrow> string"
  pr_Testing :: bool
  pr_testLoopbackOptIn :: bool

definition testLoopbackAllowed :: "process \<Rightarrow> bool" where
  "testLoopbackAllowed pr = (pr_Testing pr \<and> pr_testLoopbackOptIn pr)"

definition SetTestingAllowLoopback :: "bool \<Rightarrow> process \<Rightarrow> process" where
  "SetTestingAllowLoopback allow pr = (if pr_Testing pr then pr\<lparr>pr_testLoopbackOptIn := allow\<rparr> else pr)"

definition buildOptions :: "process \<Rightarrow> Option list \<Rightarrow> Options" where
  "buildOptions pr opts =
     (let o1 = foldl (\<lambda>po opt. opt po) zero_options opts;
          o2 = (if testLoopbackAllowed pr then o1\<lparr>o_AllowPrivate := True\<rparr> else o1)
      in resolveOptions (pr_Getenv pr) o2)"

subsection \<open>The guard\<close>

record guard =
  g_allowPrivate :: bool
  g_allowAll :: bool
  g_extraDeny :: "IPNet list"
  g_allowHosts :: "string list"

fun parse_extra :: "string list \<Rightarrow> string + IPNet list" where
  "parse_extra [] = Inr []"
| "parse_extra (c0 # cs) =
     (let c = TrimSpace c0 in
      if c = [] then parse_extra cs
      else case ParseCIDR c of
             None \<Rightarrow> Inl (''safehttp: invalid extra-deny CIDR '' @ quoted c)
           | Some n \<Rightarrow> (case parse_extra cs of Inl e \<Rightarrow> Inl e | Inr ns \<Rightarrow> Inr (n # ns)))"

definition newGuard :: "Options \<Rightarrow> string + guard" where
  "newGuard po =
     (case parse_extra (o_ExtraDenyCIDRs po) of
        Inl e \<Rightarrow> Inl e
      | Inr ns \<Rightarrow> Inr \<lparr>g_allowPrivate = o_AllowPrivate po, g_allowAll = o_allowAllForTest po, g_extraDeny = ns,
          g_allowHosts = filter (\<lambda>h. h \<noteq> []) (map (\<lambda>h. TrimSpace (ToLower h)) (o_AllowHosts po))\<rparr>)"

definition cidrContains :: "IPNet list \<Rightarrow> net_ip \<Rightarrow> bool" where
  "cidrContains nets ip = list_ex (\<lambda>n. IPNet_Contains n ip) nets"

definition extraDenied :: "guard \<Rightarrow> net_ip \<Rightarrow> bool" where
  "extraDenied g ip = cidrContains (g_extraDeny g) ip"

definition embeddedNAT64 :: "net_ip \<Rightarrow> net_ip option" where
  "embeddedNAT64 ip =
     (case To16 ip of
        None \<Rightarrow> None
      | Some v6 \<Rightarrow>
          if To4 ip \<noteq> None then None
          else if take (length nat64Prefix) v6 \<noteq> nat64Prefix then None
          else Some (IPv4 (v6 ! 12) (v6 ! 13) (v6 ! 14) (v6 ! 15)))"

definition isULA :: "net_ip \<Rightarrow> bool" where
  "isULA ip =
     (case To16 ip of
        None \<Rightarrow> False
      | Some v6 \<Rightarrow> if To4 ip \<noteq> None then False else v6 ! 0 AND 0xfe = 0xfc)"

lemma embedded_is_v4: "embeddedNAT64 ip = Some v \<Longrightarrow> embeddedNAT64 v = None"
  by (auto simp: embeddedNAT64_def To4_def To16_def IPv4_def v4InV6Prefix_def split: option.splits if_splits)

function checkIP :: "guard \<Rightarrow> net_ip \<Rightarrow> safe_error option" where
  "checkIP g ip0 =
     (if g_allowAll g then None
      else if ip0 = [] then Some NilIP
      else case embeddedNAT64 ip0 of
        Some v4 \<Rightarrow> checkIP g v4
      | None \<Rightarrow>
          let ip = (case To4 ip0 of Some v4 \<Rightarrow> v4 | None \<Rightarrow> ip0) in
          if ip_Equal ip metadataIP then Some (MetadataIP ip)
          else if IsUnspecified ip then Some (UnspecifiedIP ip)
          else if cidrContains builtinDeniedCIDRs ip then Some (ReservedIP ip)
          else if extraDenied g ip then Some (DeniedCIDR ip)
          else if g_allowPrivate g then None
          else if IsLoopback ip then Some (LoopbackIP ip)
          else if IsLinkLocalUnicast ip then Some (LinkLocalIP ip)
          else if IsLinkLocalMulticast ip then Some (LinkLocalMulticastIP ip)
          else if IsInterfaceLocalMulticast ip then Some (InterfaceLocalIP ip)
          else if IsMulticast ip then Some (MulticastIP ip)
          else if IsPrivate ip then Some (PrivateIP ip)
          else if isULA ip then Some (UniqueLocalIP ip)
          else None)"
  by pat_completeness auto
termination
  by (relation "measure (\<lambda>(g, ip). if embeddedNAT64 ip = None then 0 else 1)") (auto simp: embedded_is_v4)

declare checkIP.simps [simp del]

definition checkHost :: "guard \<Rightarrow> string \<Rightarrow> safe_error option" where
  "checkHost g host =
     (if g_allowAll g \<or> g_allowHosts g = [] then None
      else if ToLower host \<in> set (g_allowHosts g) then None
      else Some (HostNotAllowed host))"

definition control :: "guard \<Rightarrow> string \<Rightarrow> safe_error option" where
  "control g address =
     (let host = (case SplitHostPort_host address of Some h \<Rightarrow> h | None \<Rightarrow> address) in
      case ParseIP host of
        None \<Rightarrow> Some (Unresolved host)
      | Some ip \<Rightarrow> checkIP g ip)"

subsection \<open>Transports and clients\<close>

record http_url =
  u_Scheme :: string
  u_Hostname :: string

text \<open>A guarded transport: the hook of its dialer, and whether proxies or a TLS dialer of its own are set.\<close>

record transport =
  tr_guard :: guard
  tr_DialTimeout :: int
  tr_Proxy :: bool
  tr_DialTLSContext :: bool

definition NewTransport :: "process \<Rightarrow> Option list \<Rightarrow> string + transport" where
  "NewTransport pr opts =
     (let po = buildOptions pr opts in
      case newGuard po of
        Inl e \<Rightarrow> Inl e
      | Inr g \<Rightarrow> Inr \<lparr>tr_guard = g, tr_DialTimeout = o_DialTimeout po, tr_Proxy = False, tr_DialTLSContext = False\<rparr>)"

text \<open>A round tripper: the transport, with the host guard around it if there is an allowlist; or one that
  refuses every request.\<close>

datatype round_tripper = Plain transport | HostGuarded guard transport | RefuseAll

definition hostGuarded :: "guard \<Rightarrow> transport \<Rightarrow> round_tripper" where
  "hostGuarded g rt = (if g_allowHosts g = [] then Plain rt else HostGuarded g rt)"

record http_client =
  c_Transport :: round_tripper
  c_Timeout :: int
  c_guard :: guard
  c_maxRedirects :: int

definition NewClient :: "process \<Rightarrow> Option list \<Rightarrow> string + http_client" where
  "NewClient pr opts =
     (let po = buildOptions pr opts in
      case newGuard po of
        Inl e \<Rightarrow> Inl e
      | Inr g \<Rightarrow>
          (case NewTransport pr opts of
             Inl e \<Rightarrow> Inl e
           | Inr tr \<Rightarrow> Inr \<lparr>c_Transport = hostGuarded g tr, c_Timeout = o_Timeout po, c_guard = g, c_maxRedirects = o_MaxRedirects po\<rparr>))"

definition refuse_client :: http_client where
  "refuse_client = \<lparr>c_Transport = RefuseAll, c_Timeout = 0,
     c_guard = \<lparr>g_allowPrivate = False, g_allowAll = False, g_extraDeny = [], g_allowHosts = []\<rparr>, c_maxRedirects = 10\<rparr>"

definition NewClientOrDefault :: "process \<Rightarrow> Option list \<Rightarrow> http_client" where
  "NewClientOrDefault pr opts =
     (case NewClient pr opts of
        Inr c \<Rightarrow> c
      | Inl e \<Rightarrow> (case NewClient pr [] of Inr c \<Rightarrow> c | Inl e \<Rightarrow> refuse_client))"

definition GuardedBase :: "process \<Rightarrow> Option list \<Rightarrow> round_tripper" where
  "GuardedBase pr opts =
     (let finish = (\<lambda>po tr. case newGuard po of Inl e \<Rightarrow> Plain tr | Inr g \<Rightarrow> hostGuarded g tr) in
      case NewTransport pr opts of
        Inr tr \<Rightarrow> finish (buildOptions pr opts) tr
      | Inl e \<Rightarrow> (case NewTransport pr [] of Inl e \<Rightarrow> RefuseAll | Inr tr \<Rightarrow> finish zero_options tr))"

definition checkRedirect :: "guard \<Rightarrow> int \<Rightarrow> http_url \<Rightarrow> nat \<Rightarrow> safe_error option" where
  "checkRedirect g mx url via =
     (if mx < 0 then Some ErrUseLastResponse
      else if int via \<ge> mx then Some (TooManyRedirects mx)
      else if ToLower (u_Scheme url) \<noteq> ''http'' \<and> ToLower (u_Scheme url) \<noteq> ''https'' then Some (BlockedScheme (u_Scheme url))
      else checkHost g (u_Hostname url))"

definition ReadResponse :: "bytes \<Rightarrow> int \<Rightarrow> bytes" where
  "ReadResponse body mx = take (nat (if mx \<le> 0 then DefaultMaxResponseBytes else mx)) body"

subsection \<open>Requests\<close>

text \<open>
  The network: the addresses a request would dial, resolved and in the order tried, or \<open>None\<close> if an open
  connection is reused; whether a connection comes about; and the server's reply. The loops of the
  dialer and of \<open>http.Client.Do\<close> are those of the standard library, with the client's hooks in place.
\<close>

datatype reply = Final | RedirectTo http_url

record 'x network =
  nw_addresses :: "http_url \<Rightarrow> 'x \<Rightarrow> string list option \<times> 'x"
  nw_connect :: "string \<Rightarrow> 'x \<Rightarrow> bool \<times> 'x"
  nw_exchange :: "http_url \<Rightarrow> 'x \<Rightarrow> (safe_error + reply) \<times> 'x"

fun dialSerial :: "guard \<Rightarrow> 'x network \<Rightarrow> string list \<Rightarrow> safe_error option \<Rightarrow> 'x \<Rightarrow> safe_error option \<times> 'x" where
  "dialSerial g net [] firstErr x = (Some (case firstErr of Some e \<Rightarrow> e | None \<Rightarrow> DialFailed), x)"
| "dialSerial g net (a # as) firstErr x =
     (let failed = (\<lambda>e. Some (case firstErr of Some e0 \<Rightarrow> e0 | None \<Rightarrow> e)) in
      case control g a of
        Some e \<Rightarrow> dialSerial g net as (failed e) x
      | None \<Rightarrow>
          (case nw_connect net a x of
             (True, x') \<Rightarrow> (None, x')
           | (False, x') \<Rightarrow> dialSerial g net as (failed DialFailed) x'))"

definition transport_RoundTrip :: "transport \<Rightarrow> 'x network \<Rightarrow> http_url \<Rightarrow> 'x \<Rightarrow> (safe_error + reply) \<times> 'x" where
  "transport_RoundTrip tr net url x =
     (if u_Scheme url \<noteq> ''http'' \<and> u_Scheme url \<noteq> ''https'' then (Inl (UnsupportedScheme (u_Scheme url)), x)
      else case nw_addresses net url x of
        (None, x1) \<Rightarrow> nw_exchange net url x1
      | (Some addrs, x1) \<Rightarrow>
          (case dialSerial (tr_guard tr) net addrs None x1 of
             (Some e, x2) \<Rightarrow> (Inl e, x2)
           | (None, x2) \<Rightarrow> nw_exchange net url x2))"

definition RoundTrip :: "round_tripper \<Rightarrow> 'x network \<Rightarrow> http_url \<Rightarrow> 'x \<Rightarrow> (safe_error + reply) \<times> 'x" where
  "RoundTrip rt net url x =
     (case rt of
        RefuseAll \<Rightarrow> (Inl GuardUnavailable, x)
      | Plain tr \<Rightarrow> transport_RoundTrip tr net url x
      | HostGuarded g tr \<Rightarrow>
          (case checkHost g (u_Hostname url) of
             Some e \<Rightarrow> (Inl e, x)
           | None \<Rightarrow> transport_RoundTrip tr net url x))"

text \<open>\<open>via\<close> counts the requests made so far.\<close>

lemma redirect_decreases: "checkRedirect g mx url (Suc via) = None \<Longrightarrow> nat (mx - int (Suc via)) < nat (mx - int via)"
  by (auto simp: checkRedirect_def split: if_splits)

function client_Do :: "http_client \<Rightarrow> 'x network \<Rightarrow> http_url \<Rightarrow> nat \<Rightarrow> 'x \<Rightarrow> (safe_error + reply) \<times> 'x" where
  "client_Do c net url via x =
     (case RoundTrip (c_Transport c) net url x of
        (Inl e, x') \<Rightarrow> (Inl e, x')
      | (Inr Final, x') \<Rightarrow> (Inr Final, x')
      | (Inr (RedirectTo u), x') \<Rightarrow>
          (case checkRedirect (c_guard c) (c_maxRedirects c) u (Suc via) of
             None \<Rightarrow> client_Do c net u (Suc via) x'
           | Some e \<Rightarrow> if e = ErrUseLastResponse then (Inr (RedirectTo u), x') else (Inl e, x')))"
  by pat_completeness auto
termination
  by (relation "measure (\<lambda>(c, net, url, via, x). nat (c_maxRedirects c - int via))") (auto dest: redirect_decreases)

declare client_Do.simps [simp del]

end
