(* ===== verification/Safe_Http_Facts.thy ===== *)
theory Safe_Http_Facts
  imports Safe_Http
begin

unbundle bit_operations_syntax

text \<open>
  Facts on the guarded HTTP client: the decision on addresses agrees with a list of number ranges, and a
  request only ever connects to addresses outside those ranges, whatever the resolver and the servers do.
\<close>

section \<open>The addresses that are refused, as ranges of numbers\<close>

fun ip_num :: "net_ip \<Rightarrow> nat" where
  "ip_num [] = 0"
| "ip_num (b # bs) = unat b * 256 ^ length bs + ip_num bs"

definition quad :: "nat \<Rightarrow> nat \<Rightarrow> nat \<Rightarrow> nat \<Rightarrow> nat" where
  "quad a b c d = ((a * 256 + b) * 256 + c) * 256 + d"

text \<open>\<open>n\<close> lies in the network with the given base and prefix length.\<close>

definition in_prefix :: "nat \<Rightarrow> nat \<Rightarrow> nat \<times> nat \<Rightarrow> bool" where
  "in_prefix bits n p = (n div 2 ^ (bits - snd p) = fst p div 2 ^ (bits - snd p))"

definition always_v4 :: "(nat \<times> nat) list" where
  "always_v4 = [(quad 169 254 169 254, 32), (quad 0 0 0 0, 32), (quad 100 64 0 0, 10), (quad 192 0 0 0, 24),
     (quad 198 18 0 0, 15), (quad 240 0 0 0, 4)]"

definition private_v4 :: "(nat \<times> nat) list" where
  "private_v4 = [(quad 127 0 0 0, 8), (quad 169 254 0 0, 16), (quad 224 0 0 0, 4), (quad 10 0 0 0, 8), (quad 172 16 0 0, 12),
     (quad 192 168 0 0, 16)]"

definition always_v6 :: "(nat \<times> nat) list" where
  "always_v6 = [(0, 128)]"

definition private_v6 :: "(nat \<times> nat) list" where
  "private_v6 = [(1, 128), (0xfe80 * 2 ^ 112, 10), (0xff * 2 ^ 120, 8), (0xfc * 2 ^ 120, 7)]"

text \<open>The IPv4 address an address stands for, as its last four bytes: itself, an IPv4-mapped one or one behind
  the NAT64 prefix \<open>64:ff9b::/96\<close>.\<close>

definition canon :: "net_ip \<Rightarrow> net_ip" where
  "canon ip =
     (if length ip = 16 \<and> (ip_num ip div 2 ^ 32 = 0xffff \<or> ip_num ip div 2 ^ 32 = 0x64ff9b * 2 ^ 64) then drop 12 ip else ip)"

definition forbidden :: "guard \<Rightarrow> net_ip \<Rightarrow> bool" where
  "forbidden g ip =
     (let a = canon ip in
      cidrContains (g_extraDeny g) a \<or>
      (if length a = 4
       then list_ex (in_prefix 32 (ip_num a)) (always_v4 @ (if g_allowPrivate g then [] else private_v4))
       else list_ex (in_prefix 128 (ip_num a)) (always_v6 @ (if g_allowPrivate g then [] else private_v6))))"

lemma byte_less: "unat b < 256" for b :: "8 word"
  using unsigned_less [of b] by simp

lemma ip_num_less: "ip_num bs < 256 ^ length bs"
proof (induction bs)
  case (Cons b bs)
  have "unat b \<le> 255" using byte_less [of b] by simp
  then have "unat b * 256 ^ length bs \<le> 255 * 256 ^ length bs" by (rule mult_le_mono1)
  then show ?case using Cons unfolding ip_num.simps length_Cons power_Suc by linarith
qed simp

lemma ip_num_append: "ip_num (xs @ ys) = ip_num xs * 256 ^ length ys + ip_num ys"
  by (induction xs) (simp_all add: power_add algebra_simps)

lemma ip_num_div: "ip_num (xs @ ys) div 256 ^ length ys = ip_num xs" "ip_num (xs @ ys) mod 256 ^ length ys = ip_num ys"
  using ip_num_less [of ys] by (simp_all add: ip_num_append)

lemma ip_num_inj: "length xs = length ys \<Longrightarrow> ip_num xs = ip_num ys \<Longrightarrow> xs = ys"
proof (induction xs ys rule: list_induct2)
  case (Cons x xs y ys)
  have "ip_num ([x] @ xs) div 256 ^ length xs = ip_num ([y] @ ys) div 256 ^ length ys"
    "ip_num ([x] @ xs) mod 256 ^ length xs = ip_num ([y] @ ys) mod 256 ^ length ys"
    using Cons.hyps Cons.prems by simp_all
  then have "ip_num [x] = ip_num [y]" "ip_num xs = ip_num ys" unfolding ip_num_div by simp_all
  then show ?case using Cons.IH by (simp add: word_unat_eq_iff)
qed simp

lemma prefix_num: "length ip = 16 \<Longrightarrow> length p = 12 \<Longrightarrow> ip_num ip div 2 ^ 32 = ip_num p \<longleftrightarrow> take 12 ip = p"
  using ip_num_div(1) [of "take 12 ip" "drop 12 ip"] ip_num_inj [of "take 12 ip" p] by auto

lemma builtin_nets:
  "builtinDeniedCIDRs =
     [\<lparr>n_IP = [100, 64, 0, 0], n_Mask = [255, 192, 0, 0]\<rparr>, \<lparr>n_IP = [192, 0, 0, 0], n_Mask = [255, 255, 255, 0]\<rparr>,
      \<lparr>n_IP = [198, 18, 0, 0], n_Mask = [255, 254, 0, 0]\<rparr>, \<lparr>n_IP = [240, 0, 0, 0], n_Mask = [240, 0, 0, 0]\<rparr>]"
  by code_simp

section \<open>The decision on addresses is exact\<close>

text \<open>The masks in use, and when two bytes agree under them.\<close>

lemma masks:
  "(255 :: 8 word) = NOT (mask 0)" "(0xfe :: 8 word) = NOT (mask 1)" "(0xc0 :: 8 word) = NOT (mask 6)" "(0xf0 :: 8 word) = NOT (mask 4)"
  by (simp_all add: mask_eq_exp_minus_1)

lemma masked_eq:
  fixes b c :: "8 word"
  shows "b AND 255 = c AND 255 \<longleftrightarrow> unat b = unat c" "b AND 0xfe = c AND 0xfe \<longleftrightarrow> unat b div 2 = unat c div 2"
    "b AND 0xc0 = c AND 0xc0 \<longleftrightarrow> unat b div 64 = unat c div 64" "b AND 0xf0 = c AND 0xf0 \<longleftrightarrow> unat b div 16 = unat c div 16"
  using and_high_eq [of b 0 c] and_high_eq [of b 1 c] and_high_eq [of b 6 c] and_high_eq [of b 4 c] unfolding masks by simp_all

lemma masked_const:
  fixes b :: "8 word"
  shows "b AND 0xf0 = 16 \<longleftrightarrow> unat b div 16 = 1" "b AND 0xf0 = 0xe0 \<longleftrightarrow> unat b div 16 = 14"
    "b AND 0xfe = 0xfc \<longleftrightarrow> unat b div 2 = 126" "b AND 0xc0 = 0x80 \<longleftrightarrow> unat b div 64 = 2"
  using masked_eq(4) [where b = b and c = 16] masked_eq(4) [where b = b and c = "0xe0"] masked_eq(2) [where b = b and c = "0xfc"]
    masked_eq(3) [where b = b and c = "0x80"] by simp_all

lemma byte_const:
  fixes b :: "8 word"
  shows "b = numeral k \<longleftrightarrow> unat b = numeral k mod 256" "b = 0 \<longleftrightarrow> unat b = 0" "b = 1 \<longleftrightarrow> unat b = 1"
  unfolding word_unat_eq_iff unsigned_numeral take_bit_eq_mod by simp_all

lemma v4_equal:
  "ip_Equal [a, b, c, d] (IPv4 x y z u) \<longleftrightarrow> a = x \<and> b = y \<and> c = z \<and> d = u" "\<not> ip_Equal [a, b, c, d] IPv6unspecified"
proof -
  have "v4InV6Prefix ! 10 \<noteq> replicate 12 0 ! 10" by (simp add: v4InV6Prefix_def)
  then have "replicate 12 0 \<noteq> v4InV6Prefix" by metis
  then show "\<not> ip_Equal [a, b, c, d] IPv6unspecified" by (simp add: ip_Equal_def IPv6unspecified_def)
qed (simp add: ip_Equal_def IPv4_def v4InV6Prefix_def)

lemma v4_tests:
  "ip_Equal [a, b, c, d] metadataIP \<longleftrightarrow> unat a = 169 \<and> unat b = 254 \<and> unat c = 169 \<and> unat d = 254"
  "IsUnspecified [a, b, c, d] \<longleftrightarrow> unat a = 0 \<and> unat b = 0 \<and> unat c = 0 \<and> unat d = 0"
  "IsLoopback [a, b, c, d] \<longleftrightarrow> unat a = 127"
  "IsLinkLocalUnicast [a, b, c, d] \<longleftrightarrow> unat a = 169 \<and> unat b = 254"
  "IsLinkLocalMulticast [a, b, c, d] \<longleftrightarrow> unat a = 224 \<and> unat b = 0 \<and> unat c = 0"
  "\<not> IsInterfaceLocalMulticast [a, b, c, d]"
  "\<not> isULA [a, b, c, d]"
  by (simp_all add: metadataIP_def IsUnspecified_def v4_equal IsLoopback_def To4_def
      IsLinkLocalUnicast_def IsLinkLocalMulticast_def IsInterfaceLocalMulticast_def isULA_def To16_def byte_const)

lemma v4_masked_tests:
  "IsMulticast [a, b, c, d] \<longleftrightarrow> unat a div 16 = 14"
  "IsPrivate [a, b, c, d] \<longleftrightarrow> unat a = 10 \<or> unat a = 172 \<and> unat b div 16 = 1 \<or> unat a = 192 \<and> unat b = 168"
  unfolding IsMulticast_def IsPrivate_def To4_def using byte_const(1) [where b = a] byte_const(1) [where b = b] masked_const(1,2)
  by simp_all

lemma v4_contains:
  "IPNet_Contains \<lparr>n_IP = [w, x, y, z], n_Mask = [i, j, k, l]\<rparr> [a, b, c, d] \<longleftrightarrow>
     w AND i = a AND i \<and> x AND j = b AND j \<and> y AND k = c AND k \<and> z AND l = d AND l"
  by (simp add: IPNet_Contains_def To4_def mask_ip_def)

lemma v4_builtin:
  "cidrContains builtinDeniedCIDRs [a, b, c, d] \<longleftrightarrow>
     unat a = 100 \<and> unat b div 64 = 1 \<or> unat a = 192 \<and> unat b = 0 \<and> unat c = 0 \<or> unat a = 198 \<and> unat b div 2 = 9 \<or> unat a div 16 = 15"
proof -
  have zero: "x AND 0 = y AND 0 \<longleftrightarrow> True" for x y :: "8 word" by simp
  have num: "unat (100 :: 8 word) = 100" "unat (64 :: 8 word) = 64" "unat (192 :: 8 word) = 192" "unat (198 :: 8 word) = 198"
    "unat (18 :: 8 word) = 18" "unat (240 :: 8 word) = 240" "unat (0 :: 8 word) = 0" by simp_all
  show ?thesis
    unfolding builtin_nets cidrContains_def list_ex_iff list.set v4_contains ball_simps bex_simps masked_eq zero num by auto
qed

lemma v4_prefixes:
  fixes a b c d :: nat
  assumes "b < 256" "c < 256" "d < 256" and n: "n = quad a b c d"
  shows "n div 2 ^ 28 = a div 16" "n div 2 ^ 24 = a" "n div 2 ^ 22 = a * 4 + b div 64" "n div 2 ^ 20 = a * 16 + b div 16"
    "n div 2 ^ 17 = a * 128 + b div 2" "n div 2 ^ 16 = a * 256 + b" "n div 2 ^ 8 = (a * 256 + b) * 256 + c"
proof -
  have 8: "n div 2 ^ 8 = (a * 256 + b) * 256 + c" using assms by (simp add: quad_def)
  have 16: "n div 2 ^ 16 = a * 256 + b" using 8 assms(2) div_mult2_eq [of n "2 ^ 8" "2 ^ 8"] by simp
  have 24: "n div 2 ^ 24 = a" using 16 assms(1) div_mult2_eq [of n "2 ^ 16" "2 ^ 8"] by simp
  have "(a * 256 + b) div 2 = a * 128 + b div 2" "(a * 256 + b) div 16 = a * 16 + b div 16" "(a * 256 + b) div 64 = a * 4 + b div 64"
    using div_mult_self1 [of 2 b "a * 128"] div_mult_self1 [of 16 b "a * 16"] div_mult_self1 [of 64 b "a * 4"] by (simp_all add: algebra_simps)
  then show "n div 2 ^ 22 = a * 4 + b div 64" "n div 2 ^ 20 = a * 16 + b div 16" "n div 2 ^ 17 = a * 128 + b div 2"
    using 16 div_mult2_eq [of n "2 ^ 16" 64] div_mult2_eq [of n "2 ^ 16" 16] div_mult2_eq [of n "2 ^ 16" 2] by simp_all
  show "n div 2 ^ 28 = a div 16" using 24 div_mult2_eq [of n "2 ^ 24" 16] by simp
qed (use assms in \<open>simp_all add: quad_def\<close>)

lemma digit_eq: "k < m \<Longrightarrow> j < m \<Longrightarrow> a * m + k = x * m + j \<longleftrightarrow> a = x \<and> k = j" for a k m x j :: nat
proof
  assume lt: "k < m" "j < m" and eq: "a * m + k = x * m + j"
  then have "(a * m + k) div m = (x * m + j) div m" "(a * m + k) mod m = (x * m + j) mod m" by simp_all
  then show "a = x \<and> k = j" using lt by simp
qed simp

lemma quad_eq:
  assumes "b < 256" "c < 256" "d < 256" "y < 256" "z < 256" "w < 256"
  shows "quad a b c d = quad x y z w \<longleftrightarrow> a = x \<and> b = y \<and> c = z \<and> d = w"
  unfolding quad_def digit_eq [OF assms(3,6)] digit_eq [OF assms(2,5)] digit_eq [OF assms(1,4)] by simp

lemma ip_num_quad: "ip_num [a, b, c, d] = quad (unat a) (unat b) (unat c) (unat d)"
  by (simp add: quad_def algebra_simps)

text \<open>The ranges of IPv4 numbers, as conditions on the four bytes.\<close>

lemma v4_exact:
  assumes "b < 256" "c < 256" "d < 256" "y < 256" "z < 256" "w < 256"
  shows "in_prefix 32 (quad a b c d) (quad x y z w, 32) \<longleftrightarrow> a = x \<and> b = y \<and> c = z \<and> d = w"
  using quad_eq [OF assms] by (simp add: in_prefix_def)

lemma v4_net:
  fixes a b c d :: nat
  assumes lt: "b < 256" "c < 256" "d < 256"
  shows "in_prefix 32 (quad a b c d) (quad 100 64 0 0, 10) \<longleftrightarrow> a = 100 \<and> b div 64 = 1"
    "in_prefix 32 (quad a b c d) (quad 192 0 0 0, 24) \<longleftrightarrow> a = 192 \<and> b = 0 \<and> c = 0"
    "in_prefix 32 (quad a b c d) (quad 198 18 0 0, 15) \<longleftrightarrow> a = 198 \<and> b div 2 = 9"
    "in_prefix 32 (quad a b c d) (quad 240 0 0 0, 4) \<longleftrightarrow> a div 16 = 15"
    "in_prefix 32 (quad a b c d) (quad 127 0 0 0, 8) \<longleftrightarrow> a = 127"
    "in_prefix 32 (quad a b c d) (quad 169 254 0 0, 16) \<longleftrightarrow> a = 169 \<and> b = 254"
    "in_prefix 32 (quad a b c d) (quad 224 0 0 0, 4) \<longleftrightarrow> a div 16 = 14"
    "in_prefix 32 (quad a b c d) (quad 10 0 0 0, 8) \<longleftrightarrow> a = 10"
    "in_prefix 32 (quad a b c d) (quad 172 16 0 0, 12) \<longleftrightarrow> a = 172 \<and> b div 16 = 1"
    "in_prefix 32 (quad a b c d) (quad 192 168 0 0, 16) \<longleftrightarrow> a = 192 \<and> b = 168"
proof -
  note p = v4_prefixes [OF lt refl, of a]
  have b: "b div 64 < 4" "b div 2 < 128" "b div 16 < 16" using lt(1) by (simp_all add: less_mult_imp_div_less)
  show "in_prefix 32 (quad a b c d) (quad 100 64 0 0, 10) \<longleftrightarrow> a = 100 \<and> b div 64 = 1"
    using p(3) digit_eq [OF b(1), of 1 a 100] by (simp add: in_prefix_def quad_def [of 100])
  show "in_prefix 32 (quad a b c d) (quad 192 0 0 0, 24) \<longleftrightarrow> a = 192 \<and> b = 0 \<and> c = 0"
    using p(7) digit_eq [OF lt(2), of 0 "a * 256 + b" "192 * 256"] digit_eq [OF lt(1), of 0 a 192]
    by (simp add: in_prefix_def quad_def [of 192])
  show "in_prefix 32 (quad a b c d) (quad 198 18 0 0, 15) \<longleftrightarrow> a = 198 \<and> b div 2 = 9"
    using p(5) digit_eq [OF b(2), of 9 a 198] by (simp add: in_prefix_def quad_def [of 198])
  show "in_prefix 32 (quad a b c d) (quad 169 254 0 0, 16) \<longleftrightarrow> a = 169 \<and> b = 254"
    using p(6) digit_eq [OF lt(1), of 254 a 169] by (simp add: in_prefix_def quad_def [of 169])
  show "in_prefix 32 (quad a b c d) (quad 172 16 0 0, 12) \<longleftrightarrow> a = 172 \<and> b div 16 = 1"
    using p(4) digit_eq [OF b(3), of 1 a 172] by (simp add: in_prefix_def quad_def [of 172])
  show "in_prefix 32 (quad a b c d) (quad 192 168 0 0, 16) \<longleftrightarrow> a = 192 \<and> b = 168"
    using p(6) digit_eq [OF lt(1), of 168 a 192] by (simp add: in_prefix_def quad_def [of 192])
  show "in_prefix 32 (quad a b c d) (quad 240 0 0 0, 4) \<longleftrightarrow> a div 16 = 15"
    "in_prefix 32 (quad a b c d) (quad 224 0 0 0, 4) \<longleftrightarrow> a div 16 = 14"
    using p(1) by (simp_all add: in_prefix_def quad_def [of 240] quad_def [of 224])
  show "in_prefix 32 (quad a b c d) (quad 127 0 0 0, 8) \<longleftrightarrow> a = 127"
    "in_prefix 32 (quad a b c d) (quad 10 0 0 0, 8) \<longleftrightarrow> a = 10"
    using p(2) by (simp_all add: in_prefix_def quad_def [of 127] quad_def [of 10])
qed

lemma v4_ranges:
  assumes "b < 256" "c < 256" "d < 256"
  shows "list_ex (in_prefix 32 (quad a b c d)) always_v4 \<longleftrightarrow>
      a = 169 \<and> b = 254 \<and> c = 169 \<and> d = 254 \<or> a = 0 \<and> b = 0 \<and> c = 0 \<and> d = 0 \<or> a = 100 \<and> b div 64 = 1 \<or>
      a = 192 \<and> b = 0 \<and> c = 0 \<or> a = 198 \<and> b div 2 = 9 \<or> a div 16 = 15"
    "list_ex (in_prefix 32 (quad a b c d)) private_v4 \<longleftrightarrow>
      a = 127 \<or> a = 169 \<and> b = 254 \<or> a div 16 = 14 \<or> a = 10 \<or> a = 172 \<and> b div 16 = 1 \<or> a = 192 \<and> b = 168"
  unfolding always_v4_def private_v4_def using assms by (simp_all only: list_ex_iff list.set ball_simps bex_simps v4_net v4_exact) auto

text \<open>The same for an IPv6 address that stands for no IPv4 address.\<close>

lemma v6_first: "length r = 14 \<Longrightarrow> ip_num (x # y # r) div 2 ^ 112 = unat x * 256 + unat y"
  using ip_num_div(1) [of "[x, y]" r] by simp

lemma v6_net:
  assumes "length r = 14"
  shows "in_prefix 128 (ip_num (x # y # r)) (0xfe80 * 2 ^ 112, 10) \<longleftrightarrow> unat x = 254 \<and> unat y div 64 = 2"
    "in_prefix 128 (ip_num (x # y # r)) (0xff * 2 ^ 120, 8) \<longleftrightarrow> unat x = 255"
    "in_prefix 128 (ip_num (x # y # r)) (0xfc * 2 ^ 120, 7) \<longleftrightarrow> unat x div 2 = 126"
proof -
  define n where "n = ip_num (x # y # r)"
  have n: "n div 2 ^ 112 = unat x * 256 + unat y" using v6_first [OF assms] by (simp add: n_def)
  have y: "unat y < 256" "unat y div 64 < 4" using byte_less [of y] by (simp_all add: less_mult_imp_div_less)
  have "n div 2 ^ 118 = (unat x * 256 + unat y) div 64" using n div_mult2_eq [of n "2 ^ 112" 64] by simp
  also have "\<dots> = unat x * 4 + unat y div 64" using div_mult_self1 [of 64 "unat y" "unat x * 4"] by (simp add: algebra_simps)
  finally show "in_prefix 128 (ip_num (x # y # r)) (0xfe80 * 2 ^ 112, 10) \<longleftrightarrow> unat x = 254 \<and> unat y div 64 = 2"
    using digit_eq [OF y(2), of 2 "unat x" 254] by (simp add: in_prefix_def n_def)
  have x: "n div 2 ^ 120 = unat x" using n y(1) div_mult2_eq [of n "2 ^ 112" 256] by simp
  then show "in_prefix 128 (ip_num (x # y # r)) (0xff * 2 ^ 120, 8) \<longleftrightarrow> unat x = 255" by (simp add: in_prefix_def n_def)
  have "n div 2 ^ 121 = unat x div 2" using x div_mult2_eq [of n "2 ^ 120" 2] by simp
  then show "in_prefix 128 (ip_num (x # y # r)) (0xfc * 2 ^ 120, 7) \<longleftrightarrow> unat x div 2 = 126" by (simp add: in_prefix_def n_def)
qed

lemma ip_num_replicate [simp]: "ip_num (replicate n 0) = 0"
  by (induction n) simp_all

lemma v6_special:
  assumes "length ip = 16"
  shows "in_prefix 128 (ip_num ip) (0, 128) \<longleftrightarrow> ip = IPv6unspecified" "in_prefix 128 (ip_num ip) (1, 128) \<longleftrightarrow> ip = IPv6loopback"
proof -
  have "ip_num IPv6unspecified = 0" "ip_num IPv6loopback = 1"
    by (simp_all add: IPv6unspecified_def IPv6loopback_def ip_num_append)
  moreover have "length IPv6unspecified = 16" "length IPv6loopback = 16" by (simp_all add: IPv6unspecified_def IPv6loopback_def)
  ultimately show "in_prefix 128 (ip_num ip) (0, 128) \<longleftrightarrow> ip = IPv6unspecified" "in_prefix 128 (ip_num ip) (1, 128) \<longleftrightarrow> ip = IPv6loopback"
    using ip_num_inj [of ip IPv6unspecified] ip_num_inj [of ip IPv6loopback] assms by (auto simp: in_prefix_def)
qed

lemma v6_tests:
  assumes len: "length ip = 16" and v6: "To4 ip = None"
  shows "\<not> ip_Equal ip metadataIP" "IsUnspecified ip \<longleftrightarrow> ip = IPv6unspecified" "\<not> cidrContains builtinDeniedCIDRs ip"
    "IsLoopback ip \<longleftrightarrow> ip = IPv6loopback" "IsLinkLocalUnicast ip \<longleftrightarrow> unat (ip ! 0) = 254 \<and> unat (ip ! 1) div 64 = 2"
    "IsLinkLocalMulticast ip \<longrightarrow> IsMulticast ip" "IsInterfaceLocalMulticast ip \<longrightarrow> IsMulticast ip"
    "IsMulticast ip \<longleftrightarrow> unat (ip ! 0) = 255" "IsPrivate ip \<longleftrightarrow> unat (ip ! 0) div 2 = 126" "isULA ip \<longleftrightarrow> unat (ip ! 0) div 2 = 126"
proof -
  have notv4: "ip \<noteq> IPv4 a b c d" for a b c d using v6 by (auto simp: To4_def IPv4_def v4InV6Prefix_def)
  have len4: "length (IPv4 a b c d) = 16" for a b c d by (simp add: IPv4_def v4InV6Prefix_def)
  have len6: "length IPv6unspecified = 16" "length IPv6loopback = 16" by (simp_all add: IPv6unspecified_def IPv6loopback_def)
  show "\<not> ip_Equal ip metadataIP" "IsUnspecified ip \<longleftrightarrow> ip = IPv6unspecified" "IsLoopback ip \<longleftrightarrow> ip = IPv6loopback"
    using notv4 by (simp_all add: ip_Equal_def metadataIP_def len len4 len6 IsUnspecified_def IsLoopback_def v6)
  show "\<not> cidrContains builtinDeniedCIDRs ip"
    by (simp add: cidrContains_def builtin_nets IPNet_Contains_def v6 len) (simp add: To4_def)
  show "IsLinkLocalUnicast ip \<longleftrightarrow> unat (ip ! 0) = 254 \<and> unat (ip ! 1) div 64 = 2" "IsMulticast ip \<longleftrightarrow> unat (ip ! 0) = 255"
    "IsPrivate ip \<longleftrightarrow> unat (ip ! 0) div 2 = 126" "isULA ip \<longleftrightarrow> unat (ip ! 0) div 2 = 126"
    unfolding IsLinkLocalUnicast_def IsMulticast_def IsPrivate_def isULA_def To16_def v6 option.case masked_const using len byte_const(1) [where b = "ip ! 0"]
    by simp_all
  show "IsLinkLocalMulticast ip \<longrightarrow> IsMulticast ip" "IsInterfaceLocalMulticast ip \<longrightarrow> IsMulticast ip"
    by (simp_all add: IsLinkLocalMulticast_def IsInterfaceLocalMulticast_def IsMulticast_def v6)
qed

subsection \<open>From the code to the ranges\<close>

definition plain_v6 :: "net_ip \<Rightarrow> bool" where
  "plain_v6 ip \<longleftrightarrow> length ip = 16 \<and> To4 ip = None \<and> embeddedNAT64 ip = None"

lemma prefix_nums: "ip_num v4InV6Prefix = 0xffff" "ip_num nat64Prefix = 0x64ff9b * 2 ^ 64" "length v4InV6Prefix = 12" "length nat64Prefix = 12"
  by (simp_all add: v4InV6Prefix_def nat64Prefix_def)

lemma canon_cases:
  assumes "length ip = 16"
  shows "canon ip = (if take 12 ip = v4InV6Prefix \<or> take 12 ip = nat64Prefix then drop 12 ip else ip)"
  using prefix_num [OF assms prefix_nums(3)] prefix_num [OF assms prefix_nums(4)] assms unfolding canon_def prefix_nums(1,2) by simp

lemma prefixes_differ: "v4InV6Prefix \<noteq> nat64Prefix"
  by (simp add: v4InV6Prefix_def nat64Prefix_def)

lemma embedded_iff:
  assumes "length ip = 16"
  shows "embeddedNAT64 ip = (if take 12 ip = nat64Prefix then Some (v4InV6Prefix @ drop 12 ip) else None)"
proof -
  have "drop 12 ip = [ip ! 12, ip ! 13, ip ! 14, ip ! 15]"
    using assms by (simp add: list_eq_iff_nth_eq less_Suc_eq eval_nat_numeral)
  then show ?thesis using assms prefixes_differ by (auto simp: embeddedNAT64_def To16_def To4_def prefix_nums(4) IPv4_def)
qed

lemma plain_v6_canon: "plain_v6 ip \<Longrightarrow> canon ip = ip"
  using canon_cases [of ip] embedded_iff [of ip] by (auto simp: plain_v6_def To4_def split: if_splits)

lemma checkIP_v4:
  assumes "\<not> g_allowAll g" "length ip = 4"
  shows "checkIP g ip = None \<longleftrightarrow> \<not> forbidden g ip"
proof -
  obtain a b c d where ip: "ip = [a, b, c, d]" using assms(2) by (auto simp: length_Suc_conv eval_nat_numeral)
  have can: "canon ip = ip" and ne: "ip \<noteq> []" using assms(2) by (auto simp: canon_def)
  have t4: "To4 ip = Some ip" "embeddedNAT64 ip = None" by (simp_all add: To4_def embeddedNAT64_def To16_def ip)
  have lt: "unat a < 256" "unat b < 256" "unat c < 256" "unat d < 256" by (rule byte_less)+
  note r = v4_ranges [OF lt(2-4), of "unat a"]
  have mc: "unat a = 224 \<longrightarrow> unat a div 16 = 14" by simp
  have "checkIP g ip = None \<longleftrightarrow>
      \<not> (ip_Equal ip metadataIP \<or> IsUnspecified ip \<or> cidrContains builtinDeniedCIDRs ip \<or> extraDenied g ip \<or>
         \<not> g_allowPrivate g \<and> (IsLoopback ip \<or> IsLinkLocalUnicast ip \<or> IsLinkLocalMulticast ip \<or> IsInterfaceLocalMulticast ip \<or>
           IsMulticast ip \<or> IsPrivate ip \<or> isULA ip))"
    using assms(1) t4 ne by (subst checkIP.simps) (simp add: Let_def)
  also have "\<dots> \<longleftrightarrow> \<not> (extraDenied g ip \<or> list_ex (in_prefix 32 (ip_num ip)) always_v4 \<or>
      \<not> g_allowPrivate g \<and> list_ex (in_prefix 32 (ip_num ip)) private_v4)"
    unfolding ip ip_num_quad r v4_tests v4_masked_tests v4_builtin using mc v4_tests(6,7) [of a b c d] by blast
  also have "\<dots> \<longleftrightarrow> \<not> forbidden g ip" using assms(2) by (auto simp: forbidden_def can Let_def extraDenied_def)
  finally show ?thesis .
qed

lemma checkIP_v6:
  assumes "\<not> g_allowAll g" "plain_v6 ip"
  shows "checkIP g ip = None \<longleftrightarrow> \<not> forbidden g ip"
proof -
  have len: "length ip = 16" "To4 ip = None" "embeddedNAT64 ip = None" using assms(2) by (simp_all add: plain_v6_def)
  obtain x y r where ip: "ip = x # y # r" "length r = 14" using len(1) by (auto simp: length_Suc_conv eval_nat_numeral)
  note t = v6_tests [OF len(1,2)]
  have xy: "ip ! 0 = x" "ip ! 1 = y" by (simp_all add: ip)
  have "checkIP g ip = None \<longleftrightarrow>
      \<not> (ip_Equal ip metadataIP \<or> IsUnspecified ip \<or> cidrContains builtinDeniedCIDRs ip \<or> extraDenied g ip \<or>
         \<not> g_allowPrivate g \<and> (IsLoopback ip \<or> IsLinkLocalUnicast ip \<or> IsLinkLocalMulticast ip \<or> IsInterfaceLocalMulticast ip \<or>
           IsMulticast ip \<or> IsPrivate ip \<or> isULA ip))"
    using assms(1) len ip(1) by (subst checkIP.simps) (simp add: Let_def)
  also have "\<dots> \<longleftrightarrow> \<not> (extraDenied g ip \<or> ip = IPv6unspecified \<or> \<not> g_allowPrivate g \<and> (ip = IPv6loopback \<or>
      unat x = 254 \<and> unat y div 64 = 2 \<or> unat x = 255 \<or> unat x div 2 = 126))"
    using t unfolding xy by blast
  also have "\<dots> \<longleftrightarrow> \<not> (extraDenied g ip \<or> list_ex (in_prefix 128 (ip_num ip)) always_v6 \<or>
      \<not> g_allowPrivate g \<and> list_ex (in_prefix 128 (ip_num ip)) private_v6)"
    using v6_special [OF len(1)] v6_net [OF ip(2), of x y] unfolding ip(1) [symmetric] always_v6_def private_v6_def by simp
  also have "\<dots> \<longleftrightarrow> \<not> forbidden g ip" using len plain_v6_canon [OF assms(2)] by (auto simp: forbidden_def Let_def extraDenied_def)
  finally show ?thesis .
qed

lemma checkIP_mapped: "checkIP g (v4InV6Prefix @ v) = checkIP g v" if "length v = 4" for v
proof -
  have "To4 (v4InV6Prefix @ v) = Some v" "To4 v = Some v" "embeddedNAT64 v = None" "v \<noteq> []"
    using that by (auto simp: To4_def prefix_nums embeddedNAT64_def To16_def)
  moreover have "embeddedNAT64 (v4InV6Prefix @ v) = None"
    using embedded_iff [of "v4InV6Prefix @ v"] that prefixes_differ by (simp add: prefix_nums)
  ultimately show ?thesis by (subst (1 2) checkIP.simps) (simp add: prefix_nums(3) [symmetric])
qed

lemma checkIP_nat64:
  assumes "length ip = 16" "take 12 ip = nat64Prefix" "\<not> g_allowAll g"
  shows "checkIP g ip = checkIP g (drop 12 ip)"
proof -
  have "checkIP g ip = checkIP g (v4InV6Prefix @ drop 12 ip)"
    using assms embedded_iff [of ip] by (subst checkIP.simps) auto
  then show ?thesis using checkIP_mapped [of "drop 12 ip"] assms(1) by simp
qed

lemma forbidden_canon: "length v = 4 \<Longrightarrow> canon ip = v \<Longrightarrow> forbidden g ip = forbidden g v"
  by (simp add: forbidden_def canon_def [of v] Let_def)

lemma checkIP_ranges:
  assumes "\<not> g_allowAll g" "length ip = 4 \<or> length ip = 16"
  shows "checkIP g ip = None \<longleftrightarrow> \<not> forbidden g ip"
proof (cases "length ip = 4")
  case False
  then have len: "length ip = 16" using assms(2) by simp
  let ?v = "drop 12 ip"
  have v: "length ?v = 4" using len by simp
  have "plain_v6 ip" if "take 12 ip \<noteq> v4InV6Prefix" "take 12 ip \<noteq> nat64Prefix"
    using that embedded_iff [OF len] len by (simp add: plain_v6_def To4_def)
  then consider "take 12 ip = v4InV6Prefix" | "take 12 ip = nat64Prefix" | "plain_v6 ip" by blast
  then show ?thesis
  proof cases
    case 1
    then have "checkIP g ip = checkIP g ?v" using checkIP_mapped [OF v, of g] by (metis append_take_drop_id)
    then show ?thesis using checkIP_v4 [OF assms(1) v] forbidden_canon [OF v, of ip] canon_cases [OF len] 1 by simp
  next
    case 2
    then show ?thesis
      using checkIP_nat64 [OF len 2 assms(1)] checkIP_v4 [OF assms(1) v] forbidden_canon [OF v, of ip] canon_cases [OF len] by simp
  qed (use checkIP_v6 assms(1) in blast)
qed (use checkIP_v4 assms(1) in blast)

section \<open>What a client connects to\<close>

text \<open>An observer of the network: the addresses connections were opened to, and the requests sent.\<close>

definition watched :: "'x network \<Rightarrow> ('x \<times> string list \<times> http_url list) network" where
  "watched net = \<lparr>
     nw_addresses = (\<lambda>u (x, l). let (r, x') = nw_addresses net u x in (r, (x', l))),
     nw_connect = (\<lambda>a (x, conns, urls). let (ok, x') = nw_connect net a x in (ok, (x', conns @ [a], urls))),
     nw_exchange = (\<lambda>u (x, conns, urls). let (r, x') = nw_exchange net u x in (r, (x', conns, urls @ [u])))\<rparr>"

definition dial_host :: "string \<Rightarrow> string" where
  "dial_host a = (case SplitHostPort_host a of Some h \<Rightarrow> h | None \<Rightarrow> a)"

lemma parse_octets: "parseIPv4Fields s = Some b \<Longrightarrow> length b = 4"
  by (auto simp: parseIPv4Fields_def split: list.splits option.splits)

lemma v6_loop_length:
  "v6_loop n s ip ell = Some (ip', e') \<Longrightarrow> length ip \<le> 16 \<Longrightarrow> even (length ip) \<Longrightarrow> length ip' \<le> 16"
proof (induction n arbitrary: s ip ell)
  case (Suc n)
  define g where "g = hex_group s"
  define rest where "rest = drop (length g) s"
  define ip2 where "ip2 = ip @ [of_nat (group_val g div 256), of_nat (group_val g mod 256 :: nat)]"
  show ?case
  proof (cases "length ip \<ge> 16")
    case False
    then have len: "length ip2 \<le> 16" "even (length ip2)" using Suc.prems(2,3) by (auto simp: ip2_def elim!: evenE)
    have "(\<exists>v4. ip' = ip @ v4 \<and> length ip + 4 \<le> 16 \<and> parseIPv4Fields s = Some v4) \<or> ip' = ip2 \<or>
        (\<exists>s2 ell2. v6_loop n s2 ip2 ell2 = Some (ip', e'))"
      using Suc.prems(1) False unfolding v6_loop.simps Let_def g_def [symmetric] rest_def [symmetric] ip2_def [symmetric]
      by (simp split: if_splits option.splits) blast+
    then show ?thesis using Suc.IH len parse_octets by fastforce
  qed (use Suc.prems in \<open>simp split: if_splits\<close>)
qed (simp split: if_splits)

lemma parseIPv6_length: "parseIPv6 s = Some ip \<Longrightarrow> length ip = 16"
proof -
  assume s: "parseIPv6 s = Some ip"
  have "ip = IPv6unspecified \<or> (\<exists>b ell b2 e. v6_loop 8 b [] ell = Some (b2, e) \<and>
      (length b2 < 16 \<and> (\<exists>k. ip = take k b2 @ replicate (16 - length b2) 0 @ drop k b2) \<or> \<not> length b2 < 16 \<and> ip = b2))"
    using s unfolding parseIPv6_def Let_def by (simp split: if_splits option.splits prod.splits) blast+
  then show ?thesis
    using v6_loop_length [of 8 _ "[]"] by (fastforce simp: IPv6unspecified_def)
qed

lemma ParseIP_length: "ParseIP s = Some ip \<Longrightarrow> length ip = 16"
  using parseIPv6_length [of s] parse_octets [of s]
  by (auto simp: ParseIP_def ParseAddr_def prefix_nums split: option.splits addr.splits if_splits)

lemma control_ok:
  assumes "control g a = None" "\<not> g_allowAll g"
  shows "\<exists>ip. ParseIP (dial_host a) = Some ip \<and> \<not> forbidden g ip"
  using assms checkIP_ranges [OF assms(2)] ParseIP_length
  by (auto simp: control_def Let_def dial_host_def split: option.splits)

definition conns_ok :: "guard \<Rightarrow> string list \<Rightarrow> bool" where
  "conns_ok g conns \<longleftrightarrow> (\<forall>a \<in> set conns. \<exists>ip. ParseIP (dial_host a) = Some ip \<and> \<not> forbidden g ip)"

lemma dialSerial_watched:
  assumes "\<not> g_allowAll g" "dialSerial g (watched net) as err (x, conns, urls) = (r, (x', conns', urls'))" "conns_ok g conns"
  shows "conns_ok g conns' \<and> urls' = urls"
  using assms(2,3)
proof (induction "as" arbitrary: err x conns)
  case (Cons a "as")
  show ?case
  proof (cases "control g a")
    case None
    obtain ok x1 where c: "nw_connect net a x = (ok, x1)" by fastforce
    then have "nw_connect (watched net) a (x, conns, urls) = (ok, (x1, conns @ [a], urls))" by (simp add: watched_def)
    moreover have "conns_ok g (conns @ [a])" using Cons.prems(2) control_ok [OF None assms(1)] by (simp add: conns_ok_def)
    ultimately show ?thesis using Cons.prems Cons.IH None by (cases ok) (auto simp: Let_def)
  qed (use Cons in \<open>auto simp: Let_def\<close>)
qed simp

definition request_ok :: "guard \<Rightarrow> http_url \<Rightarrow> bool" where
  "request_ok g u \<longleftrightarrow> u_Scheme u \<in> {''http'', ''https''} \<and> (g_allowHosts g = [] \<or> ToLower (u_Hostname u) \<in> set (g_allowHosts g))"

lemma transport_watched:
  assumes "\<not> g_allowAll (tr_guard tr)" "conns_ok (tr_guard tr) conns"
    "transport_RoundTrip tr (watched net) u (x, conns, urls) = (r, (x', conns', urls'))"
  shows "conns_ok (tr_guard tr) conns' \<and> (urls' = urls \<and> (\<exists>e. r = Inl e) \<or> urls' = urls @ [u] \<and> u_Scheme u \<in> {''http'', ''https''})"
proof (cases "u_Scheme u \<in> {''http'', ''https''}")
  case True
  obtain ad x1 where ad: "nw_addresses net u x = (ad, x1)" by fastforce
  then have wad: "nw_addresses (watched net) u (x, conns, urls) = (ad, (x1, conns, urls))" by (simp add: watched_def)
  have ex: "\<exists>r x3. nw_exchange (watched net) u (x2, c, l) = (r, (x3, c, l @ [u]))" for x2 c l
    by (simp add: watched_def case_prod_beta)
  show ?thesis
  proof (cases ad)
    case None
    then show ?thesis using assms(2,3) True wad ex [of x1 conns urls] by (auto simp: transport_RoundTrip_def)
  next
    case (Some addrs)
    obtain de x2 c2 l2 where d: "dialSerial (tr_guard tr) (watched net) addrs None (x1, conns, urls) = (de, (x2, c2, l2))" by (rule prod_cases4)
    have ok: "conns_ok (tr_guard tr) c2" "l2 = urls" using dialSerial_watched [OF assms(1) d assms(2)] by simp_all
    show ?thesis using assms(3) True wad Some d ok ex [of x2 c2 l2] by (cases de) (auto simp: transport_RoundTrip_def)
  qed
qed (use assms in \<open>auto simp: transport_RoundTrip_def\<close>)

lemma RoundTrip_watched:
  assumes "\<not> g_allowAll g" "tr_guard tr = g" "conns_ok g conns"
    "RoundTrip (hostGuarded g tr) (watched net) u (x, conns, urls) = (r, (x', conns', urls'))"
  shows "conns_ok g conns' \<and> (urls' = urls \<and> (\<exists>e. r = Inl e) \<or> urls' = urls @ [u] \<and> request_ok g u)"
proof (cases "g_allowHosts g = [] \<or> checkHost g (u_Hostname u) = None")
  case True
  then have t: "transport_RoundTrip tr (watched net) u (x, conns, urls) = (r, (x', conns', urls'))"
    using assms(4) by (auto simp: RoundTrip_def hostGuarded_def split: if_splits)
  have "g_allowHosts g = [] \<or> ToLower (u_Hostname u) \<in> set (g_allowHosts g)"
    using True assms(1) by (auto simp: checkHost_def split: if_splits)
  then show ?thesis using transport_watched [of tr conns net u x urls r x' conns' urls'] t assms(1-3) by (auto simp: request_ok_def)
next
  case False
  then show ?thesis using assms(3,4) by (auto simp: RoundTrip_def hostGuarded_def)
qed

lemma client_Do_watched:
  assumes g: "\<not> g_allowAll g" "tr_guard tr = g" "c_guard c = g" "c_Transport c = hostGuarded g tr"
    and "conns_ok g conns" "client_Do c (watched net) u via (x, conns, urls) = (r, (x', conns', urls'))"
  shows "conns_ok g conns' \<and> (\<exists>new. urls' = urls @ new \<and> (\<forall>q \<in> set new. request_ok g q) \<and>
    int (length new) \<le> max 1 (c_maxRedirects c - int via))"
  using assms(5,6)
proof (induction "nat (c_maxRedirects c - int via)" arbitrary: u via x conns urls rule: less_induct)
  case less
  obtain rr x1 c1 l1 where rt: "RoundTrip (c_Transport c) (watched net) u (x, conns, urls) = (rr, (x1, c1, l1))" by (rule prod_cases4)
  have step: "conns_ok g c1" "l1 = urls \<and> (\<exists>e. rr = Inl e) \<or> l1 = urls @ [u] \<and> request_ok g u"
    using RoundTrip_watched [OF g(1,2) less.prems(1), of net u x urls rr x1 c1 l1] rt unfolding g(4) by blast+
  note unf = less.prems(2) [unfolded client_Do.simps [of c "watched net" u via] rt]
  show ?case
  proof (cases "\<exists>v. rr = Inr (RedirectTo v) \<and> checkRedirect (c_guard c) (c_maxRedirects c) v (Suc via) = None")
    case True
    then obtain v where v: "rr = Inr (RedirectTo v)" "checkRedirect (c_guard c) (c_maxRedirects c) v (Suc via) = None" by blast
    have rec: "client_Do c (watched net) v (Suc via) (x1, c1, l1) = (r, (x', conns', urls'))" using unf v by simp
    have lt: "int (Suc via) < c_maxRedirects c" using v(2) by (auto simp: checkRedirect_def split: if_splits)
    obtain new where new: "conns_ok g conns'" "urls' = l1 @ new" "\<forall>q \<in> set new. request_ok g q"
        "int (length new) \<le> max 1 (c_maxRedirects c - int (Suc via))"
      using less.hyps [OF _ step(1) rec] lt by auto
    have "l1 = urls @ [u]" "request_ok g u" using step(2) v(1) by auto
    then show ?thesis using new lt by (intro conjI exI [of _ "u # new"]) auto
  next
    case False
    then have "conns' = c1 \<and> urls' = l1" using unf by (auto split: sum.splits reply.splits option.splits if_splits)
    then show ?thesis using step by (intro conjI exI [of _ "if l1 = urls then [] else [u]"]) auto
  qed
qed

section \<open>Configuration errors\<close>

lemma parse_extra_bad: "c \<in> set cs \<Longrightarrow> TrimSpace c \<noteq> [] \<Longrightarrow> ParseCIDR (TrimSpace c) = None \<Longrightarrow> \<exists>e. parse_extra cs = Inl e"
  by (induction cs) (auto simp: Let_def split: option.splits sum.splits)

lemma env_denied: "set (splitlist (TrimSpace (pr_Getenv pr envExtraDenyCIDR))) \<subseteq> set (o_ExtraDenyCIDRs (buildOptions pr opts))"
proof -
  have "splitlist [] = []" by (simp add: splitlist_def TrimSpace_length [of "[]", simplified])
  then show ?thesis by (auto simp: buildOptions_def resolveOptions_def Let_def)
qed

lemma env_bad:
  assumes "c \<in> set (splitlist (TrimSpace (pr_Getenv pr envExtraDenyCIDR)))" "ParseCIDR c = None"
  shows "\<exists>e. newGuard (buildOptions pr opts) = Inl e"
proof -
  have "TrimSpace c = c" "c \<noteq> []" using assms(1) by (auto simp: splitlist_def)
  then have "\<exists>e. parse_extra (o_ExtraDenyCIDRs (buildOptions pr opts)) = Inl e"
    using parse_extra_bad [of c] env_denied [of pr opts] assms by (simp add: subset_iff)
  then show ?thesis by (auto simp: newGuard_def)
qed

text \<open>What the witnesses run on.\<close>

definition dev_guard :: guard where
  "dev_guard = \<lparr>g_allowPrivate = True, g_allowAll = False, g_extraDeny = [], g_allowHosts = []\<rparr>"

definition plain_process :: process where
  "plain_process = \<lparr>pr_Getenv = (\<lambda>k. []), pr_Testing = False, pr_testLoopbackOptIn = False\<rparr>"

definition looping_net :: "nat network" where
  "looping_net = \<lparr>nw_addresses = (\<lambda>u n. (Some [''127.0.0.1:80'', ''8.8.8.8:80''], n)), nw_connect = (\<lambda>a n. (True, n)),
     nw_exchange = (\<lambda>u n. (Inr (RedirectTo u), Suc n))\<rparr>"

definition sample_url :: http_url where
  "sample_url = \<lparr>u_Scheme = ''http'', u_Hostname = ''h''\<rparr>"

section \<open>Properties\<close>

text \<open>
  C10: the decision on an address is exactly the list of forbidden ranges. For every guard outside tests
  and every address of 4 or 16 bytes, the check passes exactly if the address, or the IPv4 address it
  stands for when it is IPv4-mapped or behind the NAT64 prefix, lies in no configured network and in
  none of the listed number ranges; allowing private addresses removes the private ranges only, so
  the metadata address stays closed.
\<close>

theorem checkIP_exact:
  assumes "\<not> g_allowAll g" "length ip = 4 \<or> length ip = 16"
  shows "checkIP g ip = None \<longleftrightarrow> \<not> forbidden g ip"
  using assms by (rule checkIP_ranges)

theorem checkIP_exact_witness:
  "checkIP dev_guard (nat64Prefix @ [169, 254, 169, 254]) \<noteq> None \<and> checkIP dev_guard [10, 0, 0, 1] = None"
proof -
  have "canon (nat64Prefix @ [169, 254, 169, 254]) = [169, 254, 169, 254]" "canon [10, 0, 0, 1] = [10, 0, 0, 1]"
    using canon_cases [of "nat64Prefix @ [169, 254, 169, 254]"] by (simp_all add: prefix_nums canon_def)
  then have "forbidden dev_guard (nat64Prefix @ [169, 254, 169, 254])" "\<not> forbidden dev_guard [10, 0, 0, 1]"
    unfolding forbidden_def Let_def by (simp_all add: ip_num_quad v4_ranges dev_guard_def cidrContains_def del: ip_num.simps)
  moreover have "\<not> g_allowAll dev_guard" "length (nat64Prefix @ [169, 254, 169, 254 :: 8 word]) = 16" "length [10, 0, 0, 1 :: 8 word] = 4"
    by (simp_all add: dev_guard_def nat64Prefix_def)
  ultimately show ?thesis using checkIP_exact [of dev_guard] by blast
qed





end
