(* ===== verification/Connector_Sdk.thy ===== *)
theory Connector_Sdk
  imports Asker_Document Tenancy Go_Sha256
begin

text \<open>
  The connector interface (\<open>connectors/sdk\<close>): document identifiers, the registry, and what a connector
  may do during a run. A run is a tree of the calls a connector makes through the \<open>Emit\<close> and
  \<open>Checkpoint\<close> functions it is given, each with a context of the connector's choosing and a continuation
  on the answer; what it exchanges with its source meanwhile is left open.
\<close>

section \<open>The model\<close>

definition DocID :: "string \<Rightarrow> string \<Rightarrow> string" where
  "DocID connectorID sourceNativeID = hex_EncodeToString (Sum256 (connectorID @ '':'' @ sourceNativeID))"

datatype AuthType = AuthNone | AuthOAuth2 | AuthToken

record Spec =
  sp_ID :: string
  sp_DisplayName :: string
  sp_AuthType :: AuthType
  sp_ConfigSchema :: bytes
  sp_SupportsWebhook :: bool

text \<open>The configuration of a run. Its \<open>Checkpoint\<close> is the second interaction of the run below.\<close>

record Config =
  cf_Tenant :: tenancy_context
  cf_InstanceID :: string
  cf_ConfigJSON :: bytes
  cf_Token :: bytes

text \<open>A connector's error, by what \<open>errors.Is\<close> finds in it, with its text.\<close>

datatype conn_error =
    ErrCursorExpired (conn_text: string) | ErrWebhookUnsupported (conn_text: string) | ConnErr (conn_text: string)

text \<open>
  \<open>EmitDoc\<close> passes a document, or nil, and gets back the error and the document, which the hub may have
  completed in place; \<open>SaveCheckpoint\<close> passes a cursor and gets back the error.
\<close>

datatype 'r run =
    Return 'r
  | EmitDoc go_ctx "Document option" "string option \<times> Document option \<Rightarrow> 'r run"
  | SaveCheckpoint go_ctx string "string option \<Rightarrow> 'r run"

text \<open>The methods the hub calls; \<open>'q\<close> is the HTTP request of a webhook.\<close>

record 'q Connector =
  cn_Spec :: Spec
  cn_FullSync :: "go_ctx \<Rightarrow> Config \<Rightarrow> (conn_error + string) run"
  cn_IncrementalSync :: "go_ctx \<Rightarrow> Config \<Rightarrow> string \<Rightarrow> (conn_error + string) run"
  cn_HandleWebhook :: "go_ctx \<Rightarrow> Config \<Rightarrow> 'q \<Rightarrow> conn_error option run"

primrec run_connector ::
  "(go_ctx \<Rightarrow> Document option \<Rightarrow> 's \<Rightarrow> (string option \<times> Document option) \<times> 's) \<Rightarrow>
   (go_ctx \<Rightarrow> string \<Rightarrow> 's \<Rightarrow> string option \<times> 's) \<Rightarrow> 'r run \<Rightarrow> 's \<Rightarrow> 'r \<times> 's" where
  "run_connector emit checkpoint (Return r) s = (r, s)"
| "run_connector emit checkpoint (EmitDoc ctx doc k) s =
     (let (a, s') = emit ctx doc s in run_connector emit checkpoint (k a) s')"
| "run_connector emit checkpoint (SaveCheckpoint ctx cur k) s =
     (let (a, s') = checkpoint ctx cur s in run_connector emit checkpoint (k a) s')"

definition NopCheckpoint :: "go_ctx \<Rightarrow> string \<Rightarrow> 's \<Rightarrow> string option \<times> 's" where
  "NopCheckpoint ctx cur s = (None, s)"

subsection \<open>The registry\<close>

type_synonym 'q Registry = "(string, 'q Connector) table"

definition NewRegistry :: "'q Registry" where
  "NewRegistry = []"

definition Register :: "'q Connector option \<Rightarrow> 'q Registry \<Rightarrow> string option \<times> 'q Registry" where
  "Register c reg =
     (case c of
        None \<Rightarrow> (Some ''sdk: Register called with nil connector'', reg)
      | Some conn \<Rightarrow>
          let cid = sp_ID (cn_Spec conn) in
          if cid = [] then (Some ''sdk: Register called with empty spec ID'', reg)
          else if tbl_has cid reg then (Some (''sdk: connector '' @ quoted cid @ '' already registered''), reg)
          else (None, tbl_put cid conn reg))"

definition registry_Get :: "'q Registry \<Rightarrow> string \<Rightarrow> 'q Connector option" where
  "registry_Get reg cid = tbl_get reg cid"

definition registry_List :: "'q Registry \<Rightarrow> Spec list" where
  "registry_List reg = sort_key sp_ID (map (\<lambda>(k, c). cn_Spec c) reg)"

section \<open>Facts\<close>

text \<open>
  The text that is hashed determines connector and source identifier as long as connector identifiers hold
  no colon.
\<close>

lemma docid_text_inj:
  assumes "CHR '':'' \<notin> set c" "CHR '':'' \<notin> set c'" and "c @ '':'' @ s = c' @ '':'' @ s'"
  shows "c = c' \<and> s = s'"
proof -
  have tw: "takeWhile (\<lambda>x. x \<noteq> CHR '':'') (y @ '':'' @ z) = y" "dropWhile (\<lambda>x. x \<noteq> CHR '':'') (y @ '':'' @ z) = '':'' @ z"
    if "CHR '':'' \<notin> set y" for y z :: string
    using that by (induction y) auto
  show ?thesis using tw [OF assms(1), of s] tw [OF assms(2), of s'] assms(3) by simp
qed

text \<open>Every registered connector is found under the identifier in its own specification.\<close>

definition registry_ok :: "'q Registry \<Rightarrow> bool" where
  "registry_ok reg \<longleftrightarrow> wf_table reg \<and> (\<forall>(k, c) \<in> set reg. sp_ID (cn_Spec c) = k \<and> k \<noteq> [])"

lemma registry_new: "registry_ok NewRegistry"
  by (simp add: registry_ok_def NewRegistry_def)

lemma put_new: "k \<notin> keys t \<Longrightarrow> tbl_put k v t = t @ [(k, v)]"
  by (induction t) auto

lemma registry_register: "registry_ok reg \<Longrightarrow> registry_ok (snd (Register c reg))"
  by (auto simp: registry_ok_def Register_def Let_def put_new split: option.splits)

lemma registry_List_complete:
  "registry_ok reg \<Longrightarrow> registry_Get reg cid = Some c \<Longrightarrow> cn_Spec c \<in> set (registry_List reg) \<and> sp_ID (cn_Spec c) = cid"
  by (fastforce simp: registry_ok_def registry_Get_def registry_List_def dest: map_of_SomeD)

lemma registry_List_sorted: "registry_ok reg \<Longrightarrow> sorted_wrt (<) (map sp_ID (registry_List reg))"
proof -
  assume ok: "registry_ok reg"
  have "map sp_ID (map (\<lambda>(k, c). cn_Spec c) reg) = map fst reg" using ok by (auto simp: registry_ok_def)
  then have "distinct (map sp_ID (map (\<lambda>(k, c). cn_Spec c) reg))" using ok by (simp only: registry_ok_def)
  then have "distinct (map sp_ID (registry_List reg))"
    by (simp only: registry_List_def distinct_map distinct_sort set_sort)
  then show ?thesis by (simp add: registry_List_def strict_sorted_iff)
qed

text \<open>Whatever every interaction keeps, a run keeps.\<close>

lemma run_connector_keeps:
  assumes "\<And>ctx d s. I s \<Longrightarrow> I (snd (emit ctx d s))" "\<And>ctx cur s. I s \<Longrightarrow> I (snd (cp ctx cur s))" "I s"
  shows "I (snd (run_connector emit cp r s))"
  using assms(3)
proof (induction r arbitrary: s)
  case (EmitDoc ctx d k)
  then show ?case using assms(1) [of s ctx d] by (auto simp: case_prod_beta intro: EmitDoc.IH [OF rangeI])
next
  case (SaveCheckpoint ctx cur k)
  then show ?case using assms(2) [of s ctx cur] by (auto simp: case_prod_beta intro: SaveCheckpoint.IH [OF rangeI])
qed simp

end
