(* ===== verification/Go_JsonDec.thy ===== *)
theory Go_JsonDec
  imports Go_JsonEnc Go_Time
begin

text \<open>
  The decoding side of Go's \<open>encoding/json\<close>, as far as the services use it: the value tree of a valid
  text, the decoding of string literals, numbers as 64-bit floats, and what \<open>json.Unmarshal\<close> into a
  \<open>map[string]any\<close> followed by \<open>json.Marshal\<close> makes of a value.
\<close>

section \<open>Value trees\<close>

text \<open>A string or a key is kept as it is written between its quotes, a number as its literal.\<close>

datatype json_value =
    JNull | JBool bool | JNumber string | JString string
  | JArray "json_value list" | JObject "(string \<times> json_value) list"

definition skip_space :: "string \<Rightarrow> string" where
  "skip_space = dropWhile json_space"

text \<open>The rest of a string literal after its opening quote.\<close>

fun scan_string :: "string \<Rightarrow> (string \<times> string) option" where
  "scan_string [] = None"
| "scan_string (c # cs) =
     (if c = CHR 0x22 then Some ([], cs)
      else if c = CHR 0x5C
      then (case cs of
              [] \<Rightarrow> None
            | e # es \<Rightarrow> (case scan_string es of None \<Rightarrow> None | Some (raw, r) \<Rightarrow> Some (c # e # raw, r)))
      else (case scan_string cs of None \<Rightarrow> None | Some (raw, r) \<Rightarrow> Some (c # raw, r)))"

definition literal_char :: "char \<Rightarrow> bool" where
  "literal_char c = (is_alnum c \<or> c \<in> set ''+-.'')"

definition literal :: "string \<Rightarrow> json_value" where
  "literal l =
     (if l = ''null'' then JNull else if l = ''true'' then JBool True
      else if l = ''false'' then JBool False else JNumber l)"

text \<open>
  Recursive descent over a text that the scanner has accepted. Every call spends one unit of fuel and
  every second call at least one byte, so twice the length of the text is fuel enough (\<open>decode_fuel\<close>).
\<close>

fun parse_value :: "nat \<Rightarrow> string \<Rightarrow> (json_value \<times> string) option"
and parse_elements :: "nat \<Rightarrow> string \<Rightarrow> (json_value list \<times> string) option"
and parse_members :: "nat \<Rightarrow> string \<Rightarrow> ((string \<times> json_value) list \<times> string) option" where
  "parse_value 0 s = None"
| "parse_value (Suc n) s =
     (case skip_space s of
        [] \<Rightarrow> None
      | c # cs \<Rightarrow>
          if c = CHR 0x22 then map_option (\<lambda>(raw, r). (JString raw, r)) (scan_string cs)
          else if c = CHR ''{''
          then (if take 1 (skip_space cs) = ''}'' then Some (JObject [], tl (skip_space cs))
                else map_option (\<lambda>(ms, r). (JObject ms, r)) (parse_members n cs))
          else if c = CHR ''[''
          then (if take 1 (skip_space cs) = '']'' then Some (JArray [], tl (skip_space cs))
                else map_option (\<lambda>(vs, r). (JArray vs, r)) (parse_elements n cs))
          else if literal_char c
          then Some (literal (takeWhile literal_char (c # cs)), dropWhile literal_char (c # cs))
          else None)"
| "parse_elements 0 s = None"
| "parse_elements (Suc n) s =
     (case parse_value n s of
        None \<Rightarrow> None
      | Some (v, r) \<Rightarrow>
          (case skip_space r of
             [] \<Rightarrow> None
           | c # cs \<Rightarrow>
               if c = CHR '','' then map_option (\<lambda>(vs, r'). (v # vs, r')) (parse_elements n cs)
               else if c = CHR '']'' then Some ([v], cs) else None))"
| "parse_members 0 s = None"
| "parse_members (Suc n) s =
     (case skip_space s of
        [] \<Rightarrow> None
      | q # s1 \<Rightarrow>
          (case (if q = CHR 0x22 then scan_string s1 else None) of
             None \<Rightarrow> None
           | Some (k, r) \<Rightarrow>
               (case skip_space r of
                  [] \<Rightarrow> None
                | d # s2 \<Rightarrow>
                    (case (if d = CHR '':'' then parse_value n s2 else None) of
                       None \<Rightarrow> None
                     | Some (v, r') \<Rightarrow>
                         (case skip_space r' of
                            [] \<Rightarrow> None
                          | c # cs \<Rightarrow>
                              if c = CHR '','' then map_option (\<lambda>(ms, t). ((k, v) # ms, t)) (parse_members n cs)
                              else if c = CHR ''}'' then Some ([(k, v)], cs) else None)))))"

definition decode :: "bytes \<Rightarrow> json_value option" where
  "decode b = (if json_Valid b then map_option fst (parse_value (2 * length b + 1) b) else None)"

section \<open>String literals\<close>

definition EncodeRune :: "nat \<Rightarrow> string" where
  "EncodeRune r =
     map char_of
       (if r < 0x80 then [r]
        else if r < 0x800 then [0xC0 + r div 64, 0x80 + r mod 64]
        else if 0xD800 \<le> r \<and> r < 0xE000 \<or> 0x10FFFF < r then [0xEF, 0xBF, 0xBD]
        else if r < 0x10000 then [0xE0 + r div 4096, 0x80 + r div 64 mod 64, 0x80 + r mod 64]
        else [0xF0 + r div 262144, 0x80 + r div 4096 mod 64, 0x80 + r div 64 mod 64, 0x80 + r mod 64])"

definition hex_val :: "char \<Rightarrow> nat" where
  "hex_val c = (if byte c < 58 then byte c - 48 else if byte c < 91 then byte c - 55 else byte c - 87)"

text \<open>\<open>getu4\<close>: the code unit of an escape \<open>\uXXXX\<close> at the front.\<close>

definition getu4 :: "string \<Rightarrow> nat option" where
  "getu4 s =
     (if length s < 6 \<or> take 2 s \<noteq> [CHR 0x5C, CHR ''u''] \<or> \<not> list_all json_hex (take 4 (drop 2 s)) then None
      else Some (foldl (\<lambda>a c. 16 * a + hex_val c) 0 (take 4 (drop 2 s))))"

definition simple_escape :: "char \<Rightarrow> char" where
  "simple_escape e =
     (if e = CHR ''b'' then CHR 0x08 else if e = CHR ''f'' then CHR 0x0C else if e = CHR ''n'' then CHR 0x0A
      else if e = CHR ''r'' then CHR 0x0D else if e = CHR ''t'' then CHR 0x09 else e)"

text \<open>
  \<open>unquote\<close>: escapes are resolved, a surrogate pair gives one rune, a lone surrogate and an ill-formed
  byte give U+FFFD.
\<close>

function unquote :: "string \<Rightarrow> string" where
  "unquote s =
     (case s of
        [] \<Rightarrow> []
      | c # cs \<Rightarrow>
          if c = CHR 0x5C then
            (case getu4 s of
               Some hi \<Rightarrow>
                 if 0xD800 \<le> hi \<and> hi < 0xE000 then
                   (case getu4 (drop 6 s) of
                      Some lo \<Rightarrow>
                        if hi < 0xDC00 \<and> 0xDC00 \<le> lo \<and> lo < 0xE000
                        then EncodeRune ((hi - 0xD800) * 1024 + (lo - 0xDC00) + 0x10000) @ unquote (drop 12 s)
                        else EncodeRune RuneError @ unquote (drop 6 s)
                    | None \<Rightarrow> EncodeRune RuneError @ unquote (drop 6 s))
                 else EncodeRune hi @ unquote (drop 6 s)
             | None \<Rightarrow> (case cs of [] \<Rightarrow> [] | e # es \<Rightarrow> simple_escape e # unquote es))
          else
            (case rune_len s of
               None \<Rightarrow> EncodeRune RuneError @ unquote cs
             | Some n \<Rightarrow> take n s @ unquote (drop n s)))"
  by pat_completeness auto
termination
  by (relation "measure length") (auto dest!: rune_len_bounds)

declare unquote.simps [simp del]

section \<open>Numbers\<close>

text \<open>
  A finite non-negative 64-bit float is a pair \<open>(m, e)\<close> that stands for \<open>m * 2^e\<close>, with
  \<open>m < 2^53\<close> and \<open>-1074 \<le> e\<close>.
\<close>

fun bitlen :: "nat \<Rightarrow> nat" where
  "bitlen n = (if n = 0 then 0 else Suc (bitlen (n div 2)))"

declare bitlen.simps [simp del]

text \<open>The quotient rounded to the nearest integer, ties to even.\<close>

definition round_even :: "nat \<Rightarrow> nat \<Rightarrow> nat" where
  "round_even p q = (let d = p div q; r = p mod q in if 2 * r < q \<or> (2 * r = q \<and> even d) then d else d + 1)"

text \<open>\<open>p / q * b^i\<close> as a quotient.\<close>

definition scaled :: "nat \<Rightarrow> nat \<Rightarrow> nat \<Rightarrow> int \<Rightarrow> nat \<times> nat" where
  "scaled b p q i = (if 0 \<le> i then (p * b ^ nat i, q) else (p, q * b ^ nat (- i)))"

definition nearest_float :: "nat \<Rightarrow> nat \<Rightarrow> (nat \<times> int) option" where
  "nearest_float p q =
     (if p = 0 then Some (0, -1074)
      else
        let l = int (bitlen p) - int (bitlen q);
            (p1, q1) = scaled 2 p q (- l);
            e = max (-1074) ((if p1 \<ge> q1 then l else l - 1) - 52);
            (p2, q2) = scaled 2 p q (- e);
            m = round_even p2 q2;
            (m', e') = (if m = 2 ^ 53 then (2 ^ 52, e + 1) else (m, e))
        in if e' + 52 \<ge> 1024 then None else Some (m', e'))"

definition decimal :: "nat \<Rightarrow> int \<Rightarrow> (nat \<times> int) option" where
  "decimal d i = (let (p, q) = scaled 10 d 1 i in nearest_float p q)"

definition sign_part :: "string \<Rightarrow> string" where
  "sign_part s = (if take 1 s = ''-'' then ''-'' else [])"

text \<open>\<open>strconv.ParseFloat\<close> on a JSON number: the sign and the nearest float, if it is in range.\<close>

definition ParseFloat :: "string \<Rightarrow> (string \<times> nat \<times> int) option" where
  "ParseFloat s =
     (let u = drop (length (sign_part s)) s;
          ip = takeWhile isDigit u; r = dropWhile isDigit u;
          fp = (if take 1 r = ''.'' then takeWhile isDigit (tl r) else []);
          r' = (if take 1 r = ''.'' then dropWhile isDigit (tl r) else r);
          ex = (if take 1 r' = ''e'' \<or> take 1 r' = ''E'' then tl r' else ''0'');
          mag = int (digits_val 0 (if take 1 ex = ''+'' \<or> take 1 ex = ''-'' then tl ex else ex));
          x = (if take 1 ex = ''-'' then - mag else mag)
      in map_option (Pair (sign_part s)) (decimal (digits_val 0 (ip @ fp)) (x - int (length fp))))"

text \<open>
  The shortest decimal that rounds to the float, \<open>0.d\<^sub>1\<dots>d\<^sub>n * 10^k\<close>: with a growing number of digits, the
  nearest of the two neighbours of the value that rounds back to it. Seventeen digits always suffice.
\<close>

fun shortest_from :: "nat \<Rightarrow> nat \<Rightarrow> nat \<times> int \<Rightarrow> nat \<Rightarrow> nat \<Rightarrow> int \<Rightarrow> nat \<times> int" where
  "shortest_from 0 n f p q k = (0, 0)"
| "shortest_from (Suc g) n f p q k =
     (let (p1, q1) = scaled 10 p q (int n - k);
          lo = p1 div q1; r = p1 mod q1;
          ok = (\<lambda>d. decimal d (k - int n) = Some f)
      in if ok lo \<and> (2 * r \<le> q1 \<or> \<not> ok (lo + 1)) then (lo, k - int n)
         else if ok (lo + 1) then (lo + 1, k - int n)
         else shortest_from g (Suc n) f p q k)"

fun decimal_exponent :: "nat \<Rightarrow> nat \<Rightarrow> nat \<Rightarrow> int \<Rightarrow> int" where
  "decimal_exponent 0 p q k = k"
| "decimal_exponent (Suc g) p q k =
     (let (p1, q1) = scaled 10 p q (- k) in if p1 < q1 then decimal_exponent g p q (k - 1) else k + 1)"

definition strip_zeros :: "string \<Rightarrow> string" where
  "strip_zeros s = rev (dropWhile (\<lambda>c. c = CHR ''0'') (rev s))"

text \<open>The digits without trailing zeros and the position of the decimal point.\<close>

definition shortest :: "nat \<times> int \<Rightarrow> string \<times> int" where
  "shortest f =
     (let (p, q) = scaled 2 (fst f) 1 (snd f);
          k = decimal_exponent 700 p q 309;
          (d, x) = shortest_from 17 1 f p q k
      in (strip_zeros (Itoa d), x + int (length (Itoa d))))"

definition zeros :: "int \<Rightarrow> string" where
  "zeros i = replicate (nat i) (CHR ''0'')"

text \<open>The number format of \<open>json.Marshal\<close>: exponents below \<open>1e-6\<close> and from \<open>1e21\<close> on.\<close>

definition format_float :: "string \<times> nat \<times> int \<Rightarrow> string" where
  "format_float f =
     (let (sgn, m, e) = f in
      if m = 0 then sgn @ ''0''
      else
        let (ds, k) = shortest (m, e) in
        sgn @
        (if k \<le> -6 \<or> k > 21
         then take 1 ds @ (if length ds > 1 then ''.'' @ tl ds else []) @ ''e''
              @ (if k - 1 < 0 then ''-'' else ''+'') @ Itoa (nat \<bar>k - 1\<bar>)
         else if k \<le> 0 then ''0.'' @ zeros (- k) @ ds
         else if k \<ge> int (length ds) then ds @ zeros (k - int (length ds))
         else take (nat k) ds @ ''.'' @ drop (nat k) ds))"

section \<open>Decoding into \<open>any\<close> and back\<close>

text \<open>A later member with the same key replaces an earlier one.\<close>

definition member_table :: "(string \<times> 'v) list \<Rightarrow> (string, 'v) table" where
  "member_table ms = fold (\<lambda>(k, v). tbl_put (unquote k) v) ms []"

text \<open>\<open>json.Marshal\<close> of the decoded value; \<open>None\<close> if a number is out of range, which is an error of
  \<open>json.Unmarshal\<close>.\<close>

fun remarshal :: "json_value \<Rightarrow> string option" where
  "remarshal JNull = Some ''null''"
| "remarshal (JBool b) = Some (if b then ''true'' else ''false'')"
| "remarshal (JNumber l) = map_option format_float (ParseFloat l)"
| "remarshal (JString raw) = Some (json_string (unquote raw))"
| "remarshal (JArray vs) = map_option json_array (those (map remarshal vs))"
| "remarshal (JObject ms) =
     map_option (\<lambda>es. json_map id (member_table (zip (map fst ms) es))) (those (map (\<lambda>m. remarshal (snd m)) ms))"

section \<open>Decoding into structs\<close>

text \<open>
  A key names the field with exactly that name, or else the first one that equals it up to letter case.
  Two runes outside ASCII fold to ASCII letters: U+017F to S and U+212A to K.
\<close>

fun fold_name :: "string \<Rightarrow> string" where
  "fold_name [] = []"
| "fold_name (c # cs) =
     (if take 2 (c # cs) = [CHR 0xC5, CHR 0xBF] then CHR ''S'' # fold_name (drop 1 cs)
      else if take 3 (c # cs) = [CHR 0xE2, CHR 0x84, CHR 0xAA] then CHR ''K'' # fold_name (drop 2 cs)
      else (if CHR ''a'' \<le> c \<and> c \<le> CHR ''z'' then char_of (byte c - 32) else c) # fold_name cs)"

definition field_name :: "string list \<Rightarrow> string \<Rightarrow> string option" where
  "field_name names k = (if k \<in> set names then Some k else find (\<lambda>n. fold_name n = fold_name k) names)"

text \<open>
  Decoding the members in order; unknown members are skipped. A value of the wrong type makes the whole
  decoding fail, which \<open>json.Unmarshal\<close> reports when it is done. A null leaves the field as it is.
\<close>

definition set_string :: "(string \<Rightarrow> 'a \<Rightarrow> 'a) \<Rightarrow> json_value \<Rightarrow> 'a \<Rightarrow> 'a option" where
  "set_string upd v x = (case v of JString raw \<Rightarrow> Some (upd (unquote raw) x) | JNull \<Rightarrow> Some x | _ \<Rightarrow> None)"

definition set_bool :: "(bool \<Rightarrow> 'a \<Rightarrow> 'a) \<Rightarrow> json_value \<Rightarrow> 'a \<Rightarrow> 'a option" where
  "set_bool upd v x = (case v of JBool b \<Rightarrow> Some (upd b x) | JNull \<Rightarrow> Some x | _ \<Rightarrow> None)"

definition set_int64 :: "(int \<Rightarrow> 'a \<Rightarrow> 'a) \<Rightarrow> json_value \<Rightarrow> 'a \<Rightarrow> 'a option" where
  "set_int64 upd v x =
     (case v of JNumber l \<Rightarrow> map_option (\<lambda>n. upd n x) (ParseInt64 l) | JNull \<Rightarrow> Some x | _ \<Rightarrow> None)"

fun set_members :: "string list \<Rightarrow> (string \<Rightarrow> json_value \<Rightarrow> 'a \<Rightarrow> 'a option) \<Rightarrow> (string \<times> json_value) list \<Rightarrow> 'a \<Rightarrow> 'a option" where
  "set_members names f [] x = Some x"
| "set_members names f ((k, v) # ms) x =
     (case field_name names (unquote k) of
        None \<Rightarrow> set_members names f ms x
      | Some name \<Rightarrow> (case f name v x of None \<Rightarrow> None | Some x' \<Rightarrow> set_members names f ms x'))"

definition set_struct :: "string list \<Rightarrow> (string \<Rightarrow> json_value \<Rightarrow> 'a \<Rightarrow> 'a option) \<Rightarrow> json_value \<Rightarrow> 'a \<Rightarrow> 'a option" where
  "set_struct names f v x = (case v of JObject ms \<Rightarrow> set_members names f ms x | JNull \<Rightarrow> Some x | _ \<Rightarrow> None)"

definition unmarshal_struct :: "string list \<Rightarrow> (string \<Rightarrow> json_value \<Rightarrow> 'a \<Rightarrow> 'a option) \<Rightarrow> bytes \<Rightarrow> 'a \<Rightarrow> 'a option" where
  "unmarshal_struct names f b x = (case decode b of None \<Rightarrow> None | Some v \<Rightarrow> set_struct names f v x)"

section \<open>Facts\<close>

lemma skip_space_le: "length (skip_space s) \<le> length s"
  by (simp add: skip_space_def length_dropWhile_le)

lemma scan_string_shorter: "scan_string s = Some (raw, r) \<Longrightarrow> length r < length s"
  by (induction s arbitrary: raw rule: scan_string.induct) (fastforce split: if_splits list.splits option.splits)+

lemma skip_space_Cons: "skip_space s = c # cs \<Longrightarrow> length cs < length s"
  using skip_space_le [of s] by simp

lemma literal_shorter: "skip_space s = c # cs \<Longrightarrow> literal_char c \<Longrightarrow> length (dropWhile literal_char cs) < length s"
  using skip_space_Cons length_dropWhile_le [of literal_char cs] by fastforce

lemma tl_skip_shorter: "skip_space s = c # cs \<Longrightarrow> length (tl (skip_space cs)) < length s"
  using skip_space_Cons [of s c cs] skip_space_le [of cs] by simp

lemma parse_shorter:
  "parse_value n s = Some (v, r) \<Longrightarrow> length r < length s"
  "parse_elements n s = Some (vs, r) \<Longrightarrow> length r < length s"
  "parse_members n s = Some (ms, r) \<Longrightarrow> length r < length s"
proof (induction n s and n s and n s arbitrary: v r and vs r and ms r
       rule: parse_value_parse_elements_parse_members.induct)
  case (2 n s)
  show ?case
    using "2.prems" "2.IH"
    by (fastforce split: list.splits if_splits dest: skip_space_Cons scan_string_shorter literal_shorter tl_skip_shorter)
next
  case (4 n s)
  show ?case
    using "4.prems" "4.IH"
    by (fastforce split: list.splits if_splits option.splits dest: skip_space_Cons)
next
  case (6 n s)
  show ?case
    using "6.prems" "6.IH"
    by (fastforce split: list.splits if_splits option.splits dest: skip_space_Cons scan_string_shorter)
qed auto

text \<open>More fuel than twice the length of the text changes nothing.\<close>

lemma parse_fuel_step:
  "2 * length s < n \<Longrightarrow> parse_value (Suc n) s = parse_value n s"
  "2 * length s + 1 < n \<Longrightarrow> parse_elements (Suc n) s = parse_elements n s"
  "2 * length s + 1 < n \<Longrightarrow> parse_members (Suc n) s = parse_members n s"
proof (induction n s and n s and n s rule: parse_value_parse_elements_parse_members.induct)
  case (2 n s)
  show ?case
  proof (cases "skip_space s")
    case (Cons c cs)
    then have "2 * length cs + 1 < n" using "2.prems" skip_space_Cons by fastforce
    then show ?thesis
      using "2.IH" Cons by (auto simp del: parse_elements.simps(2) parse_members.simps(2))
  qed simp
next
  case (4 n s)
  have v: "parse_value (Suc n) s = parse_value n s" using "4.IH"(1) "4.prems" by simp
  have "parse_elements (Suc n) cs = parse_elements n cs" if "parse_value n s = Some (v, r)" "skip_space r = CHR '','' # cs" for v r cs
    using that "4.IH"(2) [OF that(1) refl that(2)] "4.prems" parse_shorter(1) skip_space_Cons by fastforce
  then show ?case
    using v by (auto simp del: parse_value.simps(2) parse_elements.simps(2)
        simp: parse_elements.simps(2) [of n s] parse_elements.simps(2) [of "Suc n" s] split: option.splits list.splits)
next
  case (6 n s)
  show ?case
  proof (cases "skip_space s")
    case (Cons q s1)
    note s1 = Cons
    show ?thesis
    proof (cases "q = CHR 0x22 \<and> scan_string s1 \<noteq> None")
      case True
      then obtain k r where kr: "scan_string s1 = Some (k, r)" by auto
      show ?thesis
      proof (cases "skip_space r")
        case (Cons d s2)
        have len: "length s2 < length r" "length r < length s"
          using skip_space_Cons [OF Cons] skip_space_Cons [OF s1] scan_string_shorter [OF kr] by linarith+
        have v: "d = CHR '':'' \<Longrightarrow> parse_value (Suc n) s2 = parse_value n s2"
          using "6.IH"(1) [OF s1 _ _ Cons] True kr len "6.prems" by simp
        have m: "parse_members (Suc n) cs = parse_members n cs"
          if "d = CHR '':''" "parse_value n s2 = Some (w, t)" "skip_space t = CHR '','' # cs" for w t cs
          using "6.IH"(2) [OF s1 _ _ Cons _ _ that(3)] that True kr len "6.prems"
            parse_shorter(1) [OF that(2)] skip_space_Cons [OF that(3)] by simp
        show ?thesis
          using v m by (auto simp del: parse_value.simps(2) parse_members.simps(2) split: option.splits list.splits
              simp: parse_members.simps(2) [of n s] parse_members.simps(2) [of "Suc n" s] s1 kr Cons)
      qed (simp add: s1 kr)
    next
      case False
      then have "(if q = CHR 0x22 then scan_string s1 else None) = None" by (cases "scan_string s1") auto
      then show ?thesis by (simp only: parse_members.simps s1 list.case option.case)
    qed
  qed simp
qed auto

lemma decode_fuel: "json_Valid b \<Longrightarrow> decode b = map_option fst (parse_value (2 * length b + 1 + k) b)"
proof (induction k)
  case (Suc k)
  then show ?case using parse_fuel_step(1) [of b "2 * length b + 1 + k"] by simp
qed (simp add: decode_def)

end
