(* ===== verification/Oauth.thy ===== *)
theory Oauth
  imports Go_JsonDec
begin

text \<open>
  The OAuth foundation of the connectors (\<open>platform/oauth\<close>): the stored credential with its JSON form,
  the providers and their configuration, and the service that exchanges and refreshes tokens.

  The module \<open>golang.org/x/oauth2\<close> and the HTTP client are code of other modules: the fields of the
  parameter \<open>oauth2_lib\<close>, operations on a world \<open>'w\<close>.
\<close>

section \<open>The model\<close>

subsection \<open>Points in time\<close>

text \<open>A \<open>time.Time\<close> with its zone: nanoseconds from the zero time, and the zone's offset in seconds.\<close>

record go_time =
  gt_time :: time
  gt_offset :: int

definition zero_time :: go_time where
  "zero_time = \<lparr>gt_time = 0, gt_offset = 0\<rparr>"

definition IsZero :: "go_time \<Rightarrow> bool" where
  "IsZero t = (gt_time t = 0)"

text \<open>Seconds from the zero time to the Unix epoch.\<close>

definition unixToInternal :: int where
  "unixToInternal = 62135596800"

definition num_at :: "string \<Rightarrow> nat \<Rightarrow> nat \<Rightarrow> nat \<Rightarrow> nat \<Rightarrow> nat option" where
  "num_at s i n lo hi =
     (let ds = take n (drop i s); v = digits_val 0 ds in
      if length ds = n \<and> list_all isDigit ds \<and> lo \<le> v \<and> v \<le> hi then Some v else None)"

definition parse_offset :: "string \<Rightarrow> int option" where
  "parse_offset z =
     (if z = ''Z'' then Some 0
      else if length z \<noteq> 6 \<or> z ! 3 \<noteq> CHR '':'' \<or> z ! 0 \<notin> set ''+-'' then None
      else case (num_at z 1 2 0 23, num_at z 4 2 0 59) of
             (Some h, Some m) \<Rightarrow> Some ((if z ! 0 = CHR ''-'' then - 1 else 1) * (int h * 60 + int m) * 60)
           | _ \<Rightarrow> None)"

text \<open>\<open>Time.UnmarshalJSON\<close> on a string: strict RFC 3339, with the digits of a fraction after the ninth
  ignored.\<close>

definition parseStrictRFC3339 :: "string \<Rightarrow> go_time option" where
  "parseStrictRFC3339 s =
     (if length s < 19 \<or> s ! 4 \<noteq> CHR ''-'' \<or> s ! 7 \<noteq> CHR ''-'' \<or> s ! 10 \<noteq> CHR ''T'' \<or> s ! 13 \<noteq> CHR '':'' \<or> s ! 16 \<noteq> CHR '':''
      then None
      else case (num_at s 0 4 0 9999, num_at s 5 2 1 12, num_at s 8 2 1 31, num_at s 11 2 0 23, num_at s 14 2 0 59, num_at s 17 2 0 59) of
        (Some year, Some month, Some day, Some hour, Some mn, Some sec) \<Rightarrow>
          if day > daysIn month year then None
          else
            let rest = drop 19 s;
                frac = (if take 1 rest = ''.'' then takeWhile isDigit (tl rest) else []);
                z = (if frac = [] then rest else dropWhile isDigit (tl rest));
                nanos = digits_val 0 (take 9 (frac @ replicate 9 (CHR ''0'')));
                secs = 86400 * unix_days year month day + 3600 * int hour + 60 * int mn + int sec + unixToInternal
            in map_option (\<lambda>off. \<lparr>gt_time = (secs - off) * 1000000000 + int nanos, gt_offset = off\<rparr>) (parse_offset z)
      | _ \<Rightarrow> None)"

text \<open>The civil date of a number of days after 1 January of the year 1, by 400-year eras that start on
  1 March of the year 0.\<close>

definition civil :: "int \<Rightarrow> int \<times> int \<times> int" where
  "civil days =
     (let z = days + 306; era = z div 146097; doe = z mod 146097;
          yoe = (doe - doe div 1460 + doe div 36524 - doe div 146096) div 365;
          doy = doe - (365 * yoe + yoe div 4 - yoe div 100);
          mp = (5 * doy + 2) div 153;
          d = doy - (153 * mp + 2) div 5 + 1;
          m = (if mp < 10 then mp + 3 else mp - 9)
      in (yoe + era * 400 + (if m \<le> 2 then 1 else 0), m, d))"

definition padded :: "nat \<Rightarrow> int \<Rightarrow> string" where
  "padded w n = (let ds = Itoa (nat n) in replicate (w - length ds) (CHR ''0'') @ ds)"

text \<open>\<open>Time.MarshalJSON\<close> without the quotes.\<close>

definition formatStrictRFC3339 :: "go_time \<Rightarrow> string option" where
  "formatStrictRFC3339 t =
     (let local = gt_time t + gt_offset t * 1000000000;
          nanos = local mod 1000000000; secs = local div 1000000000;
          (y, m, d) = civil (secs div 86400); s = secs mod 86400;
          zone = \<bar>gt_offset t\<bar> div 60
      in if y < 0 \<or> y > 9999 \<or> zone div 60 \<ge> 24 then None
         else Some (padded 4 y @ ''-'' @ padded 2 m @ ''-'' @ padded 2 d @ ''T'' @ padded 2 (s div 3600) @ '':''
                @ padded 2 (s div 60 mod 60) @ '':'' @ padded 2 (s mod 60)
                @ (if nanos = 0 then [] else ''.'' @ strip_zeros (padded 9 nanos))
                @ (if gt_offset t = 0 then ''Z''
                   else (if gt_offset t < 0 \<and> zone \<noteq> 0 then ''-'' else ''+'') @ padded 2 (zone div 60) @ '':'' @ padded 2 (zone mod 60))))"

subsection \<open>The stored credential (\<open>token.go\<close>)\<close>

definition tokenMarker :: string where
  "tokenMarker = ''v1''"

record Token =
  tk_AskerOAuth :: string
  tk_Provider :: string
  tk_ConnectorID :: string
  tk_AccessToken :: string
  tk_RefreshToken :: string
  tk_TokenType :: string
  tk_Expiry :: go_time
  tk_Scope :: string

definition zero_token :: Token where
  "zero_token = \<lparr>tk_AskerOAuth = [], tk_Provider = [], tk_ConnectorID = [], tk_AccessToken = [],
     tk_RefreshToken = [], tk_TokenType = [], tk_Expiry = zero_time, tk_Scope = []\<rparr>"

definition omit_empty :: "string \<Rightarrow> string \<Rightarrow> (string \<times> string) list" where
  "omit_empty name v = (if v = [] then [] else [(name, json_string v)])"

text \<open>The option \<open>omitempty\<close> has no effect on a struct, so the expiry is always written.\<close>

definition token_Marshal :: "Token \<Rightarrow> string + bytes" where
  "token_Marshal t =
     (let marker = (if tk_AskerOAuth t = [] then tokenMarker else tk_AskerOAuth t) in
      case formatStrictRFC3339 (tk_Expiry t) of
        None \<Rightarrow> Inl ''json: error calling MarshalJSON for type time.Time''
      | Some expiry \<Rightarrow>
          Inr (json_object
            ([(''asker_oauth'', json_string marker), (''provider'', json_string (tk_Provider t)),
              (''connector_id'', json_string (tk_ConnectorID t)), (''access_token'', json_string (tk_AccessToken t))]
             @ omit_empty ''refresh_token'' (tk_RefreshToken t) @ omit_empty ''token_type'' (tk_TokenType t)
             @ [(''expiry'', CHR 0x22 # expiry @ [CHR 0x22])] @ omit_empty ''scope'' (tk_Scope t))))"

definition token_names :: "string list" where
  "token_names = [''asker_oauth'', ''provider'', ''connector_id'', ''access_token'', ''refresh_token'', ''token_type'',
     ''expiry'', ''scope'']"

definition set_expiry :: "json_value \<Rightarrow> Token \<Rightarrow> Token option" where
  "set_expiry v t =
     (case v of
        JNull \<Rightarrow> Some t
      | JString raw \<Rightarrow> map_option (\<lambda>x. t\<lparr>tk_Expiry := x\<rparr>) (parseStrictRFC3339 raw)
      | _ \<Rightarrow> None)"

definition set_token_field :: "string \<Rightarrow> json_value \<Rightarrow> Token \<Rightarrow> Token option" where
  "set_token_field name v t =
     (if name = ''asker_oauth'' then set_string (\<lambda>x. tk_AskerOAuth_update (\<lambda>_. x)) v t
      else if name = ''provider'' then set_string (\<lambda>x. tk_Provider_update (\<lambda>_. x)) v t
      else if name = ''connector_id'' then set_string (\<lambda>x. tk_ConnectorID_update (\<lambda>_. x)) v t
      else if name = ''access_token'' then set_string (\<lambda>x. tk_AccessToken_update (\<lambda>_. x)) v t
      else if name = ''refresh_token'' then set_string (\<lambda>x. tk_RefreshToken_update (\<lambda>_. x)) v t
      else if name = ''token_type'' then set_string (\<lambda>x. tk_TokenType_update (\<lambda>_. x)) v t
      else if name = ''expiry'' then set_expiry v t
      else set_string (\<lambda>x. tk_Scope_update (\<lambda>_. x)) v t)"

definition token_Parse :: "bytes \<Rightarrow> Token option" where
  "token_Parse b =
     (case unmarshal_struct token_names set_token_field b zero_token of
        None \<Rightarrow> None
      | Some t \<Rightarrow> if tk_AskerOAuth t \<noteq> tokenMarker then None else Some t)"

definition NeedsRefresh :: "Token \<Rightarrow> time \<Rightarrow> int \<Rightarrow> bool" where
  "NeedsRefresh t now skew =
     (if tk_RefreshToken t = [] then False
      else if IsZero (tk_Expiry t) then False
      else \<not> now < gt_time (tk_Expiry t) - skew)"

text \<open>A token of \<open>x/oauth2\<close>; the last field is its extra \<open>scope\<close> if that is a string.\<close>

record oauth2_Token =
  o2_AccessToken :: string
  o2_RefreshToken :: string
  o2_TokenType :: string
  o2_Expiry :: go_time
  o2_Scope :: "string option"

definition OAuth2Token :: "Token \<Rightarrow> oauth2_Token" where
  "OAuth2Token t = \<lparr>o2_AccessToken = tk_AccessToken t, o2_RefreshToken = tk_RefreshToken t,
     o2_TokenType = tk_TokenType t, o2_Expiry = tk_Expiry t, o2_Scope = None\<rparr>"

definition tokenFrom :: "string \<Rightarrow> string \<Rightarrow> oauth2_Token \<Rightarrow> Token \<Rightarrow> Token" where
  "tokenFrom provider connectorID tok prev =
     \<lparr>tk_AskerOAuth = tokenMarker, tk_Provider = provider, tk_ConnectorID = connectorID,
      tk_AccessToken = o2_AccessToken tok,
      tk_RefreshToken = (if o2_RefreshToken tok = [] then tk_RefreshToken prev else o2_RefreshToken tok),
      tk_TokenType = o2_TokenType tok,
      tk_Expiry = (if IsZero (o2_Expiry tok) then tk_Expiry prev else o2_Expiry tok),
      tk_Scope = (case o2_Scope tok of Some sc \<Rightarrow> if sc \<noteq> [] then sc else tk_Scope prev | None \<Rightarrow> tk_Scope prev)\<rparr>"

subsection \<open>Providers and their configuration (\<open>provider.go\<close>, \<open>config.go\<close>)\<close>

definition Google :: string where "Google = ''google''"
definition Microsoft :: string where "Microsoft = ''microsoft''"
definition Slack :: string where "Slack = ''slack''"
definition Atlassian :: string where "Atlassian = ''atlassian''"

definition Providers :: "string list" where
  "Providers = [Google, Microsoft, Slack, Atlassian]"

definition ParseProvider :: "string \<Rightarrow> string option" where
  "ParseProvider s = (if s \<in> set Providers then Some s else None)"

definition provider_Valid :: "string \<Rightarrow> bool" where
  "provider_Valid p = (ParseProvider p \<noteq> None)"

definition connectorMapping :: "(string, string \<times> string list) table" where
  "connectorMapping =
     [(''gmail'', Google, [''https://www.googleapis.com/auth/gmail.readonly'']),
      (''gcal'', Google, [''https://www.googleapis.com/auth/calendar.readonly'']),
      (''gdrive'', Google, [''https://www.googleapis.com/auth/drive.readonly'']),
      (''outlook-mail'', Microsoft, [''Mail.Read'', ''offline_access'']),
      (''outlook-cal'', Microsoft, [''Calendars.Read'', ''offline_access'']),
      (''msteams'', Microsoft, [''Chat.Read'', ''ChannelMessage.Read.All'', ''offline_access'']),
      (''slack'', Slack, [''channels:history'', ''channels:read'', ''users:read'']),
      (''jira'', Atlassian, [''read:jira-work'', ''offline_access'']),
      (''confluence'', Atlassian, [''read:confluence-content.all'', ''offline_access''])]"

definition ConnectorOAuth :: "string \<Rightarrow> (string \<times> string list) option" where
  "ConnectorOAuth connectorID = tbl_get connectorMapping connectorID"

definition errUnconfigured :: "string \<Rightarrow> string" where
  "errUnconfigured p = ''oauth: provider '' @ quoted p @ '' is not configured (missing client_id/client_secret)''"

definition errUnknownProvider :: "string \<Rightarrow> string" where
  "errUnknownProvider p = ''oauth: unknown provider '' @ quoted p"

record ProviderConfig =
  pv_ClientID :: string
  pv_ClientSecret :: string
  pv_AuthURL :: string
  pv_TokenURL :: string
  pv_Tenant :: string
  pv_Audience :: string

record oauth_Config =
  oc_Google :: ProviderConfig
  oc_Microsoft :: ProviderConfig
  oc_Slack :: ProviderConfig
  oc_Atlassian :: ProviderConfig

definition providerConfig :: "oauth_Config \<Rightarrow> string \<Rightarrow> ProviderConfig option" where
  "providerConfig c p =
     (if p = Google then Some (oc_Google c) else if p = Microsoft then Some (oc_Microsoft c)
      else if p = Slack then Some (oc_Slack c) else if p = Atlassian then Some (oc_Atlassian c) else None)"

definition IsConfigured :: "oauth_Config \<Rightarrow> string \<Rightarrow> bool" where
  "IsConfigured c p =
     (case providerConfig c p of None \<Rightarrow> False | Some pc \<Rightarrow> pv_ClientID pc \<noteq> [] \<and> pv_ClientSecret pc \<noteq> [])"

fun firstNonEmpty :: "string list \<Rightarrow> string" where
  "firstNonEmpty [] = []"
| "firstNonEmpty (v # vs) = (if v \<noteq> [] then v else firstNonEmpty vs)"

definition envPrefix :: string where
  "envPrefix = ''ASKER_OAUTH_''"

definition upper_byte :: "char \<Rightarrow> char" where
  "upper_byte c = (if CHR ''a'' \<le> c \<and> c \<le> CHR ''z'' then char_of (of_char c - 32 :: nat) else c)"

text \<open>The environment is a function from names to values, empty where a variable is not set.\<close>

definition oauth_getenv :: "(string \<Rightarrow> string) \<Rightarrow> string \<Rightarrow> string \<Rightarrow> string" where
  "oauth_getenv env p suff = env (envPrefix @ map upper_byte p @ ''_'' @ suff)"

definition msEndpoint :: "string \<Rightarrow> string \<Rightarrow> string \<Rightarrow> string" where
  "msEndpoint before tenant after = before @ tenant @ after"

definition provider_env :: "(string \<Rightarrow> string) \<Rightarrow> string \<Rightarrow> string \<Rightarrow> string \<Rightarrow> string \<Rightarrow> string \<Rightarrow> ProviderConfig" where
  "provider_env env p authURL tokenURL tenant audience =
     \<lparr>pv_ClientID = oauth_getenv env p ''CLIENT_ID'', pv_ClientSecret = oauth_getenv env p ''CLIENT_SECRET'',
      pv_AuthURL = firstNonEmpty [oauth_getenv env p ''AUTH_URL'', authURL],
      pv_TokenURL = firstNonEmpty [oauth_getenv env p ''TOKEN_URL'', tokenURL],
      pv_Tenant = tenant, pv_Audience = audience\<rparr>"

definition LoadConfig :: "(string \<Rightarrow> string) \<Rightarrow> oauth_Config" where
  "LoadConfig env =
     (let tenant = firstNonEmpty [env (envPrefix @ ''MICROSOFT_TENANT''), ''common''];
          audience = firstNonEmpty [env (envPrefix @ ''ATLASSIAN_AUDIENCE''), ''api.atlassian.com''];
          ms = ''https://login.microsoftonline.com/''
      in \<lparr>oc_Google = provider_env env Google ''https://accounts.google.com/o/oauth2/v2/auth''
             ''https://oauth2.googleapis.com/token'' [] [],
          oc_Microsoft = provider_env env Microsoft (msEndpoint ms tenant ''/oauth2/v2.0/authorize'')
             (msEndpoint ms tenant ''/oauth2/v2.0/token'') tenant [],
          oc_Slack = provider_env env Slack ''https://slack.com/oauth/v2/authorize''
             ''https://slack.com/api/oauth.v2.access'' [] [],
          oc_Atlassian = provider_env env Atlassian ''https://auth.atlassian.com/authorize''
             ''https://auth.atlassian.com/oauth/token'' [] audience\<rparr>)"

subsection \<open>The service (\<open>service.go\<close>)\<close>

record oauth2_Config =
  o2c_ClientID :: string
  o2c_ClientSecret :: string
  o2c_AuthURL :: string
  o2c_TokenURL :: string
  o2c_RedirectURL :: string
  o2c_Scopes :: "string list"

text \<open>
  What the service calls: the authorize URL, code exchange and token source of \<open>x/oauth2\<close>, making and
  sending an HTTP request (the answer's status and its body, which may fail to be read), and the clock.
\<close>

record 'w oauth2_lib =
  ol_AuthCodeURL :: "oauth2_Config \<Rightarrow> string \<Rightarrow> (string \<times> string) list \<Rightarrow> string"
  ol_Exchange :: "oauth2_Config \<Rightarrow> string \<Rightarrow> string \<Rightarrow> 'w \<Rightarrow> (string + oauth2_Token) \<times> 'w"
  ol_Token :: "oauth2_Config \<Rightarrow> oauth2_Token \<Rightarrow> 'w \<Rightarrow> (string + oauth2_Token) \<times> 'w"
  ol_NewRequest :: "string \<Rightarrow> string option"
  ol_Do :: "string \<Rightarrow> (string \<times> string) list \<Rightarrow> string \<Rightarrow> 'w \<Rightarrow> (string + nat \<times> (string + bytes)) \<times> 'w"
  ol_Now :: "'w \<Rightarrow> go_time \<times> 'w"

definition oauthConfig :: "oauth_Config \<Rightarrow> string \<Rightarrow> string list \<Rightarrow> string \<Rightarrow> string + oauth2_Config \<times> ProviderConfig" where
  "oauthConfig c p scopes redirectURI =
     (case providerConfig c p of
        None \<Rightarrow> Inl (errUnknownProvider p)
      | Some pc \<Rightarrow>
          if pv_ClientID pc = [] \<or> pv_ClientSecret pc = [] then Inl (errUnconfigured p)
          else Inr (\<lparr>o2c_ClientID = pv_ClientID pc, o2c_ClientSecret = pv_ClientSecret pc, o2c_AuthURL = pv_AuthURL pc,
                     o2c_TokenURL = pv_TokenURL pc, o2c_RedirectURL = redirectURI, o2c_Scopes = scopes\<rparr>, pc))"

fun join_with :: "string \<Rightarrow> string list \<Rightarrow> string" where
  "join_with sep [] = []"
| "join_with sep [x] = x"
| "join_with sep (x # y # ys) = x @ sep @ join_with sep (y # ys)"

definition AuthCodeURL :: "'w oauth2_lib \<Rightarrow> oauth_Config \<Rightarrow> string \<Rightarrow> string list \<Rightarrow> string \<Rightarrow> string \<Rightarrow> string \<Rightarrow> string + string" where
  "AuthCodeURL X c p scopes redirectURI state challenge =
     (case oauthConfig c p scopes redirectURI of
        Inl e \<Rightarrow> Inl e
      | Inr (conf, pc) \<Rightarrow>
          let opts = [(''code_challenge'', challenge), (''code_challenge_method'', ''S256'')];
              (conf', opts') =
                (if p = Google then (conf, opts @ [(''access_type'', ''offline''), (''prompt'', ''consent'')])
                 else if p = Atlassian then (conf, opts @ [(''audience'', pv_Audience pc), (''prompt'', ''consent'')])
                 else if p = Slack then (conf\<lparr>o2c_Scopes := []\<rparr>, opts @ [(''user_scope'', join_with '','' scopes)])
                 else (conf, opts))
          in Inr (ol_AuthCodeURL X conf' state opts'))"

text \<open>The members of Slack's answer: \<open>ok\<close>, \<open>error\<close>, \<open>scope\<close>, \<open>token_type\<close> and those of \<open>authed_user\<close>.\<close>

record slackUser =
  su_AccessToken :: string
  su_RefreshToken :: string
  su_TokenType :: string
  su_Scope :: string
  su_ExpiresIn :: int

record slackTokenResponse =
  sr_OK :: bool
  sr_Error :: string
  sr_Scope :: string
  sr_TokenType :: string
  sr_AuthedUser :: slackUser

definition zero_slack :: slackTokenResponse where
  "zero_slack = \<lparr>sr_OK = False, sr_Error = [], sr_Scope = [], sr_TokenType = [],
     sr_AuthedUser = \<lparr>su_AccessToken = [], su_RefreshToken = [], su_TokenType = [], su_Scope = [], su_ExpiresIn = 0\<rparr>\<rparr>"

definition set_user_field :: "string \<Rightarrow> json_value \<Rightarrow> slackUser \<Rightarrow> slackUser option" where
  "set_user_field name v u =
     (if name = ''access_token'' then set_string (\<lambda>x. su_AccessToken_update (\<lambda>_. x)) v u
      else if name = ''refresh_token'' then set_string (\<lambda>x. su_RefreshToken_update (\<lambda>_. x)) v u
      else if name = ''token_type'' then set_string (\<lambda>x. su_TokenType_update (\<lambda>_. x)) v u
      else if name = ''scope'' then set_string (\<lambda>x. su_Scope_update (\<lambda>_. x)) v u
      else set_int64 (\<lambda>x. su_ExpiresIn_update (\<lambda>_. x)) v u)"

definition set_slack_field :: "string \<Rightarrow> json_value \<Rightarrow> slackTokenResponse \<Rightarrow> slackTokenResponse option" where
  "set_slack_field name v r =
     (if name = ''ok'' then set_bool (\<lambda>x. sr_OK_update (\<lambda>_. x)) v r
      else if name = ''error'' then set_string (\<lambda>x. sr_Error_update (\<lambda>_. x)) v r
      else if name = ''scope'' then set_string (\<lambda>x. sr_Scope_update (\<lambda>_. x)) v r
      else if name = ''token_type'' then set_string (\<lambda>x. sr_TokenType_update (\<lambda>_. x)) v r
      else map_option (\<lambda>u. r\<lparr>sr_AuthedUser := u\<rparr>)
             (set_struct [''access_token'', ''refresh_token'', ''token_type'', ''scope'', ''expires_in'']
                set_user_field v (sr_AuthedUser r)))"

definition slackErr :: "string \<Rightarrow> string" where
  "slackErr code = (if code = [] then ''unknown_error'' else code)"

text \<open>\<open>time.Duration(n) * time.Second\<close> is a product of 64-bit integers.\<close>

definition seconds_ns :: "int \<Rightarrow> int" where
  "seconds_ns n = sint (word_of_int n * 1000000000 :: 64 word)"

definition slackTokenRequest :: "'w oauth2_lib \<Rightarrow> string \<Rightarrow> (string \<times> string) list \<Rightarrow> string \<Rightarrow> 'w \<Rightarrow> (string + Token) \<times> 'w" where
  "slackTokenRequest X tokenURL form op w =
     (case ol_NewRequest X tokenURL of
        Some e \<Rightarrow> (Inl (''oauth: slack '' @ op @ '' request: '' @ e), w)
      | None \<Rightarrow>
     (case ol_Do X tokenURL
             [(''Content-Type'', ''application/x-www-form-urlencoded''), (''Accept'', ''application/json'')]
             (encode_values (sort_key fst form)) w of
        (Inl e, w1) \<Rightarrow> (Inl (''oauth: slack '' @ op @ '': '' @ e), w1)
      | (Inr (_, Inl e), w1) \<Rightarrow> (Inl (''oauth: slack '' @ op @ '': read body: '' @ e), w1)
      | (Inr (code, Inr body), w1) \<Rightarrow>
          if code \<noteq> 200 then (Inl (''oauth: slack '' @ op @ '': HTTP '' @ Itoa code), w1)
          else case unmarshal_struct [''ok'', ''error'', ''scope'', ''token_type'', ''authed_user''] set_slack_field
                      (take 1048576 body) zero_slack of
            None \<Rightarrow> (Inl (''oauth: slack '' @ op @ '': decode''), w1)
          | Some sr \<Rightarrow>
              let u = sr_AuthedUser sr in
              if \<not> sr_OK sr then (Inl (''oauth: slack '' @ op @ '' failed: '' @ slackErr (sr_Error sr)), w1)
              else if su_AccessToken u = [] then (Inl (''oauth: slack '' @ op @ '': no user access token in response''), w1)
              else
                let tokenType = firstNonEmpty [su_TokenType u, sr_TokenType sr, ''Bearer''];
                    scope = firstNonEmpty [su_Scope u, sr_Scope sr];
                    (expiry, w2) =
                      (if su_ExpiresIn u > 0
                       then let (now, w') = ol_Now X w1 in (now\<lparr>gt_time := gt_time now + seconds_ns (su_ExpiresIn u)\<rparr>, w')
                       else (zero_time, w1))
                in (Inr \<lparr>tk_AskerOAuth = tokenMarker, tk_Provider = Slack, tk_ConnectorID = [],
                         tk_AccessToken = su_AccessToken u, tk_RefreshToken = su_RefreshToken u,
                         tk_TokenType = tokenType, tk_Expiry = expiry, tk_Scope = scope\<rparr>, w2)))"

definition exchangeSlack :: "'w oauth2_lib \<Rightarrow> oauth_Config \<Rightarrow> string \<Rightarrow> string \<Rightarrow> string \<Rightarrow> 'w \<Rightarrow> (string + Token) \<times> 'w" where
  "exchangeSlack X c code redirectURI pkceVerifier w =
     (case oauthConfig c Slack [] redirectURI of
        Inl e \<Rightarrow> (Inl e, w)
      | Inr (conf, _) \<Rightarrow>
          slackTokenRequest X (o2c_TokenURL conf)
            [(''client_id'', o2c_ClientID conf), (''client_secret'', o2c_ClientSecret conf), (''code'', code),
             (''redirect_uri'', redirectURI), (''code_verifier'', pkceVerifier)] ''exchange'' w)"

definition Exchange :: "'w oauth2_lib \<Rightarrow> oauth_Config \<Rightarrow> string \<Rightarrow> string \<Rightarrow> string \<Rightarrow> string \<Rightarrow> 'w \<Rightarrow> (string + Token) \<times> 'w" where
  "Exchange X c p code redirectURI pkceVerifier w =
     (if p = Slack then exchangeSlack X c code redirectURI pkceVerifier w
      else case oauthConfig c p [] redirectURI of
        Inl e \<Rightarrow> (Inl e, w)
      | Inr (conf, _) \<Rightarrow>
          (case ol_Exchange X conf code pkceVerifier w of
             (Inl e, w1) \<Rightarrow> (Inl (''oauth: '' @ p @ '' exchange: '' @ e), w1)
           | (Inr tok, w1) \<Rightarrow> (Inr (tokenFrom p [] tok zero_token), w1)))"

definition refreshSlack :: "'w oauth2_lib \<Rightarrow> oauth_Config \<Rightarrow> Token \<Rightarrow> 'w \<Rightarrow> (string + Token) \<times> 'w" where
  "refreshSlack X c t w =
     (case oauthConfig c Slack [] [] of
        Inl e \<Rightarrow> (Inl e, w)
      | Inr (conf, _) \<Rightarrow>
          (case slackTokenRequest X (o2c_TokenURL conf)
                  [(''grant_type'', ''refresh_token''), (''client_id'', o2c_ClientID conf),
                   (''client_secret'', o2c_ClientSecret conf), (''refresh_token'', tk_RefreshToken t)] ''refresh'' w of
             (Inl e, w1) \<Rightarrow> (Inl e, w1)
           | (Inr tok, w1) \<Rightarrow>
               (Inr (tok\<lparr>tk_ConnectorID := tk_ConnectorID t,
                  tk_RefreshToken := (if tk_RefreshToken tok = [] then tk_RefreshToken t else tk_RefreshToken tok),
                  tk_Expiry := (if IsZero (tk_Expiry tok) then tk_Expiry t else tk_Expiry tok),
                  tk_Scope := (if tk_Scope tok = [] then tk_Scope t else tk_Scope tok)\<rparr>), w1)))"

definition Refresh :: "'w oauth2_lib \<Rightarrow> oauth_Config \<Rightarrow> string \<Rightarrow> Token \<Rightarrow> 'w \<Rightarrow> (string + Token) \<times> 'w" where
  "Refresh X c p t w =
     (if \<not> IsConfigured c p then (Inl (if providerConfig c p = None then errUnknownProvider p else errUnconfigured p), w)
      else if tk_RefreshToken t = [] then (Inr t, w)
      else if p = Slack then refreshSlack X c t w
      else case oauthConfig c p [] [] of
        Inl e \<Rightarrow> (Inl e, w)
      | Inr (conf, _) \<Rightarrow>
          (case ol_Token X conf (OAuth2Token t) w of
             (Inl e, w1) \<Rightarrow> (Inl (''oauth: '' @ p @ '' refresh: '' @ e), w1)
           | (Inr tok, w1) \<Rightarrow> (Inr (tokenFrom p (tk_ConnectorID t) tok t), w1)))"

section \<open>Facts\<close>

lemma tokenFrom_keeps:
  "tk_RefreshToken prev \<noteq> [] \<Longrightarrow> tk_RefreshToken (tokenFrom p cid tok prev) \<noteq> []"
  "\<not> IsZero (tk_Expiry prev) \<Longrightarrow> \<not> IsZero (tk_Expiry (tokenFrom p cid tok prev))"
  by (simp_all add: tokenFrom_def)

lemma slackTokenRequest_token:
  "slackTokenRequest X url form op w = (Inr tok, w') \<Longrightarrow> tk_AskerOAuth tok = tokenMarker \<and> tk_AccessToken tok \<noteq> []"
  unfolding slackTokenRequest_def
  by (auto simp: Let_def split: option.splits prod.splits sum.splits if_splits)

text \<open>
  A refresh never loses what the next refresh needs: a credential with a refresh token and an expiry keeps
  both, whatever the provider answers, and stays a marked credential of the same connector.
\<close>

lemma Refresh_keeps:
  assumes "Refresh X c p t w = (Inr t', w')"
  shows "tk_RefreshToken t \<noteq> [] \<Longrightarrow> tk_RefreshToken t' \<noteq> []"
    and "\<not> IsZero (tk_Expiry t) \<Longrightarrow> \<not> IsZero (tk_Expiry t')"
    and "tk_ConnectorID t' = tk_ConnectorID t"
    and "tk_AskerOAuth t = tokenMarker \<Longrightarrow> tk_AskerOAuth t' = tokenMarker"
  using assms unfolding Refresh_def refreshSlack_def
  by (auto simp: tokenFrom_keeps tokenFrom_def dest: slackTokenRequest_token split: if_splits sum.splits prod.splits)

text \<open>A token that the token source hands back unchanged is the result of the refresh.\<close>

lemma Refresh_reuse:
  assumes "ol_Token X conf (OAuth2Token t) w = (Inr (OAuth2Token t), w)"
    and "oauthConfig c (tk_Provider t) [] [] = Inr (conf, pc)" "tk_Provider t \<noteq> Slack"
    and "tk_RefreshToken t \<noteq> []" "tk_AskerOAuth t = tokenMarker"
  shows "Refresh X c (tk_Provider t) t w = (Inr t, w)"
proof -
  have "IsConfigured c (tk_Provider t)"
    using assms(2) by (auto simp: oauthConfig_def IsConfigured_def split: option.splits if_splits)
  then show ?thesis
    using assms by (simp add: Refresh_def tokenFrom_def OAuth2Token_def)
qed

end
