(* ===== verification/Hub_Sync.thy ===== *)
theory Hub_Sync
  imports Connector_Sdk Oauth Kafka Control_Server_Facts
begin

text \<open>
  One sync pass of the connector hub (\<open>services/connector-hub/internal/hub\<close>): the emitter every document
  passes through (\<open>emit.go\<close>), the credential and the configuration a connector is given, and \<open>syncOnce\<close>
  with its bookkeeping (\<open>scheduler.go\<close>), over an arbitrary connector.

  The control-plane client, the producer, the clock and the OAuth service are operations on a world \<open>'w\<close>;
  at the end they are composed of the models of those components.
\<close>

section \<open>The model\<close>

text \<open>
  The hub's collaborators: the RPCs of the control plane, the producer, the clock, \<open>timestamppb.New\<close>, the
  text of a gRPC error, and the OAuth service, which is absent if no provider is configured.
\<close>

record 'w hub_env =
  cp_GetSyncState :: "go_ctx \<Rightarrow> string \<Rightarrow> 'w \<Rightarrow> (rpc_status + pb_SyncState) \<times> 'w"
  cp_SetSyncState :: "go_ctx \<Rightarrow> pb_SyncState \<Rightarrow> 'w \<Rightarrow> (rpc_status + pb_SyncState) \<times> 'w"
  cp_GetToken :: "go_ctx \<Rightarrow> string \<Rightarrow> 'w \<Rightarrow> (rpc_status + bytes) \<times> 'w"
  cp_PutToken :: "go_ctx \<Rightarrow> string \<Rightarrow> bytes \<Rightarrow> 'w \<Rightarrow> (rpc_status + unit) \<times> 'w"
  hb_ProduceDocument :: "go_ctx \<Rightarrow> string \<Rightarrow> Document option \<Rightarrow> 'w \<Rightarrow> string option \<times> 'w"
  hb_now :: "'w \<Rightarrow> time \<times> 'w"
  hb_ts_New :: "time \<Rightarrow> pb_timestamp"
  hb_text :: "rpc_status \<Rightarrow> string"
  hb_oauth :: "(string \<Rightarrow> Token \<Rightarrow> 'w \<Rightarrow> (string + Token) \<times> 'w) option"

text \<open>What a pass can end with: an error of the hub, the connector's own, or a panic, which ends the process.\<close>

datatype hub_error = HubErr string | FromConnector conn_error | HubPanic

definition hub_text :: "hub_error \<Rightarrow> string" where
  "hub_text e = (case e of HubErr m \<Rightarrow> m | FromConnector c \<Rightarrow> conn_text c | HubPanic \<Rightarrow> [])"

record instanceSnap =
  sn_tenant :: tenancy_context
  sn_inst :: pb_ConnectorInstance

subsection \<open>The emitter\<close>

text \<open>
  The state is the counter of emitted documents, absent if the pointer is nil, and the world. The answer
  is the error and the document as the hub leaves it.
\<close>

definition emitFor ::
  "'w hub_env \<Rightarrow> string \<Rightarrow> tenancy_context \<Rightarrow> string \<Rightarrow> go_ctx \<Rightarrow> Document option \<Rightarrow> int64 option \<times> 'w \<Rightarrow>
     (string option \<times> Document option) \<times> (int64 option \<times> 'w)" where
  "emitFor E topic tc connectorID ctx docp st =
     (let (emitted, w) = st in
      case docp of
        None \<Rightarrow> ((Some ''hub: emit: nil document'', None), st)
      | Some doc \<Rightarrow>
          if d_TenantId doc \<noteq> tenantID tc
          then ((Some (''hub: emit: document tenant '' @ quoted (d_TenantId doc) @ '' does not match instance tenant ''
                   @ quoted (tenantID tc) @ '' (doc_id '' @ quoted (d_DocId doc) @ '', connector ''
                   @ quoted connectorID @ '')''), docp), st)
          else
            let doc1 = (if d_ConnectorId doc = [] then doc\<lparr>d_ConnectorId := connectorID\<rparr> else doc);
                ts = (case d_Ts doc1 of
                        None \<Rightarrow> \<lparr>tm_Created = None, tm_Modified = None, tm_Ingested = None\<rparr> | Some t \<Rightarrow> t);
                (now, w1) = hb_now E w;
                doc2 = doc1\<lparr>d_Ts := Some (ts\<lparr>tm_Ingested := Some (hb_ts_New E now)\<rparr>)\<rparr>
            in case hb_ProduceDocument E (WithContext ctx tc) topic (Some doc2) w1 of
                 (Some e, w2) \<Rightarrow> ((Some (''hub: emit doc '' @ quoted (d_DocId doc) @ '': '' @ e), Some doc2), (emitted, w2))
               | (None, w2) \<Rightarrow> ((None, Some doc2), (map_option (\<lambda>n. n + 1) emitted, w2)))"

subsection \<open>Bookkeeping of a pass\<close>

definition PhaseFullSync :: int where "PhaseFullSync = 2"
definition PhaseIncremental :: int where "PhaseIncremental = 3"
definition PhaseFailed :: int where "PhaseFailed = 4"

record syncRun =
  ru_instanceID :: string
  ru_cursor :: string
  ru_started :: "pb_timestamp option"
  ru_completed :: "pb_timestamp option"
  ru_lastError :: string
  ru_docsBase :: int64
  ru_emitted :: int64

definition new_run :: "string \<Rightarrow> pb_SyncState \<Rightarrow> syncRun" where
  "new_run instanceID st = \<lparr>ru_instanceID = instanceID, ru_cursor = ps_Cursor st, ru_started = None,
     ru_completed = ps_LastSyncCompleted st, ru_lastError = [], ru_docsBase = ps_DocsEmitted st, ru_emitted = 0\<rparr>"

definition run_state :: "syncRun \<Rightarrow> int \<Rightarrow> pb_SyncState" where
  "run_state r phase = \<lparr>ps_ConnectorInstanceId = ru_instanceID r, ps_Cursor = ru_cursor r, ps_Phase = phase,
     ps_LastSyncStarted = ru_started r, ps_LastSyncCompleted = ru_completed r, ps_LastError = ru_lastError r,
     ps_DocsEmitted = ru_docsBase r + ru_emitted r\<rparr>"

definition writeState :: "'w hub_env \<Rightarrow> go_ctx \<Rightarrow> syncRun \<Rightarrow> int \<Rightarrow> 'w \<Rightarrow> hub_error option \<times> 'w" where
  "writeState E tctx r phase w =
     (case cp_SetSyncState E tctx (run_state r phase) w of
        (Inl e, w1) \<Rightarrow> (Some (HubErr (''hub: set sync state for '' @ ru_instanceID r @ '': '' @ hb_text E e)), w1)
      | (Inr _, w1) \<Rightarrow> (None, w1))"

definition recordFailure :: "'w hub_env \<Rightarrow> go_ctx \<Rightarrow> syncRun \<Rightarrow> hub_error \<Rightarrow> 'w \<Rightarrow> 'w" where
  "recordFailure E tctx r cause w = snd (writeState E tctx (r\<lparr>ru_lastError := hub_text cause\<rparr>) PhaseFailed w)"

subsection \<open>What a connector is given\<close>

text \<open>In nanoseconds.\<close>

definition refreshSkew :: int where
  "refreshSkew = 60000000000"

definition token_changed :: "Token \<Rightarrow> Token \<Rightarrow> bool" where
  "token_changed new old \<longleftrightarrow> tk_AccessToken new \<noteq> tk_AccessToken old \<or> tk_RefreshToken new \<noteq> tk_RefreshToken old
     \<or> gt_time (tk_Expiry new) \<noteq> gt_time (tk_Expiry old)"

definition fetchToken :: "'w hub_env \<Rightarrow> go_ctx \<Rightarrow> string \<Rightarrow> 'w \<Rightarrow> (hub_error + bytes) \<times> 'w" where
  "fetchToken E tctx instanceID w =
     (case cp_GetToken E tctx instanceID w of
        (Inl e, w1) \<Rightarrow>
          (if status_code e = NotFound then (Inr [], w1)
           else (Inl (HubErr (''hub: get token for '' @ instanceID @ '': '' @ hb_text E e)), w1))
      | (Inr stored, w1) \<Rightarrow>
     (case token_Parse stored of
        None \<Rightarrow> (Inr stored, w1)
      | Some tok \<Rightarrow>
     (let (now, w2) = hb_now E w1 in
      if \<not> NeedsRefresh tok now refreshSkew then (Inr (tk_AccessToken tok), w2)
      else case hb_oauth E of
        None \<Rightarrow> (Inl (HubErr (''hub: oauth token for '' @ instanceID @ '' needs refresh but no oauth service is configured'')), w2)
      | Some refresh \<Rightarrow>
     (case refresh (tk_Provider tok) tok w2 of
        (Inl e, w3) \<Rightarrow> (Inl (HubErr (''hub: refresh oauth token for '' @ instanceID @ '': '' @ e)), w3)
      | (Inr newTok, w3) \<Rightarrow>
          if tk_AccessToken newTok = []
          then (Inl (HubErr (''hub: refresh oauth token for '' @ instanceID @ '': empty access token'')), w3)
          else if token_changed newTok tok then
            (case token_Marshal newTok of
               Inl e \<Rightarrow> (Inl (HubErr (''hub: marshal refreshed oauth token for '' @ instanceID @ '': '' @ e)), w3)
             | Inr blob \<Rightarrow>
                 (case cp_PutToken E tctx instanceID blob w3 of
                    (Inl e, w4) \<Rightarrow> (Inl (HubErr (''hub: store refreshed oauth token for '' @ instanceID @ '': '' @ hb_text E e)), w4)
                  | (Inr _, w4) \<Rightarrow> (Inr (tk_AccessToken newTok), w4)))
          else (Inr (tk_AccessToken newTok), w3)))))"

text \<open>
  Decoding \<open>null\<close> into the map leaves it nil, and the assignment to an entry of a nil map panics. The text
  of the decoder's own error is left out.
\<close>

definition webhook_url :: "string \<Rightarrow> string \<Rightarrow> string \<Rightarrow> string" where
  "webhook_url base connectorID instanceID = TrimRight base ''/'' @ ''/webhooks/'' @ connectorID @ ''/'' @ instanceID"

definition mergeWebhookURL :: "bytes \<Rightarrow> string \<Rightarrow> string \<Rightarrow> string \<Rightarrow> hub_error + bytes" where
  "mergeWebhookURL configJSON base connectorID instanceID =
     (let bad = Inl (HubErr ''hub: instance config is not a JSON object'');
          merged = (\<lambda>m. Inr (json_map id (tbl_put ''webhook_url'' (json_string (webhook_url base connectorID instanceID)) m)))
      in if length configJSON = 0 then merged []
         else case decode configJSON of
           None \<Rightarrow> bad
         | Some JNull \<Rightarrow> Inl HubPanic
         | Some (JObject ms) \<Rightarrow>
             (case those (map (\<lambda>m. remarshal (snd m)) ms) of
                None \<Rightarrow> bad
              | Some es \<Rightarrow> merged (member_table (zip (map fst ms) es)))
         | Some _ \<Rightarrow> bad)"

definition buildConfig :: "'w hub_env \<Rightarrow> string \<Rightarrow> go_ctx \<Rightarrow> instanceSnap \<Rightarrow> 'w \<Rightarrow> (hub_error + Config) \<times> 'w" where
  "buildConfig E webhookBase tctx snap w =
     (case fetchToken E tctx (pi_Id (sn_inst snap)) w of
        (Inl e, w1) \<Rightarrow> (Inl e, w1)
      | (Inr token, w1) \<Rightarrow>
          (case mergeWebhookURL (pi_ConfigJson (sn_inst snap)) webhookBase (pi_ConnectorId (sn_inst snap)) (pi_Id (sn_inst snap)) of
             Inl e \<Rightarrow> (Inl e, w1)
           | Inr cfgJSON \<Rightarrow>
               (Inr \<lparr>cf_Tenant = sn_tenant snap, cf_InstanceID = pi_Id (sn_inst snap), cf_ConfigJSON = cfgJSON,
                     cf_Token = token\<rparr>, w1)))"

subsection \<open>One pass\<close>

text \<open>The two functions a connector is handed during a pass, on the bookkeeping and the world.\<close>

definition pass_emit ::
  "'w hub_env \<Rightarrow> string \<Rightarrow> instanceSnap \<Rightarrow> go_ctx \<Rightarrow> Document option \<Rightarrow> syncRun \<times> 'w \<Rightarrow>
     (string option \<times> Document option) \<times> (syncRun \<times> 'w)" where
  "pass_emit E topic snap ctx doc st =
     (let (r, w) = st;
          (a, (n, w')) = emitFor E topic (sn_tenant snap) (pi_ConnectorId (sn_inst snap)) ctx doc (Some (ru_emitted r), w)
      in (a, (r\<lparr>ru_emitted := the n\<rparr>, w')))"

definition checkpoint ::
  "'w hub_env \<Rightarrow> instanceSnap \<Rightarrow> go_ctx \<Rightarrow> string \<Rightarrow> syncRun \<times> 'w \<Rightarrow> string option \<times> (syncRun \<times> 'w)" where
  "checkpoint E snap cctx cur st =
     (let (r, w) = st; r' = r\<lparr>ru_cursor := cur\<rparr>;
          (e, w') = writeState E (WithContext cctx (sn_tenant snap)) r' PhaseFullSync w
      in (map_option hub_text e, (r', w')))"

text \<open>
  The connector's part of a pass: a full sync, or an incremental one that falls back to a full one when
  the source no longer knows the cursor. The left case ends the pass without recording a failure.
\<close>

definition sync_source ::
  "'w hub_env \<Rightarrow> string \<Rightarrow> 'q Connector \<Rightarrow> go_ctx \<Rightarrow> instanceSnap \<Rightarrow> Config \<Rightarrow> bool \<Rightarrow> syncRun \<times> 'w \<Rightarrow>
     (hub_error + conn_error + string) \<times> (syncRun \<times> 'w)" where
  "sync_source E topic conn tctx snap cfg full st =
     (let run_it = run_connector (pass_emit E topic snap) (checkpoint E snap) in
      if full then (let (r, st1) = run_it (cn_FullSync conn tctx cfg) st in (Inr r, st1))
      else case run_it (cn_IncrementalSync conn tctx cfg (ru_cursor (fst st))) st of
        (Inl (ErrCursorExpired m), (r1, w1)) \<Rightarrow>
          (let (now, w2) = hb_now E w1; r2 = r1\<lparr>ru_cursor := [], ru_started := Some (hb_ts_New E now)\<rparr> in
           case writeState E tctx r2 PhaseFullSync w2 of
             (Some e, w3) \<Rightarrow> (Inl e, (r2, w3))
           | (None, w3) \<Rightarrow> (let (r, st4) = run_it (cn_FullSync conn tctx cfg) (r2, w3) in (Inr r, st4)))
      | (r, st1) \<Rightarrow> (Inr r, st1))"

text \<open>How a pass ends: at once, with the connector's failure recorded, or with the new cursor stored.\<close>

definition finish_pass ::
  "'w hub_env \<Rightarrow> go_ctx \<Rightarrow> (hub_error + conn_error + string) \<times> (syncRun \<times> 'w) \<Rightarrow> hub_error option \<times> 'w" where
  "finish_pass E tctx res =
     (case res of
        (Inl e, (_, w)) \<Rightarrow> (Some e, w)
      | (Inr (Inl ce), (r, w)) \<Rightarrow> (Some (FromConnector ce), recordFailure E tctx r (FromConnector ce) w)
      | (Inr (Inr cur), (r, w)) \<Rightarrow>
          (let (now, w1) = hb_now E w
           in writeState E tctx
                (r\<lparr>ru_cursor := cur, ru_completed := Some (hb_ts_New E now), ru_lastError := []\<rparr>) PhaseIncremental w1))"

definition syncOnce ::
  "'w hub_env \<Rightarrow> string \<Rightarrow> string \<Rightarrow> 'q Registry \<Rightarrow> go_ctx \<Rightarrow> instanceSnap \<Rightarrow> 'w \<Rightarrow> hub_error option \<times> 'w" where
  "syncOnce E webhookBase topic reg ctx snap w =
     (let inst = sn_inst snap; tctx = WithContext ctx (sn_tenant snap) in
      case cp_GetSyncState E tctx (pi_Id inst) w of
        (Inl e, w1) \<Rightarrow> (Some (HubErr (''hub: get sync state for '' @ pi_Id inst @ '': '' @ hb_text E e)), w1)
      | (Inr st, w1) \<Rightarrow>
     (let run0 = new_run (pi_Id inst) st in
      case registry_Get reg (pi_ConnectorId inst) of
        None \<Rightarrow>
          (let e = HubErr (''hub: connector '' @ quoted (pi_ConnectorId inst) @ '' is not registered'')
           in (Some e, recordFailure E tctx run0 e w1))
      | Some conn \<Rightarrow>
     (let full = (ru_cursor run0 = [] \<and> ps_Phase st \<noteq> PhaseIncremental);
          (now, w2) = hb_now E w1; run1 = run0\<lparr>ru_started := Some (hb_ts_New E now)\<rparr> in
      case writeState E tctx run1 (if full then PhaseFullSync else PhaseIncremental) w2 of
        (Some e, w3) \<Rightarrow> (Some e, w3)
      | (None, w3) \<Rightarrow>
     (case buildConfig E webhookBase tctx snap w3 of
        (Inl e, w4) \<Rightarrow> if e = HubPanic then (Some e, w4) else (Some e, recordFailure E tctx run1 e w4)
      | (Inr cfg, w4) \<Rightarrow> finish_pass E tctx (sync_source E topic conn tctx snap cfg full (run1, w4))))))"

section \<open>A pass is confined to its tenant\<close>

text \<open>
  A step from one world to another is confined to a tenant if it keeps the world well formed, changes
  nothing that another tenant can see, and sends only records that are that tenant's.
\<close>

definition confined ::
  "('w \<Rightarrow> bool) \<Rightarrow> (tenant_id \<Rightarrow> 'w \<Rightarrow> 'v) \<Rightarrow> ('w \<Rightarrow> 'r list) \<Rightarrow> (tenant_id \<Rightarrow> 'r \<Rightarrow> bool) \<Rightarrow> tenant_id \<Rightarrow> 'w \<Rightarrow> 'w \<Rightarrow> bool" where
  "confined good seen sent owns t w w' \<longleftrightarrow>
     (good w \<longrightarrow> good w' \<and> (\<forall>t'. t' \<noteq> t \<longrightarrow> seen t' w' = seen t' w) \<and>
        (\<exists>new. sent w' = sent w @ new \<and> list_all (owns t) new))"

lemma confined_refl: "confined good seen sent owns t w w"
  by (simp add: confined_def)

lemma confined_trans:
  "confined good seen sent owns t w w1 \<Longrightarrow> confined good seen sent owns t w1 w2 \<Longrightarrow> confined good seen sent owns t w w2"
  unfolding confined_def by fastforce

text \<open>
  What the hub relies on: a call that is made in the context of a tenant, whatever else the context holds,
  is confined to that tenant.
\<close>

locale hub_world =
  fixes E :: "'w hub_env"
    and good :: "'w \<Rightarrow> bool"
    and seen :: "tenant_id \<Rightarrow> 'w \<Rightarrow> 'v"
    and sent :: "'w \<Rightarrow> 'r list"
    and owns :: "tenant_id \<Rightarrow> 'r \<Rightarrow> bool"
  assumes get_state: "confined good seen sent owns (tenantID tc) w (snd (cp_GetSyncState E (WithContext ctx tc) iid w))"
    and set_state: "confined good seen sent owns (tenantID tc) w (snd (cp_SetSyncState E (WithContext ctx tc) st w))"
    and get_token: "confined good seen sent owns (tenantID tc) w (snd (cp_GetToken E (WithContext ctx tc) iid w))"
    and put_token: "confined good seen sent owns (tenantID tc) w (snd (cp_PutToken E (WithContext ctx tc) iid blob w))"
    and produce: "confined good seen sent owns (tenantID tc) w (snd (hb_ProduceDocument E (WithContext ctx tc) topic doc w))"
    and clock: "confined good seen sent owns t w (snd (hb_now E w))"
    and refresh: "hb_oauth E = Some f \<Longrightarrow> confined good seen sent owns t w (snd (f p tok w))"
begin

abbreviation conf :: "tenant_id \<Rightarrow> 'w \<Rightarrow> 'w \<Rightarrow> bool" where
  "conf \<equiv> confined good seen sent owns"

lemma conf_bind:
  assumes "conf t w (snd m)" and "\<And>a w'. m = (a, w') \<Longrightarrow> conf t w' (snd (f a w'))"
  shows "conf t w (snd (case m of (a, w') \<Rightarrow> f a w'))"
  using assms by (cases m) (auto intro: confined_trans)

lemma conf_sum:
  "(\<And>e. a = Inl e \<Longrightarrow> conf t w (snd (f e))) \<Longrightarrow> (\<And>x. a = Inr x \<Longrightarrow> conf t w (snd (g x))) \<Longrightarrow>
     conf t w (snd (case a of Inl e \<Rightarrow> f e | Inr x \<Rightarrow> g x))"
  by (cases a) auto

lemma conf_option:
  "(a = None \<Longrightarrow> conf t w (snd f)) \<Longrightarrow> (\<And>x. a = Some x \<Longrightarrow> conf t w (snd (g x))) \<Longrightarrow>
     conf t w (snd (case a of None \<Rightarrow> f | Some x \<Rightarrow> g x))"
  by (cases a) auto

lemma conf_if: "(b \<Longrightarrow> conf t w (snd f)) \<Longrightarrow> (\<not> b \<Longrightarrow> conf t w (snd g)) \<Longrightarrow> conf t w (snd (if b then f else g))"
  by simp

lemma conf_done: "conf t w (snd (a, w))"
  by (simp add: confined_refl)

lemmas conf_steps = conf_bind conf_sum conf_option conf_if conf_done get_state set_state get_token put_token produce
  clock refresh

lemma writeState_confined: "conf (tenantID tc) w (snd (writeState E (WithContext ctx tc) r phase w))"
  unfolding writeState_def by (intro conf_steps)

lemma recordFailure_confined: "conf (tenantID tc) w (recordFailure E (WithContext ctx tc) r cause w)"
  unfolding recordFailure_def by (rule writeState_confined)

lemma fetchToken_confined: "conf (tenantID tc) w (snd (fetchToken E (WithContext ctx tc) iid w))"
  unfolding fetchToken_def Let_def by (intro conf_steps; assumption?)

lemma buildConfig_confined: "conf (tenantID tc) w (snd (buildConfig E base (WithContext ctx tc) snap w))"
  unfolding buildConfig_def by (intro conf_steps fetchToken_confined)

lemma emitFor_confined: "conf (tenantID tc) (snd st) (snd (snd (emitFor E topic tc cid ctx doc st)))"
proof -
  obtain n w where st: "st = (n, w)" by (cases st)
  have both: "conf (tenantID tc) w (snd (hb_ProduceDocument E (WithContext ctx tc) topic d (snd (hb_now E w))))" for d
    by (rule confined_trans [OF clock produce])
  show ?thesis
    by (simp add: st emitFor_def Let_def case_prod_beta confined_refl both split: option.splits)
qed

lemma pass_emit_confined:
  "conf (tenantID (sn_tenant snap)) w (snd st) \<Longrightarrow> conf (tenantID (sn_tenant snap)) w (snd (snd (pass_emit E topic snap ctx doc st)))"
  using emitFor_confined [of "sn_tenant snap" "(Some (ru_emitted (fst st)), snd st)"]
  by (auto simp: pass_emit_def case_prod_beta intro: confined_trans)

lemma checkpoint_confined:
  "conf (tenantID (sn_tenant snap)) w (snd st) \<Longrightarrow> conf (tenantID (sn_tenant snap)) w (snd (snd (checkpoint E snap ctx cur st)))"
  using writeState_confined [of "sn_tenant snap"] by (auto simp: checkpoint_def case_prod_beta Let_def intro: confined_trans)

lemma run_confined:
  "conf (tenantID (sn_tenant snap)) (snd st)
     (snd (snd (run_connector (pass_emit E topic snap) (checkpoint E snap) p st)))"
  by (rule run_connector_keeps [where I = "\<lambda>s. conf (tenantID (sn_tenant snap)) (snd st) (snd s)"])
    (simp_all add: pass_emit_confined checkpoint_confined confined_refl)

lemma sync_source_confined:
  "conf (tenantID (sn_tenant snap)) (snd st)
     (snd (snd (sync_source E topic conn (WithContext ctx (sn_tenant snap)) snap cfg full st)))"
proof -
  let ?t = "tenantID (sn_tenant snap)" and ?tctx = "WithContext ctx (sn_tenant snap)"
  let ?run = "run_connector (pass_emit E topic snap) (checkpoint E snap)"
  obtain a r1 w1 where inc: "?run (cn_IncrementalSync conn ?tctx cfg (ru_cursor (fst st))) st = (a, (r1, w1))"
    by (metis prod.collapse)
  have c1: "conf ?t (snd st) w1" using run_confined [of snap st topic "cn_IncrementalSync conn ?tctx cfg (ru_cursor (fst st))"]
    by (simp add: inc)
  have ws: "conf ?t (snd st) (snd (writeState E ?tctx r2 phase (snd (hb_now E w1))))" for r2 phase
    by (rule confined_trans [OF c1 confined_trans [OF clock writeState_confined]])
  have "conf ?t (snd st) (snd (snd (?run p (r2, snd (writeState E ?tctx r2 phase (snd (hb_now E w1)))))))" for p r2 phase
    using run_confined [of snap "(r2, snd (writeState E ?tctx r2 phase (snd (hb_now E w1))))" topic p] ws [of r2 phase]
    by (auto intro: confined_trans)
  then show ?thesis
    using run_confined [of snap st topic] c1 ws
    by (auto simp: sync_source_def inc case_prod_beta Let_def split: sum.splits conn_error.splits option.splits)
qed

lemma finish_pass_confined:
  "conf (tenantID tc) (snd (snd res)) (snd (finish_pass E (WithContext ctx tc) res))"
proof -
  obtain a r w where res: "res = (a, (r, w))" by (metis prod.collapse)
  have "conf (tenantID tc) w (snd (writeState E (WithContext ctx tc) r' phase (snd (hb_now E w))))" for r' phase
    by (rule confined_trans [OF clock writeState_confined])
  then show ?thesis
    by (simp add: res finish_pass_def case_prod_beta confined_refl recordFailure_confined split: sum.splits)
qed

lemma syncOnce_confined:
  "conf (tenantID (sn_tenant snap)) w (snd (syncOnce E base topic reg ctx snap w))"
proof -
  let ?tctx = "WithContext ctx (sn_tenant snap)"
  have failed: "conf (tenantID (sn_tenant snap)) w' (snd (Some e, recordFailure E ?tctx r c w'))" for e r c w'
    by (simp add: recordFailure_confined)
  have finish: "conf (tenantID (sn_tenant snap)) w' (snd (finish_pass E ?tctx (sync_source E topic conn ?tctx snap cfg full (r, w'))))"
    for conn cfg full r w'
    by (rule confined_trans [OF _ finish_pass_confined])
      (use sync_source_confined [of snap "(r, w')" topic conn ctx cfg full] in simp)
  show ?thesis
    unfolding syncOnce_def Let_def
    by (intro conf_steps failed finish writeState_confined buildConfig_confined)
qed

end

section \<open>What a pass reports\<close>

text \<open>
  If moreover the world counts the documents the broker has acknowledged, the pass reports their number:
  the counter of the bookkeeping follows the count.
\<close>

locale hub_ledger = hub_world E good seen sent owns
  for E :: "'w hub_env" and good and seen :: "tenant_id \<Rightarrow> 'w \<Rightarrow> 'v" and sent :: "'w \<Rightarrow> 'r list" and owns +
  fixes acked :: "'w \<Rightarrow> nat"
  assumes acked_get: "acked (snd (cp_GetSyncState E ctx iid w)) = acked w"
    and acked_set: "acked (snd (cp_SetSyncState E ctx st w)) = acked w"
    and acked_token: "acked (snd (cp_GetToken E ctx iid w)) = acked w"
    and acked_put: "acked (snd (cp_PutToken E ctx iid blob w)) = acked w"
    and acked_produce: "acked (snd (hb_ProduceDocument E ctx topic doc w)) =
          acked w + (if fst (hb_ProduceDocument E ctx topic doc w) = None then 1 else 0)"
    and acked_now: "acked (snd (hb_now E w)) = acked w"
    and acked_refresh: "hb_oauth E = Some f \<Longrightarrow> acked (snd (f p tok w)) = acked w"
begin

lemmas acked_ops = acked_get acked_set acked_token acked_put acked_now

definition ledger :: "syncRun \<times> 'w \<Rightarrow> syncRun \<times> 'w \<Rightarrow> bool" where
  "ledger st st' \<longleftrightarrow> acked (snd st) \<le> acked (snd st') \<and>
     ru_emitted (fst st') = ru_emitted (fst st) + of_nat (acked (snd st') - acked (snd st)) \<and>
     ru_docsBase (fst st') = ru_docsBase (fst st) \<and> ru_instanceID (fst st') = ru_instanceID (fst st)"

lemma ledger_refl: "ledger st st"
  by (simp add: ledger_def)

lemma ledger_trans: "ledger st st1 \<Longrightarrow> ledger st1 st2 \<Longrightarrow> ledger st st2"
  by (auto simp: ledger_def add.assoc simp flip: of_nat_add)

lemma acked_write: "acked (snd (writeState E ctx r phase w)) = acked w"
  by (simp add: writeState_def case_prod_beta acked_ops split: sum.splits)

lemma ledger_emit: "ledger st (snd (pass_emit E topic snap ctx doc st))"
  by (auto simp: pass_emit_def emitFor_def ledger_def case_prod_beta Let_def acked_now acked_produce split: option.splits)

lemma ledger_checkpoint: "ledger st (snd (checkpoint E snap ctx cur st))"
  by (auto simp: checkpoint_def ledger_def case_prod_beta Let_def acked_write)

lemma ledger_run: "ledger st (snd (run_connector (pass_emit E topic snap) (checkpoint E snap) p st))"
  by (rule run_connector_keeps [where I = "ledger st"]) (blast intro: ledger_trans ledger_emit ledger_checkpoint ledger_refl)+

lemma ledger_source: "ledger st (snd (sync_source E topic conn tctx snap cfg full st))"
proof -
  let ?run = "run_connector (pass_emit E topic snap) (checkpoint E snap)"
  obtain a r1 w1 where inc: "?run (cn_IncrementalSync conn tctx cfg (ru_cursor (fst st))) st = (a, (r1, w1))"
    by (metis prod.collapse)
  have l1: "ledger st (r1, w1)" using ledger_run [of st topic snap "cn_IncrementalSync conn tctx cfg (ru_cursor (fst st))"] by (simp add: inc)
  have l2: "ledger st (r1\<lparr>ru_cursor := [], ru_started := b\<rparr>, snd (writeState E tctx r2 phase (snd (hb_now E w1))))" for b r2 phase
    using l1 by (simp add: ledger_def acked_write acked_now)
  have "ledger st (snd (?run p (r1\<lparr>ru_cursor := [], ru_started := b\<rparr>, snd (writeState E tctx r2 phase (snd (hb_now E w1))))))" for p b r2 phase
    by (rule ledger_trans [OF l2 ledger_run])
  then show ?thesis
    using ledger_run [of st topic snap] l1 l2
    by (auto simp: sync_source_def inc case_prod_beta Let_def split: sum.splits conn_error.splits option.splits)
qed

lemma acked_fetch: "acked (snd (fetchToken E ctx iid w)) = acked w"
  by (auto simp: fetchToken_def Let_def acked_ops acked_refresh case_prod_beta split: option.splits sum.splits)

lemma acked_build: "acked (snd (buildConfig E base ctx snap w)) = acked w"
  by (auto simp: buildConfig_def acked_fetch case_prod_beta split: sum.splits)

text \<open>
  A pass that succeeds has read a state first, and the last thing it did was to store one: phase
  \<open>INCREMENTAL\<close>, no error, and the count it read plus the documents acknowledged since.
\<close>

lemma finish_success:
  assumes "finish_pass E tctx (a, (r, w)) = (None, w')"
  obtains r' where "writeState E tctx r' PhaseIncremental (snd (hb_now E w)) = (None, w')" "ru_lastError r' = []"
    "ru_instanceID r' = ru_instanceID r" "ru_docsBase r' = ru_docsBase r" "ru_emitted r' = ru_emitted r"
  using assms by (auto simp: finish_pass_def case_prod_beta Let_def split: sum.splits)

lemma syncOnce_success:
  assumes "syncOnce E base topic reg ctx snap w = (None, w')"
  obtains st0 w1 wl r where "cp_GetSyncState E (WithContext ctx (sn_tenant snap)) (pi_Id (sn_inst snap)) w = (Inr st0, w1)"
    and "writeState E (WithContext ctx (sn_tenant snap)) r PhaseIncremental wl = (None, w')"
    and "ru_instanceID r = pi_Id (sn_inst snap)" "ru_lastError r = []" "acked w \<le> acked w'"
    and "ru_docsBase r + ru_emitted r = ps_DocsEmitted st0 + of_nat (acked w' - acked w)"
proof -
  let ?tctx = "WithContext ctx (sn_tenant snap)" and ?iid = "pi_Id (sn_inst snap)"
  obtain st0 w1 where get: "cp_GetSyncState E ?tctx ?iid w = (Inr st0, w1)"
    using assms by (cases "cp_GetSyncState E ?tctx ?iid w"; cases "fst (cp_GetSyncState E ?tctx ?iid w)") (auto simp: syncOnce_def Let_def)
  obtain conn where conn: "registry_Get reg (pi_ConnectorId (sn_inst snap)) = Some conn"
    using assms by (cases "registry_Get reg (pi_ConnectorId (sn_inst snap))") (auto simp: syncOnce_def Let_def get)
  obtain nw w2 where now: "hb_now E w1 = (nw, w2)" by (cases "hb_now E w1")
  define run1 where "run1 = (new_run ?iid st0)\<lparr>ru_started := Some (hb_ts_New E nw)\<rparr>"
  define full where "full = (ru_cursor (new_run ?iid st0) = [] \<and> ps_Phase st0 \<noteq> PhaseIncremental)"
  define m where "m = writeState E ?tctx run1 (if full then PhaseFullSync else PhaseIncremental) w2"
  have s1: "(case m of (Some e, w3) \<Rightarrow> (Some e, w3) | (None, w3) \<Rightarrow>
     (case buildConfig E base ?tctx snap w3 of
        (Inl e, w4) \<Rightarrow> if e = HubPanic then (Some e, w4) else (Some e, recordFailure E ?tctx run1 e w4)
      | (Inr cfg, w4) \<Rightarrow> finish_pass E ?tctx (sync_source E topic conn ?tctx snap cfg full (run1, w4)))) = (None, w')"
    using assms by (simp only: syncOnce_def Let_def get conn now prod.case sum.case option.case m_def run1_def full_def)
  then obtain w3 where w3: "m = (None, w3)" by (cases m; cases "fst m") auto
  obtain cfg w4 where b: "buildConfig E base ?tctx snap w3 = (Inr cfg, w4)"
    using s1 w3 by (cases "buildConfig E base ?tctx snap w3"; cases "fst (buildConfig E base ?tctx snap w3)") (auto split: if_splits)
  obtain a r2 w5 where so: "sync_source E topic conn ?tctx snap cfg full (run1, w4) = (a, (r2, w5))" by (metis prod.collapse)
  have "finish_pass E ?tctx (a, (r2, w5)) = (None, w')" using s1 by (simp add: w3 b so)
  then obtain r where r: "writeState E ?tctx r PhaseIncremental (snd (hb_now E w5)) = (None, w')" "ru_lastError r = []"
    "ru_instanceID r = ru_instanceID r2" "ru_docsBase r = ru_docsBase r2" "ru_emitted r = ru_emitted r2"
    by (rule finish_success)
  have k: "acked w4 = acked w" "acked w' = acked w5"
    using acked_get [of ?tctx ?iid w] acked_write [of ?tctx run1 "if full then PhaseFullSync else PhaseIncremental" w2]
      acked_now [of w1] acked_build [of base ?tctx snap w3] acked_write [of ?tctx r PhaseIncremental "snd (hb_now E w5)"]
    by (simp_all add: get b now acked_now r(1) w3 m_def [symmetric])
  have "ledger (run1, w4) (r2, w5)" using ledger_source [of "(run1, w4)" topic conn ?tctx snap cfg full] by (simp add: so)
  then show ?thesis
    using get r k by (intro that [of st0 w1 r "snd (hb_now E w5)"]) (simp_all add: ledger_def run1_def new_run_def)
qed

end

section \<open>The hub over the control plane and the queues\<close>

text \<open>
  The world of a deployed hub: the control plane's store and cipher, the records handed to the broker so
  far, each with whether it was acknowledged, and everything else, in which the outside answers. An RPC goes through the tenancy interceptors on
  both sides; the network may lose the request or the answer.
\<close>

datatype rpc_fate = Delivered | LostRequest rpc_status | LostAnswer rpc_status

record ('c, 'k) hub_state =
  hs_store :: mem_store
  hs_cipher :: 'c
  hs_sent :: "(kgo_Record \<times> bool) list"
  hs_ext :: 'k

record 'k hub_ext =
  ex_rpc :: "'k \<Rightarrow> (rpc_env \<times> rpc_fate) \<times> 'k"
  ex_kafka :: "'k kgo_client"
  ex_now :: "'k \<Rightarrow> time \<times> 'k"
  ex_ts_New :: "time \<Rightarrow> pb_timestamp"
  ex_text :: "rpc_status \<Rightarrow> string"
  ex_oauth :: "('k oauth2_lib \<times> oauth_Config) option"

definition on_ext :: "('k \<Rightarrow> 'a \<times> 'k) \<Rightarrow> ('c, 'k) hub_state \<Rightarrow> 'a \<times> ('c, 'k) hub_state" where
  "on_ext f w = (let (a, k) = f (hs_ext w) in (a, w\<lparr>hs_ext := k\<rparr>))"

definition exempt_methods :: "string list" where
  "exempt_methods = [''/asker.controlplane.v1.SchedulerService/ListAllInstances'',
     ''/asker.controlplane.v1.AdminService/ListTenants'', ''/asker.controlplane.v1.AdminService/GetTenantUsage'',
     ''/asker.controlplane.v1.AdminService/SuspendTenant'', ''/asker.controlplane.v1.AdminService/AdminDeleteTenant'']"

definition cp_method :: "rpc_req \<Rightarrow> string" where
  "cp_method req = ''/asker.controlplane.v1.ControlPlaneService/'' @
     (case req of
        ReqEnsureTenant \<Rightarrow> ''EnsureTenant'' | ReqCreate _ _ _ \<Rightarrow> ''CreateConnectorInstance''
      | ReqList \<Rightarrow> ''ListConnectorInstances'' | ReqGet _ \<Rightarrow> ''GetConnectorInstance''
      | ReqDelete _ \<Rightarrow> ''DeleteConnectorInstance'' | ReqGetSync _ \<Rightarrow> ''GetSyncState'' | ReqSetSync _ \<Rightarrow> ''SetSyncState''
      | ReqPutToken _ _ \<Rightarrow> ''PutToken'' | ReqGetToken _ \<Rightarrow> ''GetToken'' | ReqDeleteToken _ \<Rightarrow> ''DeleteToken''
      | ReqGetPersonalization \<Rightarrow> ''GetPersonalization'' | ReqPutPreferences _ \<Rightarrow> ''PutPreferences''
      | ReqResetLearning \<Rightarrow> ''ResetLearning'')"

definition cp_call :: "(mem_store, 'c) server \<Rightarrow> 'k hub_ext \<Rightarrow> go_ctx \<Rightarrow> rpc_req \<Rightarrow> ('c, 'k) hub_state \<Rightarrow>
    (rpc_status + rpc_resp) \<times> ('c, 'k) hub_state" where
  "cp_call sv X ctx req w =
     (let ((env, fate), k) = ex_rpc X (hs_ext w);
          (r, (s, c)) = UnaryClientInterceptor (cp_method req)
            (\<lambda>cx. tenantInterceptorSkipping exempt_methods (cp_method req)
                    (\<lambda>cx' q st. serve sv (env\<lparr>re_ctx := cx'\<rparr>) q st) (wire cx))
            ctx req (hs_store w, hs_cipher w)
      in case fate of
           LostRequest e \<Rightarrow> (Inl e, w\<lparr>hs_ext := k\<rparr>)
         | LostAnswer e \<Rightarrow> (Inl e, w\<lparr>hs_store := s, hs_cipher := c, hs_ext := k\<rparr>)
         | Delivered \<Rightarrow> (r, w\<lparr>hs_store := s, hs_cipher := c, hs_ext := k\<rparr>))"

definition reply_as :: "(rpc_resp \<Rightarrow> 'a option) \<Rightarrow> (rpc_status + rpc_resp) \<times> 'w \<Rightarrow> (rpc_status + 'a) \<times> 'w" where
  "reply_as f res =
     (case res of
        (Inl e, w) \<Rightarrow> (Inl e, w)
      | (Inr a, w) \<Rightarrow> ((case f a of Some x \<Rightarrow> Inr x | None \<Rightarrow> Inl (Status Internal ''unexpected reply'')), w))"

definition broker :: "'k kgo_client \<Rightarrow> ('c, 'k) hub_state kgo_client" where
  "broker cl = \<lparr>ProduceSync = (\<lambda>rec w.
       let (e, k) = ProduceSync cl rec (hs_ext w) in (e, w\<lparr>hs_sent := hs_sent w @ [(rec, e = None)], hs_ext := k\<rparr>)),
     CommitRecords = (\<lambda>rec. on_ext (CommitRecords cl rec)), PollFetches = on_ext (PollFetches cl),
     ctx_Err = (\<lambda>w. ctx_Err cl (hs_ext w)), sleepCtx = (\<lambda>d. on_ext (sleepCtx cl d)),
     proto_Marshal = proto_Marshal cl, proto_Unmarshal = proto_Unmarshal cl\<rparr>"

definition cp_server :: "'c tokenCipher \<Rightarrow> int \<Rightarrow> ext_lib \<Rightarrow> (mem_store, 'c) server" where
  "cp_server C mx lib = \<lparr>sv_store = memStore, sv_cipher = C, sv_maxConnectorInstances = mx, sv_lib = lib\<rparr>"

definition asker_hub :: "(mem_store, 'c) server \<Rightarrow> 'k hub_ext \<Rightarrow> ('c, 'k) hub_state hub_env" where
  "asker_hub sv X = \<lparr>
     cp_GetSyncState = (\<lambda>ctx iid w. reply_as (\<lambda>a. case a of RespSync st \<Rightarrow> Some st | _ \<Rightarrow> None) (cp_call sv X ctx (ReqGetSync iid) w)),
     cp_SetSyncState = (\<lambda>ctx st w. reply_as (\<lambda>a. case a of RespSync st \<Rightarrow> Some st | _ \<Rightarrow> None) (cp_call sv X ctx (ReqSetSync (Some st)) w)),
     cp_GetToken = (\<lambda>ctx iid w. reply_as (\<lambda>a. case a of RespToken b \<Rightarrow> Some b | _ \<Rightarrow> None) (cp_call sv X ctx (ReqGetToken iid) w)),
     cp_PutToken = (\<lambda>ctx iid tok w. reply_as (\<lambda>a. case a of RespEmpty \<Rightarrow> Some () | _ \<Rightarrow> None) (cp_call sv X ctx (ReqPutToken iid tok) w)),
     hb_ProduceDocument = ProduceDocument (broker (ex_kafka X)),
     hb_now = on_ext (ex_now X), hb_ts_New = ex_ts_New X, hb_text = ex_text X,
     hb_oauth = map_option (\<lambda>(lib, cfg) p tok. on_ext (Refresh lib cfg p tok)) (ex_oauth X)\<rparr>"

text \<open>A record of a tenant: its key and its tenant header name it.\<close>

definition record_of :: "tenant_id \<Rightarrow> kgo_Record \<times> bool \<Rightarrow> bool" where
  "record_of t p \<longleftrightarrow> kr_Key (fst p) = t \<and> map_of (kr_Headers (fst p)) HeaderTenantID = Some t"

definition acknowledged :: "('c, 'k) hub_state \<Rightarrow> nat" where
  "acknowledged w = length (filter snd (hs_sent w))"

abbreviation hub_confined :: "tenant_id \<Rightarrow> ('c, 'k) hub_state \<Rightarrow> ('c, 'k) hub_state \<Rightarrow> bool" where
  "hub_confined \<equiv> confined (\<lambda>w. store_inv (hs_store w)) (\<lambda>t w. mem_view t (hs_store w)) hs_sent record_of"

fun hub_req :: "rpc_req \<Rightarrow> bool" where
  "hub_req (ReqGetSync _) = True"
| "hub_req (ReqSetSync _) = True"
| "hub_req (ReqGetToken _) = True"
| "hub_req (ReqPutToken _ _) = True"
| "hub_req _ = False"

context tenant_store
begin

lemma scoped_hub_req:
  assumes "sv_store sv = S" and "FromContext (re_ctx env) = Inr tc" and "hub_req req"
  shows "scoped (\<lambda>_. True) (tenantID tc) (serve sv env req)"
proof -
  have "callerTenant (re_ctx env) = Inr tc" using assms(2) by (simp add: callerTenant_def)
  then show ?thesis
    using assms(1,3)
    by (cases req)
      (simp_all add: rpc_map_def handler_defs,
       (intro scoped_return scoped_check_bind scoped_cipher_rpc scoped_ops scoped_bind scoped_check
          | simp add: case_prod_beta)+)
qed

end

text \<open>A call in the context of a tenant either reaches the handler as that tenant's or is refused.\<close>

lemma hop_cases:
  fixes req :: 'q
  assumes "UnaryClientInterceptor m (\<lambda>cx. tenantInterceptorSkipping exempt m h (wire cx)) (WithContext ctx tc) req st = (a, st')"
    and "m \<notin> set exempt"
  obtains e where "a = Inl e" "st' = st"
  | cx where "FromContext cx = Inr \<lparr>tenantID = tenantID tc, subject = tenantID tc\<rparr>" "h cx req st = (a, st')"
proof (cases "tenantID tc = []")
  case True
  then show ?thesis
    using assms(1) by (intro that(1)) (auto simp: UnaryClientInterceptor_def FromContext_def WithContext_def)
next
  case False
  define cx where "cx = wire ((WithContext ctx tc)\<lparr>cx_outgoing := cx_outgoing ctx @ [(MetadataKey, HeaderValue tc)]\<rparr>)"
  have srv: "UnaryServerInterceptor m h cx req st = (a, st')"
    using assms False by (simp add: UnaryClientInterceptor_def FromContext_WithContext tenantInterceptorSkipping_def cx_def)
      (simp add: WithContext_def)
  obtain vs where md: "cx_incoming cx = Some (\<lambda>k. map snd (filter (\<lambda>p. fst p = k) (cx_outgoing ctx @ [(MetadataKey, HeaderValue tc)])))"
    and vs: "map snd (filter (\<lambda>p. fst p = MetadataKey) (cx_outgoing ctx)) = vs"
    by (simp add: cx_def wire_def)
  show ?thesis
  proof (cases "vs = [] \<and> validTenant (tenantID tc)")
    case True
    then have "h (WithContext cx \<lparr>tenantID = tenantID tc, subject = tenantID tc\<rparr>) req st = (a, st')"
      using srv md vs by (simp add: UnaryServerInterceptor_def HeaderValue_def FromHeaderValue_def)
    then show ?thesis using False by (intro that(2)) simp_all
  next
    case bad: False
    then have "(\<exists>e. a = Inl e) \<and> st' = st"
      using srv md vs by (cases vs)
        (auto simp: UnaryServerInterceptor_def HeaderValue_def FromHeaderValue_def split: list.splits)
    then show ?thesis using that(1) by blast
  qed
qed

lemma hub_req_tenant_scoped: "hub_req req \<Longrightarrow> cp_method req \<notin> set exempt_methods"
  by (cases req) (simp_all add: cp_method_def exempt_methods_def)

lemma serve_confined:
  assumes "hub_req req" "FromContext (re_ctx env) = Inr tc" "store_inv s"
    and "serve (cp_server C mx lib) env req (s, c) = (a, (s', c'))"
  shows "store_inv s' \<and> (\<forall>t. t \<noteq> tenantID tc \<longrightarrow> mem_view t s' = mem_view t s)"
  using ms.scopedD(4,5) [OF ms.scoped_hub_req [OF _ assms(2,1), of "cp_server C mx lib"] assms(3,3) TrueI TrueI refl, where c = c] assms(4)
  by (simp add: cp_server_def)

lemma call_confined:
  assumes "hub_req req"
  shows "hub_confined (tenantID tc) w (snd (cp_call (cp_server C mx lib) X (WithContext ctx tc) req w))"
proof (cases "store_inv (hs_store w)")
  case good: True
  obtain env fate k where x: "ex_rpc X (hs_ext w) = ((env, fate), k)" by (metis prod.collapse)
  obtain a s c where i: "UnaryClientInterceptor (cp_method req) (\<lambda>cx. tenantInterceptorSkipping exempt_methods (cp_method req)
      (\<lambda>cx' q st. serve (cp_server C mx lib) (env\<lparr>re_ctx := cx'\<rparr>) q st) (wire cx)) (WithContext ctx tc) req (hs_store w, hs_cipher w)
      = (a, (s, c))" by (metis prod.collapse)
  have "store_inv s \<and> (\<forall>t. t \<noteq> tenantID tc \<longrightarrow> mem_view t s = mem_view t (hs_store w))"
    using i hub_req_tenant_scoped [OF assms]
  proof (rule hop_cases)
    fix cx assume "FromContext cx = Inr \<lparr>tenantID = tenantID tc, subject = tenantID tc\<rparr>"
      and "serve (cp_server C mx lib) (env\<lparr>re_ctx := cx\<rparr>) req (hs_store w, hs_cipher w) = (a, s, c)"
    then show ?thesis
      using serve_confined [OF assms _ good, of "env\<lparr>re_ctx := cx\<rparr>" "\<lparr>tenantID = tenantID tc, subject = tenantID tc\<rparr>"] by simp
  qed (simp add: good)
  then show ?thesis
    using good by (cases fate) (simp_all add: confined_def cp_call_def x i)
qed (simp add: confined_def)

lemma reply_world [simp]: "snd (reply_as f res) = snd res"
  by (simp add: reply_as_def case_prod_beta split: sum.splits)

lemma on_ext_confined: "hub_confined t w (snd (on_ext f w))"
  by (simp add: on_ext_def confined_def case_prod_beta)

lemma produce_confined:
  "hub_confined (tenantID tc) w (snd (ProduceDocument (broker cl) (WithContext ctx tc) topic doc w))"
proof -
  have "hub_confined (tenantID tc) w (snd (ProduceSync (broker cl) (document_record topic d v) w))" if "d_TenantId d = tenantID tc" for d v
    using that by (simp add: broker_def confined_def case_prod_beta document_record_def record_of_def)
  then show ?thesis
    by (cases "tenantID tc = []")
      (auto simp: ProduceDocument_def Let_def confined_refl FromContext_def WithContext_def case_prod_beta split: option.splits sum.splits)
qed

interpretation aw: hub_world "asker_hub (cp_server C mx lib) X" "\<lambda>w. store_inv (hs_store w)"
    "\<lambda>t w. mem_view t (hs_store w)" hs_sent record_of
  by unfold_locales
    (auto simp: asker_hub_def call_confined produce_confined on_ext_confined split: prod.splits)

lemma acknowledged_ext: "acknowledged (snd (on_ext f w)) = acknowledged w"
  by (simp add: on_ext_def acknowledged_def case_prod_beta)

lemma acknowledged_call: "acknowledged (snd (cp_call sv X ctx req w)) = acknowledged w"
  by (simp add: cp_call_def acknowledged_def case_prod_beta Let_def split: rpc_fate.splits)

lemma acknowledged_produce:
  "acknowledged (snd (ProduceDocument (broker cl) ctx topic doc w)) =
     acknowledged w + (if fst (ProduceDocument (broker cl) ctx topic doc w) = None then 1 else 0)"
  by (auto simp: ProduceDocument_def broker_def Let_def acknowledged_def case_prod_beta split: option.splits sum.splits)

interpretation al: hub_ledger "asker_hub (cp_server C mx lib) X" "\<lambda>w. store_inv (hs_store w)"
    "\<lambda>t w. mem_view t (hs_store w)" hs_sent record_of acknowledged
  by unfold_locales
    (auto simp: asker_hub_def acknowledged_call acknowledged_produce acknowledged_ext split: prod.splits)

text \<open>The document count a store holds for an instance.\<close>

definition stored_docs :: "mem_store \<Rightarrow> string \<Rightarrow> int64" where
  "stored_docs s u = (case tbl_get (ms_syncs s) u of None \<Rightarrow> 0 | Some st \<Rightarrow> ss_DocsEmitted st)"

lemma call_served:
  assumes "cp_call sv X (WithContext ctx tc) req w = (Inr a, w')" "hub_req req"
  obtains env c' where "FromContext (re_ctx env) = Inr \<lparr>tenantID = tenantID tc, subject = tenantID tc\<rparr>"
    "serve sv env req (hs_store w, hs_cipher w) = (Inr a, (hs_store w', c'))"
proof -
  obtain env fate k where x: "ex_rpc X (hs_ext w) = ((env, fate), k)" by (metis prod.collapse)
  obtain b s c where i: "UnaryClientInterceptor (cp_method req) (\<lambda>cx. tenantInterceptorSkipping exempt_methods (cp_method req)
      (\<lambda>cx' q st. serve sv (env\<lparr>re_ctx := cx'\<rparr>) q st) (wire cx)) (WithContext ctx tc) req (hs_store w, hs_cipher w)
      = (b, (s, c))" by (metis prod.collapse)
  have b: "b = Inr a" "hs_store w' = s" using assms(1) by (auto simp: cp_call_def x i split: rpc_fate.splits)
  show ?thesis
    using i hub_req_tenant_scoped [OF assms(2)]
  proof (rule hop_cases)
    fix cx assume "FromContext cx = Inr \<lparr>tenantID = tenantID tc, subject = tenantID tc\<rparr>"
      and "serve sv (env\<lparr>re_ctx := cx\<rparr>) req (hs_store w, hs_cipher w) = (b, s, c)"
    then show ?thesis using that [of "env\<lparr>re_ctx := cx\<rparr>" c] b by simp
  qed (simp add: b)
qed

lemma reply_Inr: "reply_as f res = (Inr x, w') \<Longrightarrow> \<exists>a. res = (Inr a, w') \<and> f a = Some x"
  by (cases res; cases "fst res") (auto simp: reply_as_def split: option.splits)

lemma parsed_uuid: "parseInstanceID lib iid field = Inr u \<Longrightarrow> uuid_Parse lib iid = Some u"
  by (auto simp: parseInstanceID_def split: if_splits option.splits)

lemma cp_server_sel [simp]: "sv_store (cp_server C mx lib) = memStore" "sv_lib (cp_server C mx lib) = lib"
  by (simp_all add: cp_server_def)

lemma read_docs:
  assumes "cp_GetSyncState (asker_hub (cp_server C mx lib) X) (WithContext ctx tc) iid w = (Inr st, w')"
  obtains u where "uuid_Parse lib iid = Some u" "ps_DocsEmitted st = stored_docs (hs_store w) u"
proof -
  obtain a where a: "cp_call (cp_server C mx lib) X (WithContext ctx tc) (ReqGetSync iid) w = (Inr a, w')"
    "a = RespSync st"
    using reply_Inr assms by (fastforce simp: asker_hub_def split: rpc_resp.splits)
  then obtain env c' where env: "FromContext (re_ctx env) = Inr \<lparr>tenantID = tenantID tc, subject = tenantID tc\<rparr>"
    and sv: "serve (cp_server C mx lib) env (ReqGetSync iid) (hs_store w, hs_cipher w) = (Inr a, (hs_store w', c'))"
    using call_served [OF a(1)] by auto
  obtain u state where u: "parseInstanceID lib iid ''connector_instance_id'' = Inr u"
    and g: "memStore_GetSyncState (re_call env 0) (tenantID tc) u (hs_store w) = (Inr state, hs_store w')"
    and st: "st = syncStateToProto lib state"
    using sv env by (auto simp: rpc_map_def server_GetSyncState_def rpc_results callerTenant_def a(2) memStore_methods)
  have "ss_DocsEmitted state = stored_docs (hs_store w) u"
    using g by (auto simp: memStore_GetSyncState_def with_ctx_def stored_docs_def pending_state_def cloneSyncState_def
        split: option.splits)
  then show ?thesis using that [OF parsed_uuid [OF u]] st by (simp add: syncStateToProto_def)
qed

lemma SetSync_puts:
  "memStore_SetSyncState env t st s = (Inr r, s') \<Longrightarrow>
     r = st\<lparr>ss_TenantID := t\<rparr> \<and> tbl_get (ms_syncs s') (ss_InstanceID st) = Some r"
  by (auto simp: memStore_SetSyncState_def with_ctx_def cloneSyncState_def Let_def split: option.splits)

lemma written_state:
  assumes "writeState (asker_hub (cp_server C mx lib) X) (WithContext ctx tc) r PhaseIncremental w = (None, w')"
    and "ru_lastError r = []"
  obtains u st where "uuid_Parse lib (ru_instanceID r) = Some u" "tbl_get (ms_syncs (hs_store w')) u = Some st"
    "ss_TenantID st = tenantID tc" "ss_Phase st = ''INCREMENTAL''" "ss_LastError st = []"
    "ss_DocsEmitted st = ru_docsBase r + ru_emitted r"
proof -
  let ?x = "run_state r PhaseIncremental"
  obtain y where y: "cp_SetSyncState (asker_hub (cp_server C mx lib) X) (WithContext ctx tc) ?x w = (Inr y, w')"
    using assms(1) by (auto simp: writeState_def split: prod.splits sum.splits)
  obtain a where a: "cp_call (cp_server C mx lib) X (WithContext ctx tc) (ReqSetSync (Some ?x)) w = (Inr a, w')"
    "a = RespSync y"
    using reply_Inr y by (fastforce simp: asker_hub_def split: rpc_resp.splits)
  then obtain env c' where env: "FromContext (re_ctx env) = Inr \<lparr>tenantID = tenantID tc, subject = tenantID tc\<rparr>"
    and sv: "serve (cp_server C mx lib) env (ReqSetSync (Some ?x)) (hs_store w, hs_cipher w) = (Inr a, (hs_store w', c'))"
    using call_served [OF a(1)] by auto
  let ?tc = "\<lparr>tenantID = tenantID tc, subject = tenantID tc\<rparr>"
  have stored: "server_SetSyncState (cp_server C mx lib) env (Some ?x) (hs_store w, hs_cipher w) = (Inr y, (hs_store w', c'))"
    using sv a(2) by (simp add: rpc_map_def rpc_results)
  obtain iid phase started completed state s' where
    iid: "parseInstanceID (sv_lib (cp_server C mx lib)) (ps_ConnectorInstanceId ?x) ''state.connector_instance_id'' = Inr iid"
    and phase: "normalizePhase (ps_Phase ?x) = Inr phase" and s': "(hs_store w', c') = (s', hs_cipher w)"
    and set: "memStore_SetSyncState (re_call env 0) (tenantID ?tc)
      \<lparr>ss_InstanceID = iid, ss_TenantID = tenantID ?tc, ss_Cursor = ps_Cursor ?x, ss_Phase = phase,
       ss_LastSyncStarted = started, ss_LastSyncCompleted = completed, ss_LastError = cut_error ?x,
       ss_DocsEmitted = ps_DocsEmitted ?x\<rparr> (hs_store w) = (Inr state, s')"
    using cp_server_sel(1) env stored by (rule SetSyncState_stores)
  have "phase = ''INCREMENTAL''"
    using phase by (simp add: run_state_def normalizePhase_def PhaseIncremental_def SyncPhase_name_def)
  moreover have "uuid_Parse lib (ru_instanceID r) = Some iid"
    using parsed_uuid [OF iid] by (simp add: run_state_def)
  ultimately show ?thesis
    using SetSync_puts [OF set] s' assms(2) by (intro that [of iid state]) (simp_all add: run_state_def)
qed

section \<open>A sample pass\<close>

definition sample_doc :: "tenant_id \<Rightarrow> Document" where
  "sample_doc t = zero_document\<lparr>d_TenantId := t, d_DocId := ''d''\<rparr>"

text \<open>A connector that emits a document of another tenant before its own.\<close>

definition sample_connector :: "unit Connector" where
  "sample_connector = \<lparr>cn_Spec = \<lparr>sp_ID = ''c'', sp_DisplayName = [], sp_AuthType = AuthNone, sp_ConfigSchema = [], sp_SupportsWebhook = False\<rparr>,
     cn_FullSync = (\<lambda>ctx cfg. EmitDoc ctx (Some (sample_doc ''b'')) (\<lambda>_. EmitDoc ctx (Some (sample_doc ''a'')) (\<lambda>_. Return (Inr ''7'')))),
     cn_IncrementalSync = (\<lambda>ctx cfg cur. Return (Inr cur)), cn_HandleWebhook = (\<lambda>ctx cfg q. Return None)\<rparr>"

definition sample_ext :: "unit hub_ext" where
  "sample_ext = \<lparr>ex_rpc = (\<lambda>k. ((sample_rpc ''x'' 9 ''new'', Delivered), k)),
     ex_kafka = \<lparr>ProduceSync = (\<lambda>_ k. (None, k)), CommitRecords = (\<lambda>_ k. (None, k)), PollFetches = (\<lambda>k. (ClientClosed, k)),
        ctx_Err = (\<lambda>k. None), sleepCtx = (\<lambda>_ k. (None, k)), proto_Marshal = (\<lambda>d. Inr (d_DocId d)), proto_Unmarshal = (\<lambda>b. Inl [])\<rparr>,
     ex_now = (\<lambda>k. (5, k)), ex_ts_New = (\<lambda>t. \<lparr>ts_Seconds = t, ts_Nanos = 0\<rparr>), ex_text = status_msg, ex_oauth = None\<rparr>"

definition sample_snap :: instanceSnap where
  "sample_snap = \<lparr>sn_tenant = \<lparr>tenantID = ''a'', subject = ''a''\<rparr>,
     sn_inst = \<lparr>pi_Id = ''i1'', pi_ConnectorId = ''c'', pi_DisplayName = [], pi_ConfigJson = [], pi_Status = 1,
       pi_Created = \<lparr>ts_Seconds = 0, ts_Nanos = 0\<rparr>, pi_Updated = \<lparr>ts_Seconds = 0, ts_Nanos = 0\<rparr>\<rparr>\<rparr>"

definition sample_world :: "(mem_deks TenantCipher, unit) hub_state" where
  "sample_world = \<lparr>hs_store = sample_store, hs_cipher = NewTenantCipher [], hs_sent = [], hs_ext = ()\<rparr>"

definition sample_hub :: "(mem_deks TenantCipher, unit) hub_state hub_env" where
  "sample_hub = asker_hub (cp_server (sv_cipher sample_server) 3 (sv_lib sample_server)) sample_ext"

definition sample_pass :: "hub_error option \<times> (mem_deks TenantCipher, unit) hub_state" where
  "sample_pass = syncOnce sample_hub ''h'' ''docs.raw'' [(''c'', sample_connector)]
     \<lparr>cx_tenant = None, cx_incoming = None, cx_outgoing = []\<rparr> sample_snap sample_world"


abbreviation tcA :: tenancy_context where
  "tcA \<equiv> \<lparr>tenantID = ''a'', subject = ''a''\<rparr>"

abbreviation sampleS :: "(mem_store, mem_deks TenantCipher) server" where
  "sampleS \<equiv> cp_server (sv_cipher sample_server) 3 (sv_lib sample_server)"

lemma valid_a: "validTenant ''a''"
  by code_simp

lemma sample_call:
  assumes "hub_req req" "cx_outgoing ctx = []"
  obtains cx where "FromContext cx = Inr tcA"
    "\<And>w. cp_call sampleS sample_ext (WithContext ctx tcA) req w =
       (let (r, (s, c)) = serve sampleS ((sample_rpc ''x'' 9 ''new'')\<lparr>re_ctx := cx\<rparr>) req (hs_store w, hs_cipher w)
        in (r, w\<lparr>hs_store := s, hs_cipher := c\<rparr>))"
  using assms hub_req_tenant_scoped [OF assms(1)] valid_a
  by (intro that [of "WithContext (wire ((WithContext ctx tcA)\<lparr>cx_outgoing := [(MetadataKey, ''a'')]\<rparr>)) tcA"])
    (simp_all add: cp_call_def sample_ext_def UnaryClientInterceptor_def tenantInterceptorSkipping_def
      UnaryServerInterceptor_def wire_def HeaderValue_def FromHeaderValue_def case_prod_beta WithContext_def FromContext_def)

definition sample_owned :: "(mem_deks TenantCipher, unit) hub_state \<Rightarrow> bool" where
  "sample_owned w \<longleftrightarrow> (\<exists>i. ownedInstance (hs_store w) ''a'' ''i1'' = Some i) \<and> ms_tokens (hs_store w) = []"

lemma sample_set:
  assumes "sample_owned w" "cx_outgoing ctx = []" "ps_ConnectorInstanceId x = ''i1''" "length (ps_Cursor x) \<le> 1"
    "ps_Phase x = 2 \<or> ps_Phase x = 3" "ps_DocsEmitted x = 0 \<or> ps_DocsEmitted x = 1"
  shows "\<exists>y w'. cp_SetSyncState sample_hub (WithContext ctx tcA) x w = (Inr y, w') \<and> sample_owned w' \<and> hs_sent w' = hs_sent w"
proof -
  obtain i where i: "ownedInstance (hs_store w) ''a'' ''i1'' = Some i" "ms_tokens (hs_store w) = []"
    using assms(1) by (auto simp: sample_owned_def)
  obtain cx where cx: "FromContext cx = Inr tcA" and call: "\<And>w. cp_call sampleS sample_ext (WithContext ctx tcA) (ReqSetSync (Some x)) w =
       (let (r, (s, c)) = serve sampleS ((sample_rpc ''x'' 9 ''new'')\<lparr>re_ctx := cx\<rparr>) (ReqSetSync (Some x)) (hs_store w, hs_cipher w)
        in (r, w\<lparr>hs_store := s, hs_cipher := c\<rparr>))"
    by (rule sample_call [of "ReqSetSync (Some x)" ctx]) (simp_all add: assms)
  have "\<exists>phase. normalizePhase (ps_Phase x) = Inr phase"
    using assms(5) by (auto simp: normalizePhase_def SyncPhase_name_def)
  moreover have "\<not> ps_DocsEmitted x <s 0" using assms(6) by (auto simp: word_sless_alt)
  moreover have "length (ps_Cursor x) \<le> 65536" using assms(4) by simp
  ultimately have "\<exists>y st. serve sampleS ((sample_rpc ''x'' 9 ''new'')\<lparr>re_ctx := cx\<rparr>) (ReqSetSync (Some x)) (hs_store w, hs_cipher w) =
      (Inr (RespSync y), ((hs_store w)\<lparr>ms_syncs := tbl_put ''i1'' st (ms_syncs (hs_store w))\<rparr>, hs_cipher w))"
    using i(1)
    by (auto simp: rpc_map_def server_SetSyncState_def callerTenant_def cx parseInstanceID_def sample_server_def assms(3)
        rpc_require_def maxCursorBytes_def timeFromProto_def rpc_results memStore_SetSyncState_def with_ctx_def Let_def
        sample_rpc_def sample_env_def memStore_methods cp_server_def split: option.splits)
  then show ?thesis
    using i by (auto simp: sample_hub_def asker_hub_def call reply_as_def sample_owned_def ownedInstance_def)
qed

lemma sample_syncs: "ms_syncs sample_store = []"
  by (simp add: sample_store_def sample_defs reply_def memStore_CreateConnectorInstance_def with_ctx_def
      Let_def newMemStore_def register_def tbl_count_def)

lemma sample_get:
  assumes "cx_outgoing ctx = []"
  shows "\<exists>st. cp_GetSyncState sample_hub (WithContext ctx tcA) ''i1'' sample_world = (Inr st, sample_world) \<and>
     ps_Cursor st = [] \<and> ps_Phase st = 1 \<and> ps_DocsEmitted st = 0"
proof -
  obtain cx where cx: "FromContext cx = Inr tcA" and call: "\<And>w. cp_call sampleS sample_ext (WithContext ctx tcA) (ReqGetSync ''i1'') w =
       (let (r, (s, c)) = serve sampleS ((sample_rpc ''x'' 9 ''new'')\<lparr>re_ctx := cx\<rparr>) (ReqGetSync ''i1'') (hs_store w, hs_cipher w)
        in (r, w\<lparr>hs_store := s, hs_cipher := c\<rparr>))"
    by (rule sample_call [of "ReqGetSync ''i1''" ctx]) (simp_all add: assms)
  let ?env = "(sample_rpc ''x'' 9 ''new'')\<lparr>re_ctx := cx\<rparr>"
  have "memStore_GetSyncState (re_call ?env 0) ''a'' ''i1'' sample_store = (Inr (pending_state ''a'' ''i1''), sample_store)"
    by (simp add: memStore_GetSyncState_def with_ctx_def ownedInstance_def sample_store_eq sample_syncs sample_inst_def
        sample_rpc_def sample_env_def)
  then have "serve sampleS ?env (ReqGetSync ''i1'') (sample_store, c) =
      (Inr (RespSync (syncStateToProto (sv_lib sample_server) (pending_state ''a'' ''i1''))), (sample_store, c))" for c
    by (simp add: rpc_map_def server_GetSyncState_def callerTenant_def cx parseInstanceID_def rpc_results memStore_methods)
      (simp add: sample_server_def)
  moreover have "phaseFromText ''PENDING'' = 1" by (simp add: phaseFromText_def SyncPhase_value_def)
  ultimately show ?thesis
    by (simp add: sample_hub_def asker_hub_def call reply_as_def sample_world_def) (simp add: syncStateToProto_def pending_state_def)
qed

lemma sample_token:
  assumes "sample_owned w" "cx_outgoing ctx = []"
  shows "\<exists>e. cp_GetToken sample_hub (WithContext ctx tcA) ''i1'' w = (Inl e, w) \<and> status_code e = NotFound"
proof -
  obtain cx where cx: "FromContext cx = Inr tcA" and call: "\<And>w. cp_call sampleS sample_ext (WithContext ctx tcA) (ReqGetToken ''i1'') w =
       (let (r, (s, c)) = serve sampleS ((sample_rpc ''x'' 9 ''new'')\<lparr>re_ctx := cx\<rparr>) (ReqGetToken ''i1'') (hs_store w, hs_cipher w)
        in (r, w\<lparr>hs_store := s, hs_cipher := c\<rparr>))"
    by (rule sample_call [of "ReqGetToken ''i1''" ctx]) (simp_all add: assms)
  have "serve sampleS ((sample_rpc ''x'' 9 ''new'')\<lparr>re_ctx := cx\<rparr>) (ReqGetToken ''i1'') (hs_store w, hs_cipher w) =
      (Inl (Status NotFound ''not found''), (hs_store w, hs_cipher w))"
    using assms(1)
    by (simp add: rpc_map_def server_GetToken_def callerTenant_def cx parseInstanceID_def sample_server_def rpc_bind_def rpc_check_def
        store_rpc_def on_store_def memStore_GetToken_def with_ctx_def sample_owned_def rpcErr_def
        sample_rpc_def sample_env_def memStore_methods cp_server_def)
  then show ?thesis
    by (simp add: sample_hub_def asker_hub_def call reply_as_def)
qed

lemma sample_produce:
  "d_TenantId d = ''a'' \<Longrightarrow> hb_ProduceDocument sample_hub (WithContext ctx tcA) ''docs.raw'' (Some d) w =
     (None, w\<lparr>hs_sent := hs_sent w @ [(document_record ''docs.raw'' d (d_DocId d), True)]\<rparr>)"
  by (simp add: sample_hub_def asker_hub_def ProduceDocument_def FromContext_def WithContext_def broker_def sample_ext_def)

lemma sample_now: "hb_now sample_hub w = (5, w)"
  by (simp add: sample_hub_def asker_hub_def on_ext_def sample_ext_def)

lemma sample_emits:
  assumes "ru_emitted r = 0"
  shows "\<exists>doc. run_connector (pass_emit sample_hub ''docs.raw'' sample_snap) cp (cn_FullSync sample_connector ctx cfg) (r, w) =
     (Inr ''7'', (r\<lparr>ru_emitted := 1\<rparr>, w\<lparr>hs_sent := hs_sent w @ [doc]\<rparr>)) \<and> snd doc"
  using assms
  by (simp add: sample_connector_def pass_emit_def emitFor_def sample_doc_def zero_document_def sample_snap_def sample_now sample_produce Let_def)
    blast

lemma sample_world_owned: "sample_owned sample_world"
  by (simp add: sample_owned_def sample_world_def ownedInstance_def sample_store_eq sample_inst_def)

lemma sample_pass_ok: "fst sample_pass = None \<and> acknowledged (snd sample_pass) = 1"
proof -
  let ?ctx = "\<lparr>cx_tenant = None, cx_incoming = None, cx_outgoing = []\<rparr>"
  let ?tctx = "WithContext ?ctx tcA"
  obtain st where get: "cp_GetSyncState sample_hub ?tctx ''i1'' sample_world = (Inr st, sample_world)"
    and st: "ps_Cursor st = []" "ps_Phase st = 1" "ps_DocsEmitted st = 0" using sample_get [of ?ctx] by auto
  note own = sample_world_owned
  define run1 where "run1 = (new_run ''i1'' st)\<lparr>ru_started := Some (hb_ts_New sample_hub 5)\<rparr>"
  obtain y w3 where w3: "cp_SetSyncState sample_hub ?tctx (run_state run1 PhaseFullSync) sample_world = (Inr y, w3)"
    "sample_owned w3" "hs_sent w3 = []"
    using sample_set [OF own, of ?ctx "run_state run1 PhaseFullSync"] st
    by (auto simp: run_state_def run1_def new_run_def PhaseFullSync_def sample_world_def)
  obtain e where tok: "cp_GetToken sample_hub ?tctx ''i1'' w3 = (Inl e, w3)" "status_code e = NotFound"
    using sample_token [OF w3(2), of ?ctx] by auto
  have build: "\<exists>cfg. buildConfig sample_hub ''h'' ?tctx sample_snap w3 = (Inr cfg, w3)"
    by (simp add: buildConfig_def fetchToken_def tok sample_snap_def mergeWebhookURL_def)
  then obtain cfg where cfg: "buildConfig sample_hub ''h'' ?tctx sample_snap w3 = (Inr cfg, w3)" by blast
  obtain doc where run: "run_connector (pass_emit sample_hub ''docs.raw'' sample_snap) (checkpoint sample_hub sample_snap)
      (cn_FullSync sample_connector ?tctx cfg) (run1, w3) = (Inr ''7'', (run1\<lparr>ru_emitted := 1\<rparr>, w3\<lparr>hs_sent := [doc]\<rparr>))" "snd doc"
    using sample_emits [of run1 "checkpoint sample_hub sample_snap" ?tctx cfg w3] w3(3) by (auto simp: run1_def new_run_def)
  let ?run2 = "run1\<lparr>ru_emitted := 1, ru_cursor := ''7'', ru_completed := Some (hb_ts_New sample_hub 5), ru_lastError := []\<rparr>"
  have own5: "sample_owned (w3\<lparr>hs_sent := [doc]\<rparr>)" using w3(2) by (simp add: sample_owned_def)
  obtain z w6 where w6: "cp_SetSyncState sample_hub ?tctx (run_state ?run2 PhaseIncremental) (w3\<lparr>hs_sent := [doc]\<rparr>) = (Inr z, w6)"
    "hs_sent w6 = [doc]"
    using sample_set [OF own5, of ?ctx "run_state ?run2 PhaseIncremental"] st
    by (auto simp: run_state_def run1_def new_run_def PhaseIncremental_def)
  have ws1: "writeState sample_hub ?tctx run1 PhaseFullSync sample_world = (None, w3)" by (simp add: writeState_def w3(1))
  have ws2: "writeState sample_hub ?tctx ?run2 PhaseIncremental (w3\<lparr>hs_sent := [doc]\<rparr>) = (None, w6)"
    by (simp add: writeState_def w6(1))
  have snap: "sn_tenant sample_snap = tcA" "pi_Id (sn_inst sample_snap) = ''i1''" "pi_ConnectorId (sn_inst sample_snap) = ''c''"
    by (simp_all add: sample_snap_def)
  have full: "(ru_cursor (new_run ''i1'' st) = [] \<and> ps_Phase st \<noteq> PhaseIncremental) = True"
    by (simp add: st new_run_def PhaseIncremental_def)
  have reg: "registry_Get [(''c'', sample_connector)] ''c'' = Some sample_connector" by (simp add: registry_Get_def)
  have so: "sync_source sample_hub ''docs.raw'' sample_connector ?tctx sample_snap cfg True (run1, w3) =
      (Inr (Inr ''7''), (run1\<lparr>ru_emitted := 1\<rparr>, w3\<lparr>hs_sent := [doc]\<rparr>))"
    by (simp add: sync_source_def run(1))
  have p: "sample_pass = (None, w6)"
    unfolding sample_pass_def syncOnce_def Let_def snap get reg prod.case sum.case option.case sample_now full if_True
      run1_def [symmetric] ws1 cfg so finish_pass_def
    using ws2 by simp
  show ?thesis unfolding p acknowledged_def fst_conv snd_conv w6(2) using run(2) by simp
qed

section \<open>Properties\<close>

text \<open>
  C7: A sync pass is confined to its tenant. Run the hub over the control plane and the queues, with an
  arbitrary connector, which may emit documents of any tenant, forge the contexts it passes on and call
  back in any order, and with a network that loses requests and answers. Whatever the outcome, the pass
  keeps the store well formed, changes nothing that any other tenant can see there, and every record it
  handed to the broker is keyed and labelled with the instance's tenant.
\<close>

theorem sync_confined:
  assumes "syncOnce (asker_hub (cp_server C mx lib) X) base topic reg ctx snap w = (e, w')"
    and "store_inv (hs_store w)"
  shows "store_inv (hs_store w') \<and>
     (\<forall>t. t \<noteq> tenantID (sn_tenant snap) \<longrightarrow> mem_view t (hs_store w') = mem_view t (hs_store w)) \<and>
     (\<exists>new. hs_sent w' = hs_sent w @ new \<and> list_all (record_of (tenantID (sn_tenant snap))) new)"
  using aw.syncOnce_confined [of snap w C mx lib X base topic reg ctx] assms by (simp add: confined_def)

theorem sync_confined_witness:
  "mem_view ''b'' (hs_store (snd sample_pass)) = mem_view ''b'' sample_store \<and> list_all (record_of ''a'') (hs_sent (snd sample_pass))"
proof -
  have "syncOnce sample_hub ''h'' ''docs.raw'' [(''c'', sample_connector)] \<lparr>cx_tenant = None, cx_incoming = None, cx_outgoing = []\<rparr>
      sample_snap sample_world = (fst sample_pass, snd sample_pass)" by (simp add: sample_pass_def)
  from sync_confined [OF this [unfolded sample_hub_def]] show ?thesis
    by (simp add: inv_sample sample_world_def sample_snap_def)
qed

text \<open>
  C39: A sync pass that reports success has told the truth: the control plane then holds, for that
  instance and tenant, phase \<open>INCREMENTAL\<close>, no error, and a document count that is the one it held before
  plus the number of records the broker acknowledged during the pass, whatever the connector did and
  whichever messages were lost.
\<close>

theorem sync_accounts:
  assumes "syncOnce (asker_hub (cp_server C mx lib) X) base topic reg ctx snap w = (None, w')"
  shows "\<exists>u st. uuid_Parse lib (pi_Id (sn_inst snap)) = Some u \<and> tbl_get (ms_syncs (hs_store w')) u = Some st \<and>
     ss_TenantID st = tenantID (sn_tenant snap) \<and> ss_Phase st = ''INCREMENTAL'' \<and> ss_LastError st = [] \<and>
     ss_DocsEmitted st = stored_docs (hs_store w) u + of_nat (acknowledged w' - acknowledged w)"
  using assms
proof (rule al.syncOnce_success)
  fix st0 w1 wl r
  assume "cp_GetSyncState (asker_hub (cp_server C mx lib) X) (WithContext ctx (sn_tenant snap)) (pi_Id (sn_inst snap)) w = (Inr st0, w1)"
    and wr: "writeState (asker_hub (cp_server C mx lib) X) (WithContext ctx (sn_tenant snap)) r PhaseIncremental wl = (None, w')"
      "ru_lastError r = []" "ru_instanceID r = pi_Id (sn_inst snap)"
    and docs: "ru_docsBase r + ru_emitted r = ps_DocsEmitted st0 + of_nat (acknowledged w' - acknowledged w)"
  then obtain u where "uuid_Parse lib (pi_Id (sn_inst snap)) = Some u" "ps_DocsEmitted st0 = stored_docs (hs_store w) u"
    by (auto elim: read_docs)
  with docs show ?thesis using written_state [OF wr(1,2)] wr(3) by (metis option.inject)
qed

theorem sync_accounts_witness:
  "\<exists>st. tbl_get (ms_syncs (hs_store (snd sample_pass))) ''i1'' = Some st \<and> ss_Phase st = ''INCREMENTAL'' \<and> ss_DocsEmitted st = 1"
proof -
  have "syncOnce sample_hub ''h'' ''docs.raw'' [(''c'', sample_connector)] \<lparr>cx_tenant = None, cx_incoming = None, cx_outgoing = []\<rparr>
      sample_snap sample_world = (None, snd sample_pass)"
    using sample_pass_ok by (simp add: sample_pass_def prod_eq_iff)
  moreover have "acknowledged sample_world = 0" "stored_docs (hs_store sample_world) ''i1'' = 0"
    by (simp_all add: sample_world_def acknowledged_def stored_docs_def sample_syncs)
  moreover have "uuid_Parse (sv_lib sample_server) ''i1'' = Some ''i1''" by (simp add: sample_server_def)
  ultimately show ?thesis
    using sync_accounts [of "sv_cipher sample_server" 3 "sv_lib sample_server" sample_ext "''h''" "''docs.raw''"
        "[(''c'', sample_connector)]" "\<lparr>cx_tenant = None, cx_incoming = None, cx_outgoing = []\<rparr>" sample_snap sample_world "snd sample_pass"]
      sample_pass_ok
    by (auto simp: sample_hub_def) (simp add: sample_snap_def)
qed

lemma null_decoded: "json_Valid ''null'' \<and> decode ''null'' = Some JNull"
  by code_simp



end
