(* ===== verification/Hub_Scheduler.thy ===== *)
theory Hub_Scheduler
  imports Hub_Sync
begin

text \<open>
  The hub's scheduler (\<open>services/connector-hub/internal/hub/scheduler.go\<close>) as a state machine: the
  reconciliation of the workers with the control plane's listing, the workers' loops, webhook triggers and
  shutdown, interleaved in any order. What a pass does is \<open>Hub_Sync\<close>; here it is the stretch between
  taking and returning a slot of the semaphore.

  Reconciliation is one step: the maps are guarded by the scheduler's mutex, and the only things a worker
  shares with it are its snapshot (under a mutex), its cancellation, and its \<open>done\<close> channel, which is only
  ever closed.
\<close>

section \<open>The model\<close>

subsection \<open>Constants and configuration\<close>

definition maxConcurrentSyncs :: nat where "maxConcurrentSyncs = 4"

text \<open>Durations in nanoseconds.\<close>

definition failureBackoffBase :: int where "failureBackoffBase = 5000000000"
definition failureBackoffCap :: int where "failureBackoffCap = 300000000000"

record sched_opts =
  so_syncInterval :: int
  so_backoffBase :: int
  so_backoffCap :: int
  so_maxInstancesPerTenant :: int
  so_webhookBase :: string

definition scheduler_opts :: "sched_opts \<Rightarrow> sched_opts" where
  "scheduler_opts c = c\<lparr>so_backoffBase := (if so_backoffBase c \<le> 0 then failureBackoffBase else so_backoffBase c),
     so_backoffCap := (if so_backoffCap c \<le> 0 then failureBackoffCap else so_backoffCap c),
     so_webhookBase := TrimRight (so_webhookBase c) ''/''\<rparr>"

text \<open>A product of 64-bit durations.\<close>

definition wrap64 :: "int \<Rightarrow> int" where
  "wrap64 i = sint (word_of_int i :: int64)"

fun backoff_loop :: "nat \<Rightarrow> int \<Rightarrow> int \<Rightarrow> int" where
  "backoff_loop 0 d limit = min d limit"
| "backoff_loop (Suc n) d limit = (let d' = wrap64 (d * 2) in if d' \<ge> limit then limit else backoff_loop n d' limit)"

definition backoffDelay :: "int \<Rightarrow> int \<Rightarrow> nat \<Rightarrow> int" where
  "backoffDelay base limit failures = backoff_loop (failures - 1) base limit"

subsection \<open>State\<close>

text \<open>
  Where a worker's loop is: in the \<open>select\<close> on its timer, in the \<open>select\<close> on the semaphore, in a pass, or
  past its end, with \<open>done\<close> closed.
\<close>

datatype worker_pc = Sleeping | Acquiring | Syncing | Exited

record worker =
  wk_instanceID :: string
  wk_canceled :: bool
  wk_wake :: bool
  wk_snap :: instanceSnap
  wk_pc :: worker_pc
  wk_failures :: nat
  wk_delay :: int

datatype run_phase = Running | Stopping | Returned

text \<open>
  Workers are numbered in the order they were started; the two maps hold the number of an instance's
  worker. The counters are those of the semaphore and of the wait group.
\<close>

record scheduler =
  sc_heap :: "worker list"
  sc_workers :: "(string, nat) table"
  sc_draining :: "(string, nat) table"
  sc_sem :: nat
  sc_wg :: nat
  sc_ctxDone :: bool
  sc_phase :: run_phase

definition newScheduler :: scheduler where
  "newScheduler = \<lparr>sc_heap = [], sc_workers = [], sc_draining = [], sc_sem = 0, sc_wg = 0, sc_ctxDone = False, sc_phase = Running\<rparr>"

definition on_worker :: "nat \<Rightarrow> (worker \<Rightarrow> worker) \<Rightarrow> scheduler \<Rightarrow> scheduler" where
  "on_worker p f s = s\<lparr>sc_heap := (sc_heap s)[p := f (sc_heap s ! p)]\<rparr>"

subsection \<open>Reconciliation\<close>

definition ConnectorStatus_ACTIVE :: int where "ConnectorStatus_ACTIVE = 1"

definition add_desired :: "tenant_id \<times> pb_ConnectorInstance \<Rightarrow> (string, instanceSnap) table \<Rightarrow> (string, instanceSnap) table" where
  "add_desired ti d =
     (let inst = snd ti in
      if pi_Id inst = [] then d
      else case FromHeaderValue (fst ti) of
             Inl _ \<Rightarrow> d
           | Inr tc \<Rightarrow> if pi_Status inst \<noteq> ConnectorStatus_ACTIVE then d
                      else tbl_put (pi_Id inst) \<lparr>sn_tenant = tc, sn_inst = inst\<rparr> d)"

definition snap_tenant :: "instanceSnap \<Rightarrow> tenant_id" where
  "snap_tenant snap = tenantID (sn_tenant snap)"

definition ids_of :: "tenant_id \<Rightarrow> (string, instanceSnap) table \<Rightarrow> string list" where
  "ids_of t d = map fst (filter (\<lambda>(i, snap). snap_tenant snap = t) d)"

definition over_cap :: "int \<Rightarrow> string list \<Rightarrow> string list" where
  "over_cap mx ids = (if int (length ids) \<le> mx then [] else drop (nat mx) (sort ids))"

definition applyTenantCap :: "int \<Rightarrow> (string, instanceSnap) table \<Rightarrow> (string, instanceSnap) table" where
  "applyTenantCap mx desired =
     (if mx \<le> 0 then desired
      else tbl_keep (\<lambda>i snap. i \<notin> set (over_cap mx (ids_of (snap_tenant snap) desired))) desired)"

definition desired_of :: "int \<Rightarrow> (tenant_id \<times> pb_ConnectorInstance) list \<Rightarrow> (string, instanceSnap) table" where
  "desired_of mx instances = applyTenantCap mx (fold add_desired instances [])"

definition is_done :: "scheduler \<Rightarrow> nat \<Rightarrow> bool" where
  "is_done s p = (wk_pc (sc_heap s ! p) = Exited)"

definition reap :: "scheduler \<Rightarrow> scheduler" where
  "reap s = s\<lparr>sc_draining := tbl_keep (\<lambda>i p. \<not> is_done s p) (sc_draining s)\<rparr>"

text \<open>A new worker's first pass runs at once, so it starts before the semaphore.\<close>

definition new_worker :: "string \<Rightarrow> instanceSnap \<Rightarrow> worker" where
  "new_worker i snap = \<lparr>wk_instanceID = i, wk_canceled = False, wk_wake = False, wk_snap = snap,
     wk_pc = Acquiring, wk_failures = 0, wk_delay = 0\<rparr>"

definition ensure_worker :: "string \<times> instanceSnap \<Rightarrow> scheduler \<Rightarrow> scheduler" where
  "ensure_worker e s =
     (let (i, snap) = e in
      case tbl_get (sc_workers s) i of
        Some p \<Rightarrow> on_worker p (\<lambda>w. w\<lparr>wk_snap := snap\<rparr>) s
      | None \<Rightarrow>
          if tbl_has i (sc_draining s) then s
          else s\<lparr>sc_heap := sc_heap s @ [new_worker i snap],
                 sc_workers := tbl_put i (length (sc_heap s)) (sc_workers s), sc_wg := sc_wg s + 1\<rparr>)"

definition stop_worker :: "string \<times> nat \<Rightarrow> scheduler \<Rightarrow> scheduler" where
  "stop_worker e s =
     (let (i, p) = e; s' = on_worker p (\<lambda>w. w\<lparr>wk_canceled := True\<rparr>) s
      in s'\<lparr>sc_draining := tbl_put i p (sc_draining s'), sc_workers := tbl_del i (sc_workers s')\<rparr>)"

definition stop_undesired :: "(string, instanceSnap) table \<Rightarrow> scheduler \<Rightarrow> scheduler" where
  "stop_undesired desired s = fold stop_worker (filter (\<lambda>(i, p). \<not> tbl_has i desired) (sc_workers s)) s"

definition reconcile :: "sched_opts \<Rightarrow> rpc_status + (tenant_id \<times> pb_ConnectorInstance) list \<Rightarrow> scheduler \<Rightarrow> scheduler" where
  "reconcile c resp s =
     (case resp of
        Inl _ \<Rightarrow> s
      | Inr instances \<Rightarrow>
          let desired = desired_of (so_maxInstancesPerTenant c) instances
          in stop_undesired desired (fold ensure_worker desired (reap s)))"

subsection \<open>Stopping, lookups and triggers\<close>

definition cancel_all :: "(string, nat) table \<Rightarrow> scheduler \<Rightarrow> scheduler" where
  "cancel_all t s = fold (\<lambda>(i, p). on_worker p (\<lambda>w. w\<lparr>wk_canceled := True\<rparr>)) t s"

definition stopAll :: "scheduler \<Rightarrow> scheduler" where
  "stopAll s = (cancel_all (sc_draining s) (cancel_all (sc_workers s) s))\<lparr>sc_workers := [], sc_draining := []\<rparr>"

definition lookup :: "string \<Rightarrow> scheduler \<Rightarrow> instanceSnap option" where
  "lookup i s = map_option (\<lambda>p. wk_snap (sc_heap s ! p)) (tbl_get (sc_workers s) i)"

text \<open>The channel holds at most one request.\<close>

definition trigger :: "string \<Rightarrow> scheduler \<Rightarrow> scheduler" where
  "trigger i s = (case tbl_get (sc_workers s) i of None \<Rightarrow> s | Some p \<Rightarrow> on_worker p (\<lambda>w. w\<lparr>wk_wake := True\<rparr>) s)"

subsection \<open>The worker's loop\<close>

text \<open>
  The ways a worker moves on: its context is done, its timer fires, it is woken, it gets a slot, or its
  pass ends, with or without an error.
\<close>

datatype move = CtxDone | Timer | Wake | Slot | PassEnd bool

definition worker_done :: "scheduler \<Rightarrow> nat \<Rightarrow> bool" where
  "worker_done s p = (sc_ctxDone s \<or> wk_canceled (sc_heap s ! p))"

definition exit_worker :: "nat \<Rightarrow> scheduler \<Rightarrow> scheduler" where
  "exit_worker p s = (on_worker p (\<lambda>w. w\<lparr>wk_pc := Exited\<rparr>) s)\<lparr>sc_wg := sc_wg s - 1\<rparr>"

definition next_pass :: "sched_opts \<Rightarrow> bool \<Rightarrow> worker \<Rightarrow> worker" where
  "next_pass c failed w =
     (let fs = (if failed then wk_failures w + 1 else 0);
          d = (if failed then backoffDelay (so_backoffBase c) (so_backoffCap c) fs else so_syncInterval c)
      in w\<lparr>wk_failures := fs, wk_delay := d, wk_pc := (if d > 0 then Sleeping else Acquiring)\<rparr>)"

definition runWorker :: "sched_opts \<Rightarrow> nat \<Rightarrow> move \<Rightarrow> scheduler \<Rightarrow> scheduler option" where
  "runWorker c p mv s =
     (if p \<ge> length (sc_heap s) then None
      else
        let w = sc_heap s ! p in
        case (wk_pc w, mv) of
          (Sleeping, CtxDone) \<Rightarrow> if worker_done s p then Some (exit_worker p s) else None
        | (Sleeping, Timer) \<Rightarrow> Some (on_worker p (\<lambda>w. w\<lparr>wk_pc := Acquiring\<rparr>) s)
        | (Sleeping, Wake) \<Rightarrow> if wk_wake w then Some (on_worker p (\<lambda>w. w\<lparr>wk_wake := False, wk_pc := Acquiring\<rparr>) s) else None
        | (Acquiring, CtxDone) \<Rightarrow> if worker_done s p then Some (exit_worker p s) else None
        | (Acquiring, Slot) \<Rightarrow>
            if sc_sem s < maxConcurrentSyncs
            then Some ((on_worker p (\<lambda>w. w\<lparr>wk_pc := Syncing\<rparr>) s)\<lparr>sc_sem := sc_sem s + 1\<rparr>) else None
        | (Syncing, PassEnd failed) \<Rightarrow>
            let s' = s\<lparr>sc_sem := sc_sem s - 1\<rparr> in
            if worker_done s p then Some (exit_worker p s') else Some (on_worker p (next_pass c failed) s')
        | _ \<Rightarrow> None)"

subsection \<open>All interleavings\<close>

inductive sched_step :: "sched_opts \<Rightarrow> scheduler \<Rightarrow> scheduler \<Rightarrow> bool" for c :: sched_opts where
  Reconcile: "sc_phase s = Running \<Longrightarrow> sched_step c s (reconcile c resp s)"
| Trigger: "sched_step c s (trigger i s)"
| Worker: "runWorker c p mv s = Some s' \<Longrightarrow> sched_step c s s'"
| Cancel: "sched_step c s (s\<lparr>sc_ctxDone := True\<rparr>)"
| Stop: "sc_phase s = Running \<Longrightarrow> sc_ctxDone s \<Longrightarrow> sched_step c s ((stopAll s)\<lparr>sc_phase := Stopping\<rparr>)"
| Wait: "sc_phase s = Stopping \<Longrightarrow> sc_wg s = 0 \<Longrightarrow> sched_step c s (s\<lparr>sc_phase := Returned\<rparr>)"

inductive reachable :: "sched_opts \<Rightarrow> scheduler \<Rightarrow> bool" for c :: sched_opts where
  Init: "reachable c newScheduler"
| Step: "reachable c s \<Longrightarrow> sched_step c s s' \<Longrightarrow> reachable c s'"

section \<open>Facts: one worker per instance\<close>

definition live :: "scheduler \<Rightarrow> nat \<Rightarrow> bool" where
  "live s p \<longleftrightarrow> p < length (sc_heap s) \<and> wk_pc (sc_heap s ! p) \<noteq> Exited"

abbreviation id_of :: "scheduler \<Rightarrow> nat \<Rightarrow> string" where
  "id_of s p \<equiv> wk_instanceID (sc_heap s ! p)"

definition entry :: "scheduler \<Rightarrow> string \<Rightarrow> nat \<Rightarrow> bool" where
  "entry s i p \<longleftrightarrow> (i, p) \<in> set (sc_workers s) \<or> (i, p) \<in> set (sc_draining s)"

text \<open>
  The maps have unique keys and no common one, an entry points to a worker of that instance, and while the
  scheduler runs every live worker is in one of them.
\<close>

definition maps_ok :: "scheduler \<Rightarrow> bool" where
  "maps_ok s \<longleftrightarrow> wf_table (sc_workers s) \<and> wf_table (sc_draining s) \<and> keys (sc_workers s) \<inter> keys (sc_draining s) = {} \<and>
     (\<forall>i p. entry s i p \<longrightarrow> p < length (sc_heap s) \<and> id_of s p = i)"

definition tracked :: "scheduler \<Rightarrow> bool" where
  "tracked s \<longleftrightarrow> (\<forall>p. live s p \<longrightarrow> entry s (id_of s p) p)"

definition unique :: "scheduler \<Rightarrow> bool" where
  "unique s \<longleftrightarrow> (\<forall>p q. live s p \<longrightarrow> live s q \<longrightarrow> id_of s p = id_of s q \<longrightarrow> p = q)"

lemma wf_unique: "wf_table t \<Longrightarrow> (k, v) \<in> set t \<Longrightarrow> (k, v') \<in> set t \<Longrightarrow> v = v'"
  using map_of_is_SomeI [of t k v] map_of_is_SomeI [of t k v'] by simp

lemma entry_unique: "maps_ok s \<Longrightarrow> entry s i p \<Longrightarrow> entry s i q \<Longrightarrow> p = q"
proof -
  assume m: "maps_ok s" and e: "entry s i p" "entry s i q"
  have "\<not> ((i, a) \<in> set (sc_workers s) \<and> (i, b) \<in> set (sc_draining s))" for a b
    using m unfolding maps_ok_def by force
  then show ?thesis
    using e m wf_unique [of "sc_workers s" i p q] wf_unique [of "sc_draining s" i p q] unfolding entry_def maps_ok_def by blast
qed

lemma tracked_unique: "maps_ok s \<Longrightarrow> tracked s \<Longrightarrow> unique s"
  using entry_unique unfolding unique_def tracked_def by metis

text \<open>What a step of a worker changes: its own record, but neither its instance nor, once it has ended, that.\<close>

definition harmless :: "worker \<Rightarrow> (worker \<Rightarrow> worker) \<Rightarrow> bool" where
  "harmless w f \<longleftrightarrow> wk_instanceID (f w) = wk_instanceID w \<and> (wk_pc (f w) \<noteq> Exited \<longrightarrow> wk_pc w \<noteq> Exited)"

lemma on_worker_sel [simp]:
  "sc_workers (on_worker p f s) = sc_workers s" "sc_draining (on_worker p f s) = sc_draining s"
  "sc_sem (on_worker p f s) = sc_sem s" "sc_wg (on_worker p f s) = sc_wg s" "sc_ctxDone (on_worker p f s) = sc_ctxDone s"
  "sc_phase (on_worker p f s) = sc_phase s" "length (sc_heap (on_worker p f s)) = length (sc_heap s)"
  by (simp_all add: on_worker_def)

lemma on_worker_nth: "q < length (sc_heap s) \<Longrightarrow> sc_heap (on_worker p f s) ! q = (if q = p then f (sc_heap s ! q) else sc_heap s ! q)"
  by (simp add: on_worker_def nth_list_update)

lemma on_worker_id: "harmless (sc_heap s ! p) f \<Longrightarrow> q < length (sc_heap s) \<Longrightarrow> id_of (on_worker p f s) q = id_of s q"
  by (simp add: on_worker_nth harmless_def)

lemma on_worker_live: "harmless (sc_heap s ! p) f \<Longrightarrow> live (on_worker p f s) q \<Longrightarrow> live s q"
  by (auto simp: live_def on_worker_nth harmless_def split: if_splits)

lemma on_worker_keeps:
  assumes "harmless (sc_heap s ! p) f"
  shows "maps_ok s \<Longrightarrow> maps_ok (on_worker p f s)" "tracked s \<Longrightarrow> tracked (on_worker p f s)" "unique s \<Longrightarrow> unique (on_worker p f s)"
proof -
  show "maps_ok s \<Longrightarrow> maps_ok (on_worker p f s)"
    using assms by (simp add: maps_ok_def on_worker_id entry_def)
  have lv: "live (on_worker p f s) q \<Longrightarrow> live s q \<and> id_of (on_worker p f s) q = id_of s q" for q
    using assms on_worker_live [OF assms] on_worker_id [OF assms] by (simp add: live_def)
  show "tracked s \<Longrightarrow> tracked (on_worker p f s)" "unique s \<Longrightarrow> unique (on_worker p f s)"
    using lv unfolding tracked_def unique_def entry_def by auto
qed

lemma maps_ok_cong:
  "sc_heap s' = sc_heap s \<Longrightarrow> sc_workers s' = sc_workers s \<Longrightarrow> sc_draining s' = sc_draining s \<Longrightarrow>
     maps_ok s' = maps_ok s \<and> tracked s' = tracked s \<and> unique s' = unique s"
  by (simp add: maps_ok_def tracked_def unique_def live_def entry_def)

lemma harmless_updates [simp]:
  "harmless v (\<lambda>w. w\<lparr>wk_snap := x\<rparr>)" "harmless v (\<lambda>w. w\<lparr>wk_canceled := b\<rparr>)" "harmless v (\<lambda>w. w\<lparr>wk_wake := b\<rparr>)"
  "harmless v (\<lambda>w. w\<lparr>wk_pc := Exited\<rparr>)"
  by (simp_all add: harmless_def)

subsection \<open>Reconciliation keeps the maps\<close>

lemma reap_keeps: "maps_ok s \<Longrightarrow> maps_ok (reap s)" "tracked s \<Longrightarrow> tracked (reap s)"
proof -
  assume m: "maps_ok s"
  have "set (tbl_keep (\<lambda>i p. \<not> is_done s p) (sc_draining s)) \<subseteq> set (sc_draining s)" by (auto simp: tbl_keep_def)
  moreover have "wf_table (tbl_keep (\<lambda>i p. \<not> is_done s p) (sc_draining s))"
    using m by (simp add: maps_ok_def tbl_keep_def distinct_map_filter)
  ultimately show "maps_ok (reap s)" using m unfolding maps_ok_def entry_def reap_def by (auto 0 3)
next
  assume "tracked s" then show "tracked (reap s)"
    by (auto simp: tracked_def reap_def live_def tbl_keep_def is_done_def entry_def)
qed

lemma spawn_keeps:
  assumes "maps_ok s" "tracked s" "i \<notin> keys (sc_workers s)" "i \<notin> keys (sc_draining s)"
    and s': "s' = s\<lparr>sc_heap := sc_heap s @ [new_worker i snap], sc_workers := tbl_put i (length (sc_heap s)) (sc_workers s), sc_wg := n\<rparr>"
  shows "maps_ok s' \<and> tracked s'"
proof -
  have ent: "entry s' j q \<longleftrightarrow> entry s j q \<or> j = i \<and> q = length (sc_heap s)" for j q
    using assms(3) by (auto simp: entry_def s' put_new)
  have old: "q < length (sc_heap s) \<Longrightarrow> sc_heap s' ! q = sc_heap s ! q" for q by (simp add: s' nth_append)
  have new: "sc_heap s' ! length (sc_heap s) = new_worker i snap" by (simp add: s')
  have "maps_ok s'"
    using assms(1,3,4) ent old new unfolding maps_ok_def
    by (auto simp: s' new_worker_def intro: less_SucI)
  moreover have "tracked s'"
    unfolding tracked_def
  proof (intro allI impI)
    fix q assume lv: "live s' q"
    then have "q < length (sc_heap s) \<or> q = length (sc_heap s)" by (auto simp: live_def s')
    then show "entry s' (id_of s' q) q"
      using lv assms(2) old [of q] new by (auto simp: ent tracked_def live_def new_worker_def)
  qed
  ultimately show ?thesis ..
qed

lemma ensure_keeps:
  assumes "maps_ok s \<and> tracked s"
  shows "maps_ok (ensure_worker e s) \<and> tracked (ensure_worker e s)"
proof (cases "tbl_get (sc_workers s) (fst e)")
  case (Some p)
  then show ?thesis using assms by (simp add: ensure_worker_def case_prod_beta on_worker_keeps)
next
  case None
  then have "fst e \<notin> keys (sc_workers s)" by (simp add: map_of_eq_None_iff)
  then show ?thesis
    using assms None spawn_keeps [where s = s and i = "fst e" and snap = "snd e" and n = "sc_wg s + 1", OF _ _ _ _ refl]
    by (auto simp: ensure_worker_def case_prod_beta)
qed

lemma stop_keeps:
  assumes "maps_ok s" "tracked s" "(i, p) \<in> set (sc_workers s)"
  shows "maps_ok (stop_worker (i, p) s) \<and> tracked (stop_worker (i, p) s)"
proof -
  let ?s = "on_worker p (\<lambda>w. w\<lparr>wk_canceled := True\<rparr>) s"
  have ok: "maps_ok ?s" "tracked ?s" using on_worker_keeps assms(1,2) by simp_all
  have "i \<in> keys (sc_workers s)" using imageI [OF assms(3), of fst] by simp
  then have i: "i \<notin> keys (sc_draining s)" using assms(1) unfolding maps_ok_def by blast
  have fields: "sc_workers (stop_worker (i, p) s) = tbl_del i (sc_workers s)"
    "sc_draining (stop_worker (i, p) s) = tbl_put i p (sc_draining s)" "sc_heap (stop_worker (i, p) s) = sc_heap ?s"
    by (simp_all add: stop_worker_def)
  have p: "(i, q) \<in> set (sc_workers s) \<longleftrightarrow> q = p" for q
    using wf_unique [of "sc_workers s" i q p] assms(1,3) unfolding maps_ok_def by blast
  have ent: "entry (stop_worker (i, p) s) j q \<longleftrightarrow> entry ?s j q" for j q
    unfolding entry_def fields using i by (cases "j = i") (auto simp: put_new AList.delete_eq p)
  have "keys (tbl_del i (sc_workers s)) \<inter> keys (tbl_put i p (sc_draining s)) = {}"
    using assms(1) unfolding maps_ok_def by auto
  then have "maps_ok (stop_worker (i, p) s)"
    using ok(1) unfolding maps_ok_def ent fields by (simp add: distinct_delete)
  moreover have "tracked (stop_worker (i, p) s)"
    using ok(2) unfolding tracked_def live_def ent fields .
  ultimately show ?thesis ..
qed

lemma stop_fold_keeps:
  "maps_ok s \<and> tracked s \<Longrightarrow> wf_table xs \<Longrightarrow> set xs \<subseteq> set (sc_workers s) \<Longrightarrow>
     maps_ok (fold stop_worker xs s) \<and> tracked (fold stop_worker xs s)"
proof (induction xs arbitrary: s)
  case (Cons e xs)
  obtain i p where e: "e = (i, p)" by (cases e)
  have "set xs \<subseteq> set (sc_workers (stop_worker e s))"
    using Cons.prems(2,3) by (force simp: e stop_worker_def AList.delete_eq)
  then show ?case using Cons stop_keeps [of s i p] by (simp add: e)
qed simp

lemma fold_keeps: "(\<And>e s. I s \<Longrightarrow> I (f e s)) \<Longrightarrow> I s \<Longrightarrow> I (fold f xs s)"
  by (induction xs arbitrary: s) simp_all

lemma reconcile_keeps:
  assumes "maps_ok s" "tracked s"
  shows "maps_ok (reconcile c resp s) \<and> tracked (reconcile c resp s)"
proof (cases resp)
  case (Inr instances)
  let ?d = "desired_of (so_maxInstancesPerTenant c) instances"
  have "maps_ok (fold ensure_worker ?d (reap s)) \<and> tracked (fold ensure_worker ?d (reap s))"
    by (rule fold_keeps [where I = "\<lambda>s. maps_ok s \<and> tracked s"]) (simp_all add: ensure_keeps reap_keeps assms)
  then show ?thesis
    unfolding Inr reconcile_def sum.case Let_def stop_undesired_def
    by (intro stop_fold_keeps) (auto simp: maps_ok_def distinct_map_filter)
qed (simp add: reconcile_def assms)

subsection \<open>The counters\<close>

definition counts_ok :: "scheduler \<Rightarrow> bool" where
  "counts_ok s \<longleftrightarrow> sc_sem s = length (filter (\<lambda>w. wk_pc w = Syncing) (sc_heap s)) \<and> sc_sem s \<le> maxConcurrentSyncs \<and>
     sc_wg s = length (filter (\<lambda>w. wk_pc w \<noteq> Exited) (sc_heap s))"

lemma filter_update:
  "k < length xs \<Longrightarrow> length (filter P (xs[k := y])) + of_bool (P (xs ! k)) = length (filter P xs) + of_bool (P y)"
proof (induction xs arbitrary: k)
  case (Cons x xs)
  then show ?case by (cases k) auto
qed simp

lemma counts_on_worker:
  assumes "counts_ok s" "\<And>w. wk_pc (f w) = wk_pc w"
  shows "counts_ok (on_worker p f s)"
proof (cases "p < length (sc_heap s)")
  case True
  then show ?thesis
    using assms filter_update [OF True, of "\<lambda>w. wk_pc w = Syncing" "f (sc_heap s ! p)"]
      filter_update [OF True, of "\<lambda>w. wk_pc w \<noteq> Exited" "f (sc_heap s ! p)"]
    by (simp add: counts_ok_def on_worker_def)
next
  case False
  then show ?thesis using assms(1) by (simp add: counts_ok_def on_worker_def list_update_beyond)
qed

lemma counts_cong: "sc_heap s' = sc_heap s \<Longrightarrow> sc_sem s' = sc_sem s \<Longrightarrow> sc_wg s' = sc_wg s \<Longrightarrow> counts_ok s' = counts_ok s"
  by (simp add: counts_ok_def)

lemma counts_ensure: "counts_ok s \<Longrightarrow> counts_ok (ensure_worker e s)"
  by (auto simp: ensure_worker_def case_prod_beta counts_on_worker split: option.splits)
    (simp add: counts_ok_def new_worker_def)

lemma counts_stop: "counts_ok s \<Longrightarrow> counts_ok (stop_worker e s)"
  using counts_on_worker [of s "\<lambda>w. w\<lparr>wk_canceled := True\<rparr>" "snd e"]
  by (simp add: stop_worker_def case_prod_beta counts_ok_def)

lemma counts_reconcile: "counts_ok s \<Longrightarrow> counts_ok (reconcile c resp s)"
proof (cases resp)
  case (Inr instances)
  assume "counts_ok s"
  then have "counts_ok (reap s)" by (simp add: counts_ok_def reap_def)
  then show ?thesis
    unfolding Inr reconcile_def sum.case Let_def stop_undesired_def
    by (intro fold_keeps [where I = counts_ok] counts_stop counts_ensure)
qed (simp add: reconcile_def)

lemma cancel_all_keeps:
  "maps_ok s \<Longrightarrow> maps_ok (cancel_all t s)" "unique s \<Longrightarrow> unique (cancel_all t s)" "counts_ok s \<Longrightarrow> counts_ok (cancel_all t s)"
  "sc_phase (cancel_all t s) = sc_phase s"
  unfolding cancel_all_def
  by (rule fold_keeps [where I = maps_ok] fold_keeps [where I = unique] fold_keeps [where I = counts_ok]
      fold_keeps [where I = "\<lambda>s'. sc_phase s' = sc_phase s"];
      simp add: case_prod_beta on_worker_keeps counts_on_worker)+

subsection \<open>The per-tenant cap\<close>

lemma wf_add_desired: "wf_table d \<Longrightarrow> wf_table (add_desired ti d)"
  by (auto simp: add_desired_def Let_def split: sum.splits)

lemma wf_desired: "wf_table (desired_of mx instances)"
proof -
  have "wf_table (fold add_desired instances [])"
    by (rule fold_keeps [where I = wf_table]) (simp_all add: wf_add_desired)
  then show ?thesis by (simp add: desired_of_def applyTenantCap_def tbl_keep_def distinct_map_filter)
qed

lemma ids_of_cap:
  assumes "mx > 0"
  shows "ids_of t (applyTenantCap mx d) = filter (\<lambda>i. i \<notin> set (over_cap mx (ids_of t d))) (ids_of t d)"
proof -
  have "filter (\<lambda>(i, snap). snap_tenant snap = t) (tbl_keep (\<lambda>i snap. i \<notin> set (over_cap mx (ids_of (snap_tenant snap) d))) d) =
    filter (\<lambda>(i, snap). i \<notin> set (over_cap mx (ids_of t d))) (filter (\<lambda>(i, snap). snap_tenant snap = t) d)"
    unfolding tbl_keep_def filter_filter by (rule filter_cong) auto
  then show ?thesis
    using assms by (simp add: applyTenantCap_def ids_of_def filter_map comp_def case_prod_beta)
qed

lemma under_cap:
  assumes "distinct ids" "mx > 0"
  shows "length (filter (\<lambda>i. i \<notin> set (over_cap mx ids)) ids) \<le> nat mx"
proof (cases "int (length ids) \<le> mx")
  case False
  have "set (filter (\<lambda>i. i \<notin> set (over_cap mx ids)) ids) \<subseteq> set (take (nat mx) (sort ids))"
  proof
    fix i assume "i \<in> set (filter (\<lambda>i. i \<notin> set (over_cap mx ids)) ids)"
    then have "i \<in> set (sort ids)" "i \<notin> set (drop (nat mx) (sort ids))" using False by (simp_all add: over_cap_def)
    then show "i \<in> set (take (nat mx) (sort ids))" by (metis Un_iff append_take_drop_id set_append)
  qed
  then have "card (set (filter (\<lambda>i. i \<notin> set (over_cap mx ids)) ids)) \<le> card (set (take (nat mx) (sort ids)))"
    by (intro card_mono) simp_all
  also have "\<dots> \<le> nat mx" by (rule order.trans [OF card_length]) simp
  finally show ?thesis unfolding distinct_card [OF distinct_filter [OF assms(1)]] .
qed (simp add: over_cap_def)

lemma desired_capped: "mx > 0 \<Longrightarrow> length (ids_of t (desired_of mx instances)) \<le> nat mx"
proof -
  assume mx: "mx > 0"
  have "wf_table (fold add_desired instances [])"
    by (rule fold_keeps [where I = wf_table]) (simp_all add: wf_add_desired)
  then have "distinct (ids_of t (fold add_desired instances []))" by (simp add: ids_of_def distinct_map_filter)
  then show ?thesis unfolding desired_of_def ids_of_cap [OF mx] using mx by (rule under_cap)
qed

definition tenant_of :: "scheduler \<Rightarrow> nat \<Rightarrow> tenant_id" where
  "tenant_of s p = snap_tenant (wk_snap (sc_heap s ! p))"

definition cap_ok :: "int \<Rightarrow> scheduler \<Rightarrow> bool" where
  "cap_ok mx s \<longleftrightarrow> (mx > 0 \<longrightarrow> (\<forall>t. length (filter (\<lambda>(i, p). tenant_of s p = t) (sc_workers s)) \<le> nat mx))"

text \<open>The workers of the instances in a table hold the snapshots of that table.\<close>

definition synced :: "(string, instanceSnap) table \<Rightarrow> scheduler \<Rightarrow> bool" where
  "synced d s \<longleftrightarrow> (\<forall>i snap p. (i, snap) \<in> set d \<longrightarrow> (i, p) \<in> set (sc_workers s) \<longrightarrow> wk_snap (sc_heap s ! p) = snap)"

lemma ensure_synced:
  assumes m: "maps_ok s" and d: "synced d s" "i \<notin> keys d"
  shows "synced ((i, snap) # d) (ensure_worker (i, snap) s)"
proof (cases "tbl_get (sc_workers s) i")
  case (Some p)
  then have p: "(i, p) \<in> set (sc_workers s)" by (rule map_of_SomeD)
  have old: "q < length (sc_heap s) \<and> id_of s q = j" if "(j, q) \<in> set (sc_workers s)" for j q
    using m that unfolding maps_ok_def entry_def by blast
  have "q = p" if "(i, q) \<in> set (sc_workers s)" for q
    using wf_unique [of "sc_workers s" i q p] m p that unfolding maps_ok_def by blast
  moreover have "q \<noteq> p" if "(j, q) \<in> set (sc_workers s)" "j \<noteq> i" for j q
    using old [OF that(1)] old [OF p] that(2) by auto
  moreover have "j \<noteq> i" if "(j, sn) \<in> set d" for j sn
    using d(2) imageI [OF that, of fst] by auto
  ultimately show ?thesis
    using d(1) old by (auto simp: Some synced_def ensure_worker_def on_worker_nth)
next
  case None
  then have i: "i \<notin> keys (sc_workers s)" by (simp add: map_of_eq_None_iff)
  have old: "q < length (sc_heap s)" if "(j, q) \<in> set (sc_workers s)" for j q
    using m that unfolding maps_ok_def entry_def by blast
  have nin: "(i, q) \<notin> set (sc_workers s)" for q
    using i imageI [of "(i, q)" "set (sc_workers s)" fst] by auto
  have nd: "j \<noteq> i" if "(j, sn) \<in> set d" for j sn
    using d(2) imageI [OF that, of fst] by auto
  show ?thesis
    using d(1) old nin nd i by (auto simp: None synced_def ensure_worker_def put_new nth_append new_worker_def)
qed

lemma ensure_fold_synced:
  "maps_ok s \<and> tracked s \<Longrightarrow> synced d0 s \<Longrightarrow> wf_table d \<Longrightarrow> keys d \<inter> keys d0 = {} \<Longrightarrow>
     synced (rev d @ d0) (fold ensure_worker d s)"
proof (induction d arbitrary: s d0)
  case (Cons e d)
  obtain i snap where e: "e = (i, snap)" by (cases e)
  have "synced ((i, snap) # d0) (ensure_worker e s)" using ensure_synced [of s d0 i snap] Cons.prems by (simp add: e)
  moreover have "keys d \<inter> keys ((i, snap) # d0) = {}" using Cons.prems(3,4) by (auto simp: e)
  ultimately show ?case using Cons.IH [of "ensure_worker e s" "(i, snap) # d0"] Cons.prems ensure_keeps [of s e] by (simp add: e)
qed simp

lemma stop_fold_workers: "sc_workers (fold stop_worker xs s) = filter (\<lambda>e. fst e \<notin> keys xs) (sc_workers s)"
proof (induction xs arbitrary: s)
  case (Cons e xs)
  have "sc_workers (stop_worker e s) = filter (\<lambda>x. fst x \<noteq> fst e) (sc_workers s)"
    by (auto simp: stop_worker_def case_prod_beta AList.delete_eq intro: filter_cong)
  then show ?case by (simp add: Cons.IH)
qed simp

lemma stop_fold_snap:
  "p < length (sc_heap s) \<Longrightarrow> wk_snap (sc_heap (fold stop_worker xs s) ! p) = wk_snap (sc_heap s ! p)"
proof (induction xs arbitrary: s)
  case (Cons e xs)
  have "p < length (sc_heap (stop_worker e s))" "wk_snap (sc_heap (stop_worker e s) ! p) = wk_snap (sc_heap s ! p)"
    using Cons.prems by (simp_all add: stop_worker_def case_prod_beta on_worker_nth)
  then show ?case by (simp add: Cons.IH)
qed simp

lemma reconcile_workers:
  assumes "maps_ok s" "tracked s" and "(i, p) \<in> set (sc_workers (reconcile c (Inr instances) s))"
  shows "(i, wk_snap (sc_heap (reconcile c (Inr instances) s) ! p)) \<in> set (desired_of (so_maxInstancesPerTenant c) instances)"
proof -
  let ?d = "desired_of (so_maxInstancesPerTenant c) instances"
  define s1 where "s1 = fold ensure_worker ?d (reap s)"
  define xs where "xs = filter (\<lambda>(i, p). \<not> tbl_has i ?d) (sc_workers s1)"
  have rec: "reconcile c (Inr instances) s = fold stop_worker xs s1"
    by (simp add: reconcile_def stop_undesired_def s1_def xs_def Let_def)
  have ok: "maps_ok (reap s) \<and> tracked (reap s)" using reap_keeps assms(1,2) by blast
  have "maps_ok s1 \<and> tracked s1"
    unfolding s1_def by (rule fold_keeps [where I = "\<lambda>s. maps_ok s \<and> tracked s"]) (simp_all add: ensure_keeps ok)
  then have len: "p < length (sc_heap s1)" if "(i, p) \<in> set (sc_workers s1)"
    using that unfolding maps_ok_def entry_def by blast
  have "synced (rev ?d @ []) s1"
    unfolding s1_def by (rule ensure_fold_synced) (simp_all add: ok wf_desired, simp add: synced_def)
  moreover have w: "(i, p) \<in> set (sc_workers s1)" "i \<notin> keys xs" using assms(3) by (auto simp: rec stop_fold_workers)
  then have "i \<in> keys ?d" by (force simp: xs_def)
  then obtain snap where snap: "(i, snap) \<in> set ?d" by auto
  ultimately have "wk_snap (sc_heap s1 ! p) = snap" using w(1) by (auto simp: synced_def)
  then show ?thesis using snap stop_fold_snap [OF len [OF w(1)], of xs] by (simp add: rec)
qed

lemma cap_reconcile:
  assumes "maps_ok s" "tracked s" "cap_ok (so_maxInstancesPerTenant c) s"
  shows "cap_ok (so_maxInstancesPerTenant c) (reconcile c resp s)"
proof (cases resp)
  case (Inr instances)
  let ?s = "reconcile c (Inr instances) s" and ?d = "desired_of (so_maxInstancesPerTenant c) instances"
  have "length (filter (\<lambda>(i, p). tenant_of ?s p = t) (sc_workers ?s)) \<le> length (ids_of t ?d)" for t
  proof -
    let ?l = "filter (\<lambda>(i, p). tenant_of ?s p = t) (sc_workers ?s)"
    have "set (map fst ?l) \<subseteq> set (ids_of t ?d)"
      using reconcile_workers [OF assms(1,2)] by (force simp: ids_of_def tenant_of_def)
    then have "card (set (map fst ?l)) \<le> length (ids_of t ?d)"
      by (rule order.trans [OF card_mono [OF finite_set] card_length])
    moreover have "wf_table (sc_workers ?s)" using reconcile_keeps [OF assms(1,2), of c resp] by (simp add: maps_ok_def Inr)
    then have "distinct (map fst ?l)" by (rule distinct_map_filter)
    ultimately show ?thesis by (metis distinct_card length_map)
  qed
  then show ?thesis
    unfolding cap_ok_def Inr using desired_capped order.trans by blast
qed (simp add: reconcile_def assms(3))

subsection \<open>The invariant\<close>

definition sched_inv :: "sched_opts \<Rightarrow> scheduler \<Rightarrow> bool" where
  "sched_inv c s \<longleftrightarrow> maps_ok s \<and> unique s \<and> counts_ok s \<and> cap_ok (so_maxInstancesPerTenant c) s \<and>
     (sc_phase s = Running \<longrightarrow> tracked s) \<and> (sc_phase s = Returned \<longrightarrow> sc_wg s = 0)"

lemma cap_on_worker:
  assumes "maps_ok s" "cap_ok mx s" "\<And>w. wk_snap (f w) = wk_snap w"
  shows "cap_ok mx (on_worker p f s)"
proof -
  have "tenant_of (on_worker p f s) q = tenant_of s q" if "(i, q) \<in> set (sc_workers s)" for i q
    using assms(1,3) that unfolding maps_ok_def entry_def tenant_of_def by (auto simp: on_worker_nth)
  then have "filter (\<lambda>(i, q). tenant_of (on_worker p f s) q = t) (sc_workers s) = filter (\<lambda>(i, q). tenant_of s q = t) (sc_workers s)" for t
    by (intro filter_cong) auto
  then show ?thesis using assms(2) by (simp add: cap_ok_def)
qed

lemma cap_cong: "sc_heap s' = sc_heap s \<Longrightarrow> sc_workers s' = sc_workers s \<Longrightarrow> cap_ok mx s' = cap_ok mx s"
  by (simp add: cap_ok_def tenant_of_def)

text \<open>A worker's own steps: its record changes harmlessly, and the counters change with where it is.\<close>

lemma counts_positive:
  assumes "counts_ok s" "live s p"
  shows "sc_wg s > 0" "wk_pc (sc_heap s ! p) = Syncing \<Longrightarrow> sc_sem s > 0"
  using assms length_pos_if_in_set [of "sc_heap s ! p" "filter (\<lambda>w. wk_pc w = Syncing) (sc_heap s)"]
    length_pos_if_in_set [of "sc_heap s ! p" "filter (\<lambda>w. wk_pc w \<noteq> Exited) (sc_heap s)"]
  by (simp_all add: counts_ok_def live_def)

lemma counts_move:
  assumes "counts_ok s" "p < length (sc_heap s)" "wk_pc (f (sc_heap s ! p)) = pc'"
    and "sc_heap s' = sc_heap (on_worker p f s)" "sc_sem s' \<le> maxConcurrentSyncs"
    and "sc_sem s' + of_bool (wk_pc (sc_heap s ! p) = Syncing) = sc_sem s + of_bool (pc' = Syncing)"
    and "sc_wg s' + of_bool (wk_pc (sc_heap s ! p) \<noteq> Exited) = sc_wg s + of_bool (pc' \<noteq> Exited)"
  shows "counts_ok s'"
  using assms filter_update [OF assms(2), of "\<lambda>w. wk_pc w = Syncing" "f (sc_heap s ! p)"]
    filter_update [OF assms(2), of "\<lambda>w. wk_pc w \<noteq> Exited" "f (sc_heap s ! p)"]
  by (simp add: counts_ok_def on_worker_def)

lemma move_inv:
  assumes inv: "sched_inv c s" and lv: "live s p"
    and f: "wk_instanceID (f (sc_heap s ! p)) = wk_instanceID (sc_heap s ! p)" "\<And>w. wk_snap (f w) = wk_snap w"
    and s': "sc_heap s' = sc_heap (on_worker p f s)" "sc_workers s' = sc_workers s" "sc_draining s' = sc_draining s" "sc_phase s' = sc_phase s"
    and sem: "sc_sem s' \<le> maxConcurrentSyncs"
      "sc_sem s' + of_bool (wk_pc (sc_heap s ! p) = Syncing) = sc_sem s + of_bool (wk_pc (f (sc_heap s ! p)) = Syncing)"
    and wg: "sc_wg s' + 1 = sc_wg s + of_bool (wk_pc (f (sc_heap s ! p)) \<noteq> Exited)"
  shows "sched_inv c s'"
proof -
  have h: "harmless (sc_heap s ! p) f" using f(1) lv by (simp add: harmless_def live_def)
  have "sc_phase s \<noteq> Returned" using counts_positive(1) [of s p] inv lv by (auto simp: sched_inv_def)
  moreover have "maps_ok s'" "unique s'" "sc_phase s = Running \<Longrightarrow> tracked s'"
    using inv on_worker_keeps [OF h] maps_ok_cong [of s' "on_worker p f s"] s' unfolding sched_inv_def by simp_all
  moreover have "cap_ok (so_maxInstancesPerTenant c) s'"
    using inv cap_on_worker [OF _ _ f(2), of s _ p] cap_cong [of s' "on_worker p f s"] s' unfolding sched_inv_def by simp
  moreover have "counts_ok s'"
    using counts_move [of s p f _ s', OF _ _ refl s'(1) sem] inv lv wg by (simp add: sched_inv_def live_def)
  ultimately show ?thesis unfolding sched_inv_def by (simp add: s'(4))
qed

lemma runWorker_inv:
  assumes inv: "sched_inv c s" and run: "runWorker c p mv s = Some s'"
  shows "sched_inv c s'"
proof -
  have p: "p < length (sc_heap s)" using run by (auto simp: runWorker_def split: if_splits)
  have pos: "wk_pc (sc_heap s ! p) \<noteq> Exited \<Longrightarrow> sc_wg s > 0" "wk_pc (sc_heap s ! p) = Syncing \<Longrightarrow> sc_sem s > 0"
    "sc_sem s \<le> maxConcurrentSyncs"
    using counts_positive [of s p] inv p by (auto simp: sched_inv_def live_def counts_ok_def)
  have ex: "sched_inv c (exit_worker p s1)"
    if "live s p" "sc_heap s1 = sc_heap s" "sc_workers s1 = sc_workers s" "sc_draining s1 = sc_draining s" "sc_phase s1 = sc_phase s"
      "sc_wg s1 = sc_wg s" "sc_sem s1 + of_bool (wk_pc (sc_heap s ! p) = Syncing) = sc_sem s" for s1
    by (rule move_inv [OF inv that(1), where f = "\<lambda>w. w\<lparr>wk_pc := Exited\<rparr>"])
      (use that pos in \<open>simp_all add: exit_worker_def on_worker_def live_def\<close>)
  show ?thesis
  proof (cases "wk_pc (sc_heap s ! p)")
    case Sleeping
    then have lv: "live s p" using p by (simp add: live_def)
    show ?thesis
    proof (cases mv)
      case CtxDone
      then show ?thesis using run p Sleeping ex [OF lv, of s] by (auto simp: runWorker_def split: if_splits)
    next
      case Timer
      show ?thesis
        by (rule move_inv [OF inv lv, where f = "\<lambda>w. w\<lparr>wk_pc := Acquiring\<rparr>"])
          (use run p Sleeping Timer pos in \<open>auto simp: runWorker_def\<close>)
    next
      case Wake
      show ?thesis
        by (rule move_inv [OF inv lv, where f = "\<lambda>w. w\<lparr>wk_wake := False, wk_pc := Acquiring\<rparr>"])
          (use run p Sleeping Wake pos in \<open>auto simp: runWorker_def split: if_splits\<close>)
    qed (use run p Sleeping in \<open>simp_all add: runWorker_def\<close>)
  next
    case Acquiring
    then have lv: "live s p" using p by (simp add: live_def)
    show ?thesis
    proof (cases mv)
      case CtxDone
      then show ?thesis using run p Acquiring ex [OF lv, of s] by (auto simp: runWorker_def split: if_splits)
    next
      case Slot
      show ?thesis
        by (rule move_inv [OF inv lv, where f = "\<lambda>w. w\<lparr>wk_pc := Syncing\<rparr>"])
          (use run p Acquiring Slot pos in \<open>auto simp: runWorker_def on_worker_def split: if_splits\<close>)
    qed (use run p Acquiring in \<open>simp_all add: runWorker_def\<close>)
  next
    case Syncing
    then have lv: "live s p" using p by (simp add: live_def)
    show ?thesis
    proof (cases mv)
      case (PassEnd failed)
      have pc: "wk_pc (next_pass c failed w) \<notin> {Syncing, Exited}" for w by (simp add: next_pass_def Let_def)
      show ?thesis
      proof (cases "worker_done s p")
        case True
        then show ?thesis
          using run p Syncing PassEnd ex [OF lv, of "s\<lparr>sc_sem := sc_sem s - 1\<rparr>"] pos by (auto simp: runWorker_def)
      next
        case False
        show ?thesis
          by (rule move_inv [OF inv lv, where f = "next_pass c failed"])
            (use run p Syncing PassEnd False pos pc [of "sc_heap s ! p"] in
              \<open>auto simp: runWorker_def on_worker_def next_pass_def Let_def\<close>)
      qed
    qed (use run p Syncing in \<open>simp_all add: runWorker_def\<close>)
  next
    case Exited
    then show ?thesis using run p by (cases mv) (simp_all add: runWorker_def)
  qed
qed

lemma reconcile_phase: "sc_phase (reconcile c resp s) = sc_phase s"
proof (cases resp)
  case (Inr instances)
  show ?thesis
    unfolding Inr reconcile_def sum.case Let_def stop_undesired_def
    by (rule fold_keeps [where I = "\<lambda>s'. sc_phase s' = sc_phase s"])
      (simp add: stop_worker_def case_prod_beta,
       rule fold_keeps [where I = "\<lambda>s'. sc_phase s' = sc_phase s"],
       simp_all add: ensure_worker_def reap_def case_prod_beta split: option.splits)
qed (simp add: reconcile_def)

lemma step_inv: "sched_step c s s' \<Longrightarrow> sched_inv c s \<Longrightarrow> sched_inv c s'"
proof (induction rule: sched_step.induct)
  case (Reconcile s resp)
  then have ok: "maps_ok s" "tracked s" by (auto simp: sched_inv_def)
  then show ?case
    using Reconcile reconcile_keeps [OF ok, of c resp] tracked_unique counts_reconcile [of s c resp] cap_reconcile [OF ok, of c resp]
    by (simp add: sched_inv_def reconcile_phase)
next
  case (Trigger s i)
  show ?case
  proof (cases "tbl_get (sc_workers s) i")
    case (Some p)
    then show ?thesis
      using Trigger by (simp add: trigger_def sched_inv_def on_worker_keeps counts_on_worker cap_on_worker)
  qed (simp add: trigger_def Trigger)
next
  case (Worker p mv s s')
  then show ?case by (blast intro: runWorker_inv)
next
  case (Cancel s)
  then show ?case
    using maps_ok_cong [of "s\<lparr>sc_ctxDone := True\<rparr>" s] counts_cong [of "s\<lparr>sc_ctxDone := True\<rparr>" s] cap_cong [of "s\<lparr>sc_ctxDone := True\<rparr>" s]
    by (simp add: sched_inv_def)
next
  case (Stop s)
  let ?s = "cancel_all (sc_draining s) (cancel_all (sc_workers s) s)"
  have "unique ?s" "counts_ok ?s" using Stop cancel_all_keeps by (simp_all add: sched_inv_def)
  then show ?case
    by (simp add: sched_inv_def stopAll_def maps_ok_def entry_def unique_def live_def counts_ok_def cap_ok_def)
next
  case (Wait s)
  then show ?case
    using maps_ok_cong [of "s\<lparr>sc_phase := Returned\<rparr>" s] counts_cong [of "s\<lparr>sc_phase := Returned\<rparr>" s] cap_cong [of "s\<lparr>sc_phase := Returned\<rparr>" s]
    by (simp add: sched_inv_def)
qed

lemma reachable_inv: "reachable c s \<Longrightarrow> sched_inv c s"
proof (induction rule: reachable.induct)
  case Init
  show ?case
    by (simp add: sched_inv_def newScheduler_def maps_ok_def entry_def tracked_def unique_def live_def counts_ok_def cap_ok_def)
qed (rule step_inv)

subsection \<open>Backoff\<close>

lemma wrap64_id: "- (2 ^ 63) \<le> i \<Longrightarrow> i < 2 ^ 63 \<Longrightarrow> wrap64 i = i"
  by (simp add: wrap64_def signed_take_bit_int_eq_self sint_sbintrunc')

lemma backoff_loop_exact:
  "0 < d \<Longrightarrow> d < 2 ^ 62 \<Longrightarrow> limit \<le> 2 ^ 62 \<Longrightarrow> backoff_loop n d limit = min limit (d * 2 ^ n)"
proof (induction n arbitrary: d)
  case (Suc n)
  have w: "wrap64 (d * 2) = d * 2" using Suc.prems by (intro wrap64_id) simp_all
  show ?case
  proof (cases "d * 2 \<ge> limit")
    case True
    have "d * 2 * 1 \<le> d * 2 * 2 ^ n" using Suc.prems(1) by (intro mult_left_mono) simp_all
    then have "limit \<le> d * 2 ^ Suc n" using True by (simp add: algebra_simps)
    then show ?thesis using True by (simp add: w)
  next
    case False
    then show ?thesis using Suc.IH [of "d * 2"] Suc.prems by (simp add: w algebra_simps)
  qed
qed simp

text \<open>The delay after the \<open>n\<close>-th failure in a row: doubled each time, and never above the limit.\<close>

lemma backoffDelay_exact:
  "0 < base \<Longrightarrow> base < 2 ^ 62 \<Longrightarrow> limit \<le> 2 ^ 62 \<Longrightarrow> backoffDelay base limit (Suc n) = min limit (base * 2 ^ n)"
  by (simp add: backoffDelay_def backoff_loop_exact)

section \<open>Properties\<close>

definition sample_listing :: "(tenant_id \<times> pb_ConnectorInstance) list" where
  "sample_listing = [(''a'', sn_inst sample_snap)]"

definition sample_opts :: sched_opts where
  "sample_opts = \<lparr>so_syncInterval = 60, so_backoffBase = 5, so_backoffCap = 300, so_maxInstancesPerTenant = 1, so_webhookBase = ''h''\<rparr>"

text \<open>An instance that is paused and resumed while its worker is in a pass.\<close>

definition sample_sched :: scheduler where
  "sample_sched = reconcile sample_opts (Inr sample_listing) (reconcile sample_opts (Inr [])
     (the (runWorker sample_opts 0 Slot (reconcile sample_opts (Inr sample_listing) newScheduler))))"

lemma sample_desired:
  "desired_of 1 sample_listing = [(''i1'', sample_snap)]" "desired_of 1 [] = []"
  using valid_a
  by (simp_all add: desired_of_def sample_listing_def add_desired_def sample_snap_def FromHeaderValue_def ConnectorStatus_ACTIVE_def
      applyTenantCap_def ids_of_def over_cap_def tbl_keep_def)

lemma sample_started:
  "reconcile sample_opts (Inr sample_listing) newScheduler =
     newScheduler\<lparr>sc_heap := [new_worker ''i1'' sample_snap], sc_workers := [(''i1'', 0)], sc_wg := 1\<rparr>"
  by (simp add: reconcile_def sample_opts_def sample_desired reap_def tbl_keep_def newScheduler_def ensure_worker_def stop_undesired_def)

lemma sample_syncing:
  "runWorker sample_opts 0 Slot (reconcile sample_opts (Inr sample_listing) newScheduler) =
     Some (newScheduler\<lparr>sc_heap := [(new_worker ''i1'' sample_snap)\<lparr>wk_pc := Syncing\<rparr>], sc_workers := [(''i1'', 0)], sc_wg := 1, sc_sem := 1\<rparr>)"
  unfolding sample_started
  by (simp add: runWorker_def newScheduler_def new_worker_def on_worker_def maxConcurrentSyncs_def)

lemma sample_sched_eq:
  "sample_sched = newScheduler\<lparr>sc_heap := [(new_worker ''i1'' sample_snap)\<lparr>wk_pc := Syncing, wk_canceled := True\<rparr>],
     sc_draining := [(''i1'', 0)], sc_wg := 1, sc_sem := 1\<rparr>"
  unfolding sample_sched_def sample_syncing option.sel
  by (simp add: reconcile_def sample_opts_def sample_desired reap_def tbl_keep_def newScheduler_def ensure_worker_def stop_undesired_def
      stop_worker_def on_worker_def new_worker_def is_done_def)

lemma sample_reachable: "reachable sample_opts sample_sched"
proof -
  let ?s1 = "reconcile sample_opts (Inr sample_listing) newScheduler"
  let ?s2 = "the (runWorker sample_opts 0 Slot ?s1)" let ?s3 = "reconcile sample_opts (Inr []) ?s2"
  have "reachable sample_opts ?s1" by (rule Step [OF Init], rule Reconcile) (simp add: newScheduler_def)
  moreover have "sched_step sample_opts ?s1 ?s2" using sample_syncing by (intro Worker [of _ 0 Slot]) simp
  ultimately have "reachable sample_opts ?s2" by (rule Step)
  moreover have "sc_phase ?s2 = Running" using sample_syncing by (simp add: newScheduler_def)
  ultimately have "reachable sample_opts ?s3" "sc_phase ?s3 = Running"
    by (auto intro: Step Reconcile simp: reconcile_phase)
  then show ?thesis unfolding sample_sched_def by (auto intro: Step Reconcile)
qed

text \<open>
  C6: Passes of one instance never overlap. In every state the scheduler can reach, however
  reconciliations, triggers, the workers' loops, cancellation and shutdown interleave, an instance has at
  most one worker that has not ended, also across pausing and resuming; at most four passes run at a
  time; with a positive limit no tenant has more scheduled instances than it; and when \<open>Run\<close> has
  returned, every worker has ended.
\<close>

theorem one_pass_per_instance:
  assumes "reachable c s"
  shows "(\<forall>p q. live s p \<and> live s q \<and> wk_instanceID (sc_heap s ! p) = wk_instanceID (sc_heap s ! q) \<longrightarrow> p = q) \<and>
     card {p. p < length (sc_heap s) \<and> wk_pc (sc_heap s ! p) = Syncing} \<le> maxConcurrentSyncs \<and>
     (so_maxInstancesPerTenant c > 0 \<longrightarrow> (\<forall>t. length (filter (\<lambda>(i, p). snap_tenant (wk_snap (sc_heap s ! p)) = t) (sc_workers s))
        \<le> nat (so_maxInstancesPerTenant c))) \<and>
     (sc_phase s = Returned \<longrightarrow> (\<forall>p. \<not> live s p))"
proof -
  have inv: "sched_inv c s" using assms by (rule reachable_inv)
  then have "sc_phase s = Returned \<Longrightarrow> \<not> live s p" for p
    using counts_positive(1) [of s p] by (auto simp: sched_inv_def)
  then show ?thesis
    using inv by (auto simp: sched_inv_def unique_def counts_ok_def cap_ok_def tenant_of_def length_filter_conv_card)
qed

theorem one_pass_per_instance_witness:
  "reachable sample_opts sample_sched \<and> live sample_sched 0 \<and> wk_canceled (sc_heap sample_sched ! 0) \<and> sc_workers sample_sched = [] \<and>
   card {p. p < length (sc_heap sample_sched) \<and> wk_pc (sc_heap sample_sched ! p) = Syncing} \<le> 4"
  using sample_reachable one_pass_per_instance [OF sample_reachable]
  by (simp add: sample_sched_eq live_def newScheduler_def maxConcurrentSyncs_def)

end
