(* ===== verification/Spec2Isabelle.thy ===== *)
theory Spec2Isabelle
  imports Control_Erasure Ingest_Handler Index_Writer Safe_Http_Facts Hub_Scheduler
begin

text \<open>
  Verification development for Asker, a personal search engine.
\<close>

end
